theory Spec2Isabelle
  imports Main "HOL-Library.AList" "HOL-Library.Signed_Division" "HOL-Library.Word"
begin

unbundle bit_operations_syntax


section \<open>Errors\<close>

text \<open>
  Go's \<^verbatim>\<open>error\<close> values that the extension-object protocol of
  \<^verbatim>\<open>pkg/extensions/customresources.go\<close> produces or inspects. A Go \<^verbatim>\<open>error\<close> that may be
  \<^verbatim>\<open>nil\<close> is an \<open>error option\<close>.
  \<^item> \<open>Plain\<close>: \<^verbatim>\<open>errors.New\<close> / \<^verbatim>\<open>fmt.Errorf\<close> without wrapping;
  \<^item> \<open>ErrorWithCodes\<close>: \<^verbatim>\<open>gardencorev1beta1helper.ErrorWithCodes\<close>;
  \<^item> \<open>NotFound\<close>: an API error for which \<^verbatim>\<open>apierrors.IsNotFound\<close> holds;
  \<^item> \<open>StatusError\<close>: any other API error;
  \<^item> \<open>RetryError\<close>: what the retry loop returns when the deadline fires, carrying the last
    minor error (if any).
\<close>

type_synonym ErrorCode = string

datatype error =
    Plain string
  | ErrorWithCodes string "ErrorCode list"
  | NotFound string
  | StatusError string
  | RetryError "error option"

text \<open>The \<^verbatim>\<open>Error()\<close> method.\<close>

fun Error :: "error \<Rightarrow> string" where
  "Error (Plain m) = m"
| "Error (ErrorWithCodes m cs) = m"
| "Error (NotFound m) = m"
| "Error (StatusError m) = m"
| "Error (RetryError None) = ''retry failed with context deadline exceeded''"
| "Error (RetryError (Some e)) =
     ''retry failed with context deadline exceeded, last error: '' @ Error e"

fun IsNotFound :: "error \<Rightarrow> bool" where
  "IsNotFound (NotFound m) = True"
| "IsNotFound e = False"

text \<open>\<^verbatim>\<open>client.IgnoreNotFound\<close>: \<^verbatim>\<open>nil\<close> for \<^verbatim>\<open>nil\<close> and for NotFound errors.\<close>

fun IgnoreNotFound :: "error option \<Rightarrow> error option" where
  "IgnoreNotFound None = None"
| "IgnoreNotFound (Some e) = (if IsNotFound e then None else Some e)"

text \<open>\<^verbatim>\<open>errors.As(err, &errorWithCode)\<close> for \<^verbatim>\<open>*ErrorWithCodes\<close>.\<close>

fun As_ErrorWithCodes :: "error \<Rightarrow> bool" where
  "As_ErrorWithCodes (ErrorWithCodes m cs) = True"
| "As_ErrorWithCodes e = False"

definition NewErrorWithCodes :: "string \<Rightarrow> ErrorCode list \<Rightarrow> error" where
  "NewErrorWithCodes message codes = ErrorWithCodes message codes"

text \<open>
  Modelled from the spec: \<^verbatim>\<open>gardencorev1beta1helper.ExtractErrorCodes\<close> is not among the
  sources. The spec asks for an error "retaining the last observed health error and its error
  codes": the codes are those a coded error carries, and none for any other error.
\<close>

fun ExtractErrorCodes :: "error \<Rightarrow> ErrorCode list" where
  "ExtractErrorCodes (ErrorWithCodes m cs) = cs"
| "ExtractErrorCodes e = []"

section \<open>Formatting helpers\<close>

definition extensionKey :: "string \<Rightarrow> string \<Rightarrow> string \<Rightarrow> string" where
  "extensionKey kind namespace name = kind @ '' '' @ namespace @ ''/'' @ name"

definition formatErrorMessage :: "string \<Rightarrow> string \<Rightarrow> string" where
  "formatErrorMessage message description = message @ '': '' @ description"

text \<open>
  \<^verbatim>\<open>fmt.Errorf(message)\<close> with the message as the format string and no operands, as
  \<^verbatim>\<open>WaitUntilExtensionObjectDeleted\<close> calls it: \<^verbatim>\<open>%%\<close> prints a percent sign, a verb without
  operand prints \<^verbatim>\<open>%!v(MISSING)\<close>, a trailing percent sign prints \<^verbatim>\<open>%!(NOVERB)\<close>. Flags and
  widths between the percent sign and the verb are not modelled.
\<close>

fun Sprintf0 :: "string \<Rightarrow> string" where
  "Sprintf0 [] = []"
| "Sprintf0 [c] = (if c = CHR ''%'' then ''%!(NOVERB)'' else [c])"
| "Sprintf0 (c # d # cs) =
     (if c = CHR ''%'' then
        (if d = CHR ''%'' then CHR ''%'' # Sprintf0 cs
         else ''%!'' @ [d] @ ''(MISSING)'' @ Sprintf0 cs)
      else c # Sprintf0 (d # cs))"

section \<open>Extension objects\<close>

type_synonym bytes = "8 word list"

datatype LastOperationType =
    LastOperationTypeCreate
  | LastOperationTypeReconcile
  | LastOperationTypeDelete
  | LastOperationTypeMigrate
  | LastOperationTypeRestore

datatype LastOperationState =
    LastOperationStateProcessing
  | LastOperationStateSucceeded
  | LastOperationStateError
  | LastOperationStateFailed
  | LastOperationStatePending
  | LastOperationStateAborted

record LastOperation =
  lo_Type :: LastOperationType
  lo_State :: LastOperationState
  lo_Description :: string

record LastError =
  le_Description :: string
  le_Codes :: "ErrorCode list"

record CrossVersionObjectReference =
  ref_Kind :: string
  ref_Name :: string
  ref_APIVersion :: string

record NamedResourceReference =
  nr_Name :: string
  nr_ResourceRef :: CrossVersionObjectReference

text \<open>
  One record stands for every \<^verbatim>\<open>extensionsv1alpha1.Object\<close>: metadata, the common spec
  fields (\<^verbatim>\<open>DefaultSpec.Type\<close>, the purpose), the common status fields
  (\<^verbatim>\<open>DefaultStatus\<close>), and the fields that only \<^verbatim>\<open>BackupUpload\<close>,
  \<^verbatim>\<open>BackupDownload\<close> and \<^verbatim>\<open>BackupEntry\<close> have (entry name, bucket name, file path,
  data). \<open>GoType\<close> is the Go type of the
  value, which the scheme maps to a group-version-kind; \<open>Kind\<close> is the \<^verbatim>\<open>TypeMeta\<close> field.
\<close>

record Object =
  GoType :: string
  Kind :: string
  Namespace :: string
  Name :: string
  Annotations :: "(string \<times> string) list"
  DeletionTimestamp :: "string option"
  spec_Type :: string
  spec_Purpose :: "string option"
  spec_EntryName :: string
  spec_BucketName :: string
  spec_FilePath :: string
  spec_Data :: bytes
  status_LastOperation :: "LastOperation option"
  status_LastError :: "LastError option"
  status_State :: "bytes option"
  status_Resources :: "NamedResourceReference list"
  status_Data :: bytes

definition zeroObject :: "string \<Rightarrow> Object" where
  "zeroObject ty =
     \<lparr>GoType = ty, Kind = [], Namespace = [], Name = [], Annotations = [],
      DeletionTimestamp = None, spec_Type = [], spec_Purpose = None, spec_EntryName = [],
      spec_BucketName = [], spec_FilePath = [], spec_Data = [], status_LastOperation = None,
      status_LastError = None, status_State = None, status_Resources = [],
      status_Data = []\<rparr>"

text \<open>
  Modelled from the spec: the constants package is not among the sources. The spec names the
  two reserved annotation keys \<^verbatim>\<open>operation\<close> and \<^verbatim>\<open>timestamp\<close> and the operation values; the
  test of \<^verbatim>\<open>customresources.go\<close> spells the operation key \<^verbatim>\<open>gardener.cloud/operation\<close>.
\<close>

definition GardenerOperation :: string where
  "GardenerOperation = ''gardener.cloud/operation''"

definition GardenerTimestamp :: string where
  "GardenerTimestamp = ''gardener.cloud/timestamp''"

definition ConfirmationDeletion :: string where
  "ConfirmationDeletion = ''confirmation.gardener.cloud/deletion''"

definition GardenerOperationReconcile :: string where
  "GardenerOperationReconcile = ''reconcile''"

definition GardenerOperationMigrate :: string where
  "GardenerOperationMigrate = ''migrate''"

definition GardenerOperationRestore :: string where
  "GardenerOperationRestore = ''restore''"

definition GardenerOperationWaitForState :: string where
  "GardenerOperationWaitForState = ''wait-for-state''"

definition SetMetaDataAnnotation :: "Object \<Rightarrow> string \<Rightarrow> string \<Rightarrow> Object" where
  "SetMetaDataAnnotation obj k v = obj\<lparr>Annotations := AList.update k v (Annotations obj)\<rparr>"

section \<open>The reading client of a wait\<close>

text \<open>
  A wait only reads. What \<^verbatim>\<open>c.Get\<close> returns is decided by the API server and by whoever
  writes to it between two polls, so the client of a wait is the scheme it was built with
  and, for each poll (counted from 0) and key (namespace, name), the result of the read.
\<close>

record Client =
  c_Scheme :: "string list"
  c_Get :: "nat \<Rightarrow> string \<times> string \<Rightarrow> error + Object"

text \<open>
  \<^verbatim>\<open>createResetObjectFunc\<close>: \<^verbatim>\<open>apiutil.GVKForObject\<close> fails for a Go type the scheme does
  not know; otherwise the returned closure overwrites the object with a new empty one of its
  kind. The closure is represented by that empty object.
\<close>

definition createResetObjectFunc :: "Object \<Rightarrow> string list \<Rightarrow> error + Object" where
  "createResetObjectFunc obj scheme =
     (if GoType obj \<in> set scheme then Inr (zeroObject (GoType obj))
      else Inl (Plain (''no kind is registered for the type '' @ GoType obj)))"

section \<open>The retry loop\<close>

text \<open>
  Modelled from the spec: the \<^verbatim>\<open>retry\<close> package is not among the sources. The spec gives
  its taxonomy: a minor error is "always retried until timeout", a severe error is "escalated
  immediately, aborts the wait", and a coded error is promoted from minor to severe "once the
  elapsed retry count exceeds" the threshold. A poll function returns Go's pair
  \<^verbatim>\<open>(done bool, err error)\<close>.
\<close>

type_synonym retry_result = "bool \<times> error option"

definition Ok :: retry_result where
  "Ok = (True, None)"

definition MinorError :: "error \<Rightarrow> retry_result" where
  "MinorError e = (False, Some e)"

definition SevereError :: "error \<Rightarrow> retry_result" where
  "SevereError e = (True, Some e)"

definition MinorOrSevereError :: "int \<Rightarrow> int \<Rightarrow> error \<Rightarrow> retry_result" where
  "MinorOrSevereError retryCountUntilSevere threshold e =
     (if retryCountUntilSevere > threshold then SevereError e else MinorError e)"

text \<open>A Go call either returns or panics (the integer division by zero below).\<close>

datatype 'a outcome = Returns 'a | Panics

fun finished :: "retry_result outcome \<Rightarrow> error option outcome option" where
  "finished Panics = Some Panics"
| "finished (Returns (True, err)) = Some (Returns err)"
| "finished (Returns (False, err)) = None"

fun minor_of :: "retry_result outcome \<Rightarrow> error option \<Rightarrow> error option" where
  "minor_of (Returns (d, Some e)) m = Some e"
| "minor_of r m = m"

text \<open>
  Modelled from the spec: \<^verbatim>\<open>retry.UntilTimeout(ctx, interval, timeout, f)\<close>. "Repeatedly, on a
  fixed interval tick", the poll function runs; the first poll runs at once, and "no poll tick
  should be allowed to outlive the overall timeout". Time is the idealised clock of the spec's
  scenarios: a poll takes no time and a wait takes \<open>interval\<close> (nothing for a non-positive
  interval), so poll \<open>k\<close> runs at elapsed time \<open>k * interval\<close>; the next poll runs only if its
  tick lies strictly before the deadline. Durations are nanoseconds, as in \<^verbatim>\<open>time.Duration\<close>.

  The loop returns the outcome, the state of the variables that the poll function captures,
  and the number of polls it ran. With a non-positive interval and a positive timeout the
  idealised clock never reaches the deadline; not returning is the value \<open>None\<close>.
\<close>

partial_function (option) Until ::
  "int \<Rightarrow> int \<Rightarrow> int \<Rightarrow> nat \<Rightarrow> error option \<Rightarrow> (nat \<Rightarrow> 's \<Rightarrow> retry_result outcome \<times> 's) \<Rightarrow> 's
    \<Rightarrow> (error option outcome \<times> 's \<times> nat) option" where
  "Until interval deadline t k minorErr f s =
     (let (r, s') = f k s in
      if finished r \<noteq> None then Some (the (finished r), s', Suc k)
      else if deadline \<le> t + max interval 0
        then Some (Returns (Some (RetryError (minor_of r minorErr))), s', Suc k)
      else Until interval deadline (t + max interval 0) (Suc k) (minor_of r minorErr) f s')"

declare Until.simps [code]

definition UntilTimeout ::
  "int \<Rightarrow> int \<Rightarrow> (nat \<Rightarrow> 's \<Rightarrow> retry_result outcome \<times> 's) \<Rightarrow> 's
    \<Rightarrow> (error option outcome \<times> 's \<times> nat) option" where
  "UntilTimeout interval timeout f s = Until interval timeout 0 0 None f s"

section \<open>Health checks\<close>

text \<open>
  Modelled from the spec: the \<^verbatim>\<open>health\<close> package is not among the sources.
  \<^item> \<^verbatim>\<open>health.ObjectHasAnnotationWithValue\<close>: "if \<^verbatim>\<open>expectedTimestamp\<close> is set and the
    object's timestamp annotation differs, treat as not-yet-ready (MinorError)", so the error
    carries no codes;
  \<^item> \<^verbatim>\<open>health.CheckExtensionObject\<close>: the spec's readiness is
    \<^verbatim>\<open>LastOperation.State == Succeeded\<close>; while the object is not ready, a populated
    \<^verbatim>\<open>LastError{Description, Codes}\<close> is the coded error the poller escalates;
  \<^item> \<^verbatim>\<open>health.And\<close>: the first failing check decides.
\<close>

type_synonym health_Func = "Object \<Rightarrow> error option"

definition ObjectHasAnnotationWithValue :: "string \<Rightarrow> string \<Rightarrow> health_Func" where
  "ObjectHasAnnotationWithValue key val obj =
     (case map_of (Annotations obj) key of
        Some v \<Rightarrow>
          (if v = val then None
           else Some (Plain (''object does not have '' @ key @ '' annotation with value '' @ val)))
      | None \<Rightarrow> Some (Plain (''object does not have '' @ key @ '' annotation with value '' @ val)))"

definition CheckExtensionObject :: health_Func where
  "CheckExtensionObject obj =
     (case status_LastOperation obj of
        None \<Rightarrow>
          (case status_LastError obj of
             Some lastErr \<Rightarrow>
               Some (NewErrorWithCodes (''error during reconciliation: '' @ le_Description lastErr)
                      (le_Codes lastErr))
           | None \<Rightarrow> Some (Plain ''extension did not record a last operation yet''))
      | Some lastOp \<Rightarrow>
          (if lo_State lastOp = LastOperationStateSucceeded then None
           else
             (case status_LastError obj of
                Some lastErr \<Rightarrow>
                  Some (NewErrorWithCodes
                         (''error during reconciliation: '' @ le_Description lastErr)
                         (le_Codes lastErr))
              | None \<Rightarrow> Some (Plain ''extension state is not succeeded''))))"

fun And :: "health_Func list \<Rightarrow> health_Func" where
  "And [] obj = None"
| "And (f # fs) obj = (case f obj of Some e \<Rightarrow> Some e | None \<Rightarrow> And fs obj)"

section \<open>Waiting until an object is ready\<close>

text \<open>
  Go's quotient of two \<^verbatim>\<open>int64\<close> values with a non-zero divisor: it truncates towards zero,
  and the one quotient that does not fit wraps around to the dividend.
\<close>

definition quo64 :: "int \<Rightarrow> int \<Rightarrow> int" where
  "quo64 a b = (if a = - (2 ^ 63) \<and> b = - 1 then - (2 ^ 63) else a sdiv b)"

text \<open>
  The variables that the poll function of \<^verbatim>\<open>WaitUntilObjectReadyWithHealthFunction\<close>
  captures: the retry counter, the last observed error, and the caller's object, which every
  poll resets and reads again. \<open>postReadyCalls\<close> counts the calls of the post-ready hook.
\<close>

record ready_vars =
  retryCountUntilSevere :: int
  lastObservedError :: "error option"
  obj :: Object
  postReadyCalls :: nat

text \<open>
  The post-ready hook is \<^verbatim>\<open>nil\<close> (\<open>None\<close>) or a function, given by what it returns when it
  is called.
\<close>

definition readyPoll ::
  "Client \<Rightarrow> health_Func \<Rightarrow> Object \<Rightarrow> string \<Rightarrow> string \<Rightarrow> string \<Rightarrow> int \<Rightarrow> int
    \<Rightarrow> error option option \<Rightarrow> nat \<Rightarrow> ready_vars \<Rightarrow> retry_result outcome \<times> ready_vars" where
  "readyPoll c healthFunc emptyObj kind namespace name interval severeThreshold postReadyFunc k s =
     (let s1 = s\<lparr>retryCountUntilSevere := retryCountUntilSevere s + 1, obj := emptyObj\<rparr> in
      case c_Get c k (namespace, name) of
        Inl err \<Rightarrow>
          (if IsNotFound err then (Returns (MinorError err), s1)
           else (Returns (SevereError err), s1))
      | Inr fetched \<Rightarrow>
          (let s2 = s1\<lparr>obj := fetched\<rparr> in
           case healthFunc fetched of
             Some err \<Rightarrow>
               (let s3 = s2\<lparr>lastObservedError := Some err\<rparr> in
                if As_ErrorWithCodes err then
                  (if interval = 0 then (Panics, s3)
                   else (Returns (MinorOrSevereError (retryCountUntilSevere s3)
                                   (quo64 severeThreshold interval) err), s3))
                else (Returns (MinorError err), s3))
           | None \<Rightarrow>
               (case postReadyFunc of
                  None \<Rightarrow> (Returns Ok, s2)
                | Some None \<Rightarrow> (Returns Ok, s2\<lparr>postReadyCalls := Suc (postReadyCalls s2)\<rparr>)
                | Some (Some err) \<Rightarrow>
                    (Returns (SevereError err),
                     s2\<lparr>postReadyCalls := Suc (postReadyCalls s2)\<rparr>))))"

definition WaitUntilObjectReadyWithHealthFunction ::
  "Client \<Rightarrow> health_Func \<Rightarrow> Object \<Rightarrow> string \<Rightarrow> int \<Rightarrow> int \<Rightarrow> int \<Rightarrow> error option option
    \<Rightarrow> (error option outcome \<times> ready_vars \<times> nat) option" where
  "WaitUntilObjectReadyWithHealthFunction c healthFunc ob kind interval severeThreshold timeout
       postReadyFunc =
     (let name = Name ob; namespace = Namespace ob;
          vars = \<lparr>retryCountUntilSevere = 0, lastObservedError = None, obj = ob,
                  postReadyCalls = 0\<rparr> in
      case createResetObjectFunc ob (c_Scheme c) of
        Inl err \<Rightarrow> Some (Returns (Some err), vars, 0)
      | Inr emptyObj \<Rightarrow>
          (case UntilTimeout interval timeout
                  (readyPoll c healthFunc emptyObj kind namespace name interval severeThreshold
                     postReadyFunc) vars of
             None \<Rightarrow> None
           | Some (Panics, s, n) \<Rightarrow> Some (Panics, s, n)
           | Some (Returns None, s, n) \<Rightarrow> Some (Returns None, s, n)
           | Some (Returns (Some err), s, n) \<Rightarrow>
               (let message = ''Error while waiting for '' @ extensionKey kind namespace name
                                @ '' to become ready'' in
                case lastObservedError s of
                  Some l \<Rightarrow>
                    Some (Returns (Some (NewErrorWithCodes
                                          (formatErrorMessage message (Error l))
                                          (ExtractErrorCodes l))), s, n)
                | None \<Rightarrow>
                    Some (Returns (Some (Plain (formatErrorMessage message (Error err)))),
                          s, n))))"

definition WaitUntilExtensionObjectReady ::
  "Client \<Rightarrow> Object \<Rightarrow> string \<Rightarrow> int \<Rightarrow> int \<Rightarrow> int \<Rightarrow> error option option
    \<Rightarrow> (error option outcome \<times> ready_vars \<times> nat) option" where
  "WaitUntilExtensionObjectReady c ob kind interval severeThreshold timeout postReadyFunc =
     (let healthFuncs =
            (case map_of (Annotations ob) GardenerTimestamp of
               Some expectedTimestamp \<Rightarrow>
                 [ObjectHasAnnotationWithValue GardenerTimestamp expectedTimestamp]
             | None \<Rightarrow> [])
            @ [CheckExtensionObject] in
      WaitUntilObjectReadyWithHealthFunction c (And healthFuncs) ob kind interval
        severeThreshold timeout postReadyFunc)"

section \<open>Waiting until an object is deleted\<close>

record deleted_vars =
  dv_lastObservedError :: "error option"
  dv_obj :: Object

definition deletedPoll ::
  "Client \<Rightarrow> Object \<Rightarrow> string \<Rightarrow> string \<Rightarrow> string \<Rightarrow> nat \<Rightarrow> deleted_vars
    \<Rightarrow> retry_result outcome \<times> deleted_vars" where
  "deletedPoll c emptyObj kind namespace name k s =
     (let s1 = s\<lparr>dv_obj := emptyObj\<rparr> in
      case c_Get c k (namespace, name) of
        Inl err \<Rightarrow>
          (if IsNotFound err then (Returns Ok, s1) else (Returns (SevereError err), s1))
      | Inr fetched \<Rightarrow>
          (let s2 = s1\<lparr>dv_obj := fetched\<rparr>;
               s3 = (case status_LastError fetched of
                       Some lastErr \<Rightarrow>
                         s2\<lparr>dv_lastObservedError :=
                              Some (NewErrorWithCodes (le_Description lastErr) (le_Codes lastErr))\<rparr>
                     | None \<Rightarrow> s2);
               message = extensionKey kind namespace name @ '' is still present'';
               message' = (case dv_lastObservedError s3 of
                             Some l \<Rightarrow> message @ '', last observed error: '' @ Error l
                           | None \<Rightarrow> message)
           in (Returns (MinorError (Plain (Sprintf0 message'))), s3)))"

definition WaitUntilExtensionObjectDeleted ::
  "Client \<Rightarrow> Object \<Rightarrow> string \<Rightarrow> int \<Rightarrow> int
    \<Rightarrow> (error option outcome \<times> deleted_vars \<times> nat) option" where
  "WaitUntilExtensionObjectDeleted c ob kind interval timeout =
     (let name = Name ob; namespace = Namespace ob;
          vars = \<lparr>dv_lastObservedError = None, dv_obj = ob\<rparr> in
      case createResetObjectFunc ob (c_Scheme c) of
        Inl err \<Rightarrow> Some (Returns (Some err), vars, 0)
      | Inr emptyObj \<Rightarrow>
          (case UntilTimeout interval timeout (deletedPoll c emptyObj kind namespace name) vars of
             None \<Rightarrow> None
           | Some (Panics, s, n) \<Rightarrow> Some (Panics, s, n)
           | Some (Returns None, s, n) \<Rightarrow> Some (Returns None, s, n)
           | Some (Returns (Some err), s, n) \<Rightarrow>
               (let message = ''Failed to delete '' @ extensionKey kind namespace name in
                case dv_lastObservedError s of
                  Some l \<Rightarrow>
                    Some (Returns (Some (NewErrorWithCodes
                                          (formatErrorMessage message (Error l))
                                          (ExtractErrorCodes l))), s, n)
                | None \<Rightarrow>
                    Some (Returns (Some (Plain (formatErrorMessage message (Error err)))),
                          s, n))))"

section \<open>Waiting until an object is migrated\<close>

definition migratedPoll ::
  "Client \<Rightarrow> Object \<Rightarrow> string \<Rightarrow> string \<Rightarrow> nat \<Rightarrow> Object \<Rightarrow> retry_result outcome \<times> Object" where
  "migratedPoll c emptyObj namespace name k ob =
     (case c_Get c k (namespace, name) of
        Inl err \<Rightarrow>
          (if IgnoreNotFound (Some err) = None then (Returns Ok, emptyObj)
           else (Returns (SevereError err), emptyObj))
      | Inr fetched \<Rightarrow>
          (if (case status_LastOperation fetched of
                 Some lastOperation \<Rightarrow>
                   lo_Type lastOperation = LastOperationTypeMigrate
                   \<and> lo_State lastOperation = LastOperationStateSucceeded
               | None \<Rightarrow> False)
           then (Returns Ok, fetched)
           else (Returns (MinorError (Plain (''lastOperation for '' @ Kind fetched
                    @ '' with name '' @ name @ '' and type '' @ spec_Type fetched
                    @ '' is not Migrate=Succeeded''))), fetched)))"

definition WaitUntilExtensionObjectMigrated ::
  "Client \<Rightarrow> Object \<Rightarrow> int \<Rightarrow> int \<Rightarrow> (error option outcome \<times> Object \<times> nat) option" where
  "WaitUntilExtensionObjectMigrated c ob interval timeout =
     (let name = Name ob; namespace = Namespace ob in
      case createResetObjectFunc ob (c_Scheme c) of
        Inl err \<Rightarrow> Some (Returns (Some err), ob, 0)
      | Inr emptyObj \<Rightarrow> UntilTimeout interval timeout (migratedPoll c emptyObj namespace name) ob)"

section \<open>What a wait has observed\<close>

text \<open>The shape of the last poll of a loop that returned \<open>y\<close>.\<close>

definition last_poll ::
  "nat \<Rightarrow> (nat \<Rightarrow> 's \<Rightarrow> retry_result outcome \<times> 's) \<Rightarrow> error option outcome \<times> 's \<times> nat
    \<Rightarrow> bool" where
  "last_poll k f y =
     (case y of (out, s', n) \<Rightarrow>
        (\<exists>k' s0 r m'. k \<le> k' \<and> n = Suc k' \<and> f k' s0 = (r, s')
           \<and> (finished r = Some out
               \<or> finished r = None \<and> out = Returns (Some (RetryError (minor_of r m'))))))"

text \<open>
  The domain errors that the first \<open>n\<close> polls of a wait have seen, oldest first: the failures
  of the health check on the objects read, and the populated \<^verbatim>\<open>Status.LastError\<close> fields (as
  the coded errors \<^verbatim>\<open>WaitUntilExtensionObjectDeleted\<close> makes of them).
\<close>

fun healthErrors :: "Client \<Rightarrow> health_Func \<Rightarrow> string \<times> string \<Rightarrow> nat \<Rightarrow> error list" where
  "healthErrors c h key 0 = []"
| "healthErrors c h key (Suc n) =
     healthErrors c h key n
     @ (case c_Get c n key of
          Inl err \<Rightarrow> []
        | Inr fetched \<Rightarrow> (case h fetched of Some e \<Rightarrow> [e] | None \<Rightarrow> []))"

fun lastErrors :: "Client \<Rightarrow> string \<times> string \<Rightarrow> nat \<Rightarrow> error list" where
  "lastErrors c key 0 = []"
| "lastErrors c key (Suc n) =
     lastErrors c key n
     @ (case c_Get c n key of
          Inl err \<Rightarrow> []
        | Inr fetched \<Rightarrow>
            (case status_LastError fetched of
               Some lastErr \<Rightarrow> [NewErrorWithCodes (le_Description lastErr) (le_Codes lastErr)]
             | None \<Rightarrow> []))"

definition last_opt :: "'a list \<Rightarrow> 'a option" where
  "last_opt xs = (if xs = [] then None else Some (last xs))"

text \<open>The condition under which a poll of \<^verbatim>\<open>WaitUntilExtensionObjectMigrated\<close> is done.\<close>

definition migrateSucceeded :: "Object \<Rightarrow> bool" where
  "migrateSucceeded ob =
     (case status_LastOperation ob of
        Some lastOperation \<Rightarrow>
          lo_Type lastOperation = LastOperationTypeMigrate
          \<and> lo_State lastOperation = LastOperationStateSucceeded
      | None \<Rightarrow> False)"

text \<open>The minor error of a poll that read an object whose migration has not succeeded.\<close>

definition notMigratedError :: "string \<Rightarrow> Object \<Rightarrow> error" where
  "notMigratedError name fetched =
     Plain (''lastOperation for '' @ Kind fetched @ '' with name '' @ name @ '' and type ''
            @ spec_Type fetched @ '' is not Migrate=Succeeded'')"

section \<open>The writing client\<close>

text \<open>
  \<^verbatim>\<open>client.Client\<close> and \<^verbatim>\<open>client.Writer\<close> are interfaces; the tests pass a fake API server
  as well as mocks that answer with any error. An implementation is a record of operations
  on a state \<open>'w\<close> of the implementer's choice. Objects are addressed by Go type, namespace
  and name. A patch is given by the object as modified and the original
  (\<^verbatim>\<open>client.MergeFrom(original)\<close>); a successful patch returns the object as the server
  stored it, which overwrites the caller's object.
\<close>

type_synonym ObjectKey = "string \<times> string \<times> string"

record 'w API =
  api_Get :: "ObjectKey \<Rightarrow> 'w \<Rightarrow> (error + Object) \<times> 'w"
  api_Create :: "Object \<Rightarrow> 'w \<Rightarrow> error option \<times> 'w"
  api_Patch :: "Object \<Rightarrow> Object \<Rightarrow> 'w \<Rightarrow> (error + Object) \<times> 'w"
  api_StatusPatch :: "Object \<Rightarrow> Object \<Rightarrow> 'w \<Rightarrow> (error + Object) \<times> 'w"
  api_StatusUpdate :: "Object \<Rightarrow> 'w \<Rightarrow> (error + Object) \<times> 'w"
  api_Delete :: "Object \<Rightarrow> 'w \<Rightarrow> error option \<times> 'w"
  api_CreateOrUpdateObjectByRef ::
    "CrossVersionObjectReference \<Rightarrow> string \<Rightarrow> bytes \<Rightarrow> 'w \<Rightarrow> error option \<times> 'w"

definition keyOf :: "Object \<Rightarrow> ObjectKey" where
  "keyOf ob = (GoType ob, Namespace ob, Name ob)"

subsection \<open>An API server in memory\<close>

text \<open>
  The fake client of the tests: a store of extension objects and a store of the auxiliary
  objects that resource references point to. A JSON merge patch carries the fields in which
  the modified object differs from the original, and the server applies them to the object
  it holds; a patch to the status subresource touches only the status, and an update of the
  status subresource replaces the status. Removing an
  annotation by a patch is not modelled: the functions below only set annotations.
\<close>

record Store =
  objects :: "ObjectKey \<Rightarrow> Object option"
  referenced :: "(CrossVersionObjectReference \<times> string) \<Rightarrow> bytes option"

definition emptyStore :: Store where
  "emptyStore = \<lparr>objects = (\<lambda>k. None), referenced = (\<lambda>k. None)\<rparr>"

definition mergeAnnotations ::
  "(string \<times> string) list \<Rightarrow> (string \<times> string) list \<Rightarrow> (string \<times> string) list
    \<Rightarrow> (string \<times> string) list" where
  "mergeAnnotations original modified current =
     foldr (\<lambda>k acc. case map_of modified k of
                       Some v \<Rightarrow> (if map_of original k = Some v then acc else AList.update k v acc)
                     | None \<Rightarrow> acc)
       (remdups (map fst modified)) current"

definition applyPatch :: "Object \<Rightarrow> Object \<Rightarrow> Object \<Rightarrow> Object" where
  "applyPatch original modified current =
     current
       \<lparr>Annotations := mergeAnnotations (Annotations original) (Annotations modified)
                         (Annotations current),
        spec_Type := (if spec_Type modified = spec_Type original then spec_Type current
                      else spec_Type modified),
        spec_Purpose := (if spec_Purpose modified = spec_Purpose original
                         then spec_Purpose current else spec_Purpose modified),
        spec_EntryName := (if spec_EntryName modified = spec_EntryName original
                           then spec_EntryName current else spec_EntryName modified),
        spec_FilePath := (if spec_FilePath modified = spec_FilePath original
                          then spec_FilePath current else spec_FilePath modified),
        spec_Data := (if spec_Data modified = spec_Data original then spec_Data current
                      else spec_Data modified)\<rparr>"

definition applyStatusPatch :: "Object \<Rightarrow> Object \<Rightarrow> Object \<Rightarrow> Object" where
  "applyStatusPatch original modified current =
     current
       \<lparr>status_LastOperation :=
          (if status_LastOperation modified = status_LastOperation original
           then status_LastOperation current else status_LastOperation modified),
        status_LastError :=
          (if status_LastError modified = status_LastError original
           then status_LastError current else status_LastError modified),
        status_State := (if status_State modified = status_State original
                         then status_State current else status_State modified),
        status_Resources := (if status_Resources modified = status_Resources original
                             then status_Resources current else status_Resources modified),
        status_Data := (if status_Data modified = status_Data original then status_Data current
                        else status_Data modified)\<rparr>"

definition notFound :: "Object \<Rightarrow> error" where
  "notFound ob = NotFound (GoType ob @ '' \"'' @ Name ob @ ''\" not found'')"

definition mem_Get :: "ObjectKey \<Rightarrow> Store \<Rightarrow> (error + Object) \<times> Store" where
  "mem_Get key st =
     (case objects st key of
        None \<Rightarrow> (Inl (NotFound (fst key @ '' \"'' @ snd (snd key) @ ''\" not found'')), st)
      | Some ob \<Rightarrow> (Inr ob, st))"

definition mem_Create :: "Object \<Rightarrow> Store \<Rightarrow> error option \<times> Store" where
  "mem_Create ob st =
     (case objects st (keyOf ob) of
        Some cur \<Rightarrow> (Some (StatusError (GoType ob @ '' \"'' @ Name ob @ ''\" already exists'')), st)
      | None \<Rightarrow> (None, st\<lparr>objects := (objects st)(keyOf ob \<mapsto> ob)\<rparr>))"

definition mem_Patch :: "Object \<Rightarrow> Object \<Rightarrow> Store \<Rightarrow> (error + Object) \<times> Store" where
  "mem_Patch modified original st =
     (case objects st (keyOf modified) of
        None \<Rightarrow> (Inl (notFound modified), st)
      | Some cur \<Rightarrow>
          (let new = applyPatch original modified cur in
           (Inr new, st\<lparr>objects := (objects st)(keyOf modified \<mapsto> new)\<rparr>)))"

definition mem_StatusPatch :: "Object \<Rightarrow> Object \<Rightarrow> Store \<Rightarrow> (error + Object) \<times> Store" where
  "mem_StatusPatch modified original st =
     (case objects st (keyOf modified) of
        None \<Rightarrow> (Inl (notFound modified), st)
      | Some cur \<Rightarrow>
          (let new = applyStatusPatch original modified cur in
           (Inr new, st\<lparr>objects := (objects st)(keyOf modified \<mapsto> new)\<rparr>)))"

definition mem_StatusUpdate :: "Object \<Rightarrow> Store \<Rightarrow> (error + Object) \<times> Store" where
  "mem_StatusUpdate ob st =
     (case objects st (keyOf ob) of
        None \<Rightarrow> (Inl (notFound ob), st)
      | Some cur \<Rightarrow>
          (let new = cur\<lparr>status_LastOperation := status_LastOperation ob,
                         status_LastError := status_LastError ob,
                         status_State := status_State ob,
                         status_Resources := status_Resources ob,
                         status_Data := status_Data ob\<rparr> in
           (Inr new, st\<lparr>objects := (objects st)(keyOf ob \<mapsto> new)\<rparr>)))"

definition mem_Delete :: "Object \<Rightarrow> Store \<Rightarrow> error option \<times> Store" where
  "mem_Delete ob st =
     (case objects st (keyOf ob) of
        None \<Rightarrow> (Some (notFound ob), st)
      | Some cur \<Rightarrow> (None, st\<lparr>objects := (objects st)(keyOf ob := None)\<rparr>))"

definition mem_CreateOrUpdateObjectByRef ::
  "CrossVersionObjectReference \<Rightarrow> string \<Rightarrow> bytes \<Rightarrow> Store \<Rightarrow> error option \<times> Store" where
  "mem_CreateOrUpdateObjectByRef ref namespace content st =
     (None, st\<lparr>referenced := (referenced st)((ref, namespace) \<mapsto> content)\<rparr>)"

definition memAPI :: "Store API" where
  "memAPI =
     \<lparr>api_Get = mem_Get, api_Create = mem_Create, api_Patch = mem_Patch,
      api_StatusPatch = mem_StatusPatch, api_StatusUpdate = mem_StatusUpdate,
      api_Delete = mem_Delete,
      api_CreateOrUpdateObjectByRef = mem_CreateOrUpdateObjectByRef\<rparr>"

section \<open>Time stamps\<close>

text \<open>
  A \<^verbatim>\<open>time.Time\<close> after \<^verbatim>\<open>.UTC()\<close>: the fields of the wall clock in UTC, none of them
  negative and the year of at most four digits. \<^verbatim>\<open>Time.String()\<close> prints the layout
  \<^verbatim>\<open>2006-01-02 15:04:05.999999999 -0700 MST\<close>, and \<^verbatim>\<open>Format(time.RFC3339Nano)\<close> prints
  \<^verbatim>\<open>2006-01-02T15:04:05.999999999Z07:00\<close>; in both, the fraction loses its trailing zeros
  and disappears when it is zero.
\<close>

record Time =
  year :: int
  month :: int
  day :: int
  hour :: int
  minute :: int
  second :: int
  nanosecond :: int

definition digit :: "int \<Rightarrow> char" where
  "digit n = ''0123456789'' ! nat (n mod 10)"

fun pad :: "nat \<Rightarrow> int \<Rightarrow> string" where
  "pad 0 n = []"
| "pad (Suc w) n = pad w (n div 10) @ [digit n]"

definition dropTrailingZeros :: "string \<Rightarrow> string" where
  "dropTrailingZeros s = rev (dropWhile (\<lambda>c. c = CHR ''0'') (rev s))"

definition fraction :: "int \<Rightarrow> string" where
  "fraction ns = (if ns mod 1000000000 = 0 then [] else ''.'' @ dropTrailingZeros (pad 9 ns))"

definition Time_String :: "Time \<Rightarrow> string" where
  "Time_String t =
     pad 4 (year t) @ ''-'' @ pad 2 (month t) @ ''-'' @ pad 2 (day t) @ '' ''
     @ pad 2 (hour t) @ '':'' @ pad 2 (minute t) @ '':'' @ pad 2 (second t)
     @ fraction (nanosecond t) @ '' +0000 UTC''"

definition Format_RFC3339Nano :: "Time \<Rightarrow> string" where
  "Format_RFC3339Nano t =
     pad 4 (year t) @ ''-'' @ pad 2 (month t) @ ''-'' @ pad 2 (day t) @ ''T''
     @ pad 2 (hour t) @ '':'' @ pad 2 (minute t) @ '':'' @ pad 2 (second t)
     @ fraction (nanosecond t) @ ''Z''"

section \<open>Annotating, deleting, deploying\<close>

text \<open>
  \<^verbatim>\<open>AnnotateObjectWithOperation\<close>; \<open>now\<close> is what \<^verbatim>\<open>TimeNow().UTC()\<close> returns. The result is
  the error, the caller's object after the call, and the state of the server.
\<close>

definition AnnotateObjectWithOperation ::
  "'w API \<Rightarrow> Time \<Rightarrow> Object \<Rightarrow> string \<Rightarrow> 'w \<Rightarrow> error option \<times> Object \<times> 'w" where
  "AnnotateObjectWithOperation w now ob operation st =
     (let original = ob;
          ob1 = SetMetaDataAnnotation ob GardenerOperation operation;
          ob2 = SetMetaDataAnnotation ob1 GardenerTimestamp (Time_String now) in
      case api_Patch w ob2 original st of
        (Inl err, st') \<Rightarrow> (Some err, ob2, st')
      | (Inr stored, st') \<Rightarrow> (None, stored, st'))"

text \<open>
  Modelled from the spec: \<^verbatim>\<open>gutil.ConfirmDeletion\<close> is not among the sources. \<^verbatim>\<open>Destroy\<close>
  "patches the object adding a deletion-confirmation marker annotation plus a fresh
  timestamp", the timestamp being an "RFC3339Nano UTC string".
\<close>

definition ConfirmDeletion ::
  "'w API \<Rightarrow> Time \<Rightarrow> Object \<Rightarrow> 'w \<Rightarrow> error option \<times> Object \<times> 'w" where
  "ConfirmDeletion w now ob st =
     (let original = ob;
          ob1 = SetMetaDataAnnotation ob ConfirmationDeletion ''true'';
          ob2 = SetMetaDataAnnotation ob1 GardenerTimestamp (Format_RFC3339Nano now) in
      case api_Patch w ob2 original st of
        (Inl err, st') \<Rightarrow> (Some err, ob2, st')
      | (Inr stored, st') \<Rightarrow> (None, stored, st'))"

definition DeleteExtensionObject :: "'w API \<Rightarrow> Time \<Rightarrow> Object \<Rightarrow> 'w \<Rightarrow> error option \<times> 'w" where
  "DeleteExtensionObject c now ob st =
     (case ConfirmDeletion c now ob st of
        (Some err, ob', st') \<Rightarrow> (if IsNotFound err then (None, st') else (Some err, st'))
      | (None, ob', st') \<Rightarrow>
          (case api_Delete c ob' st' of (err, st'') \<Rightarrow> (IgnoreNotFound err, st'')))"

definition MigrateExtensionObject ::
  "'w API \<Rightarrow> Time \<Rightarrow> Object \<Rightarrow> 'w \<Rightarrow> error option \<times> Object \<times> 'w" where
  "MigrateExtensionObject c now ob st =
     (case AnnotateObjectWithOperation c now ob GardenerOperationMigrate st of
        (err, ob', st') \<Rightarrow> (IgnoreNotFound err, ob', st'))"

text \<open>
  Modelled from the spec: \<^verbatim>\<open>controllerutils.GetAndCreateOrMergePatch\<close> is not among the
  sources. \<^verbatim>\<open>Deploy\<close> "uses the seed client to create or update" the resource: the object is
  read; if it is not found it is mutated and created, otherwise the object read is mutated and
  the difference is sent as a merge patch.
\<close>

definition GetAndCreateOrMergePatch ::
  "'w API \<Rightarrow> Object \<Rightarrow> (Object \<Rightarrow> Object) \<Rightarrow> 'w \<Rightarrow> error option \<times> Object \<times> 'w" where
  "GetAndCreateOrMergePatch c ob mutate st =
     (case api_Get c (keyOf ob) st of
        (Inl err, st1) \<Rightarrow>
          (if IsNotFound err then
             (case api_Create c (mutate ob) st1 of (e, st2) \<Rightarrow> (e, mutate ob, st2))
           else (Some err, ob, st1))
      | (Inr fetched, st1) \<Rightarrow>
          (case api_Patch c (mutate fetched) fetched st1 of
             (Inl err, st2) \<Rightarrow> (Some err, mutate fetched, st2)
           | (Inr stored, st2) \<Rightarrow> (None, stored, st2)))"

text \<open>Every object of the store is filed under its own key.\<close>

definition wellFormed :: "Store \<Rightarrow> bool" where
  "wellFormed st = (\<forall>key ob. objects st key = Some ob \<longrightarrow> keyOf ob = key)"

section \<open>The BackupUpload and BackupDownload components\<close>

definition DefaultInterval :: int where
  "DefaultInterval = 5 * 1000000000"

definition DefaultSevereThreshold :: int where
  "DefaultSevereThreshold = 30 * 1000000000"

definition DefaultTimeout :: int where
  "DefaultTimeout = 10 * 60 * 1000000000"

definition BackupUploadResource :: string where
  "BackupUploadResource = ''BackupUpload''"

definition BackupDownloadResource :: string where
  "BackupDownloadResource = ''BackupDownload''"

record Values =
  v_Name :: string
  v_Type :: string
  v_EntryName :: string
  v_FilePath :: string
  v_Data :: bytes

text \<open>
  The fields of \<^verbatim>\<open>backupUpload\<close> and \<^verbatim>\<open>backupDownload\<close> other than the logger and the
  client; \<open>b_clock\<close> is what \<^verbatim>\<open>b.clock.Now().UTC()\<close> returns.
\<close>

record component =
  b_namespace :: string
  b_clock :: Time
  b_values :: Values
  waitInterval :: int
  waitSevereThreshold :: int
  waitTimeout :: int

definition emptyBackupUpload :: "component \<Rightarrow> Object" where
  "emptyBackupUpload b =
     (zeroObject BackupUploadResource)\<lparr>Name := v_Name (b_values b), Namespace := b_namespace b\<rparr>"

definition emptyBackupDownload :: "component \<Rightarrow> Object" where
  "emptyBackupDownload b =
     (zeroObject BackupDownloadResource)\<lparr>Name := v_Name (b_values b), Namespace := b_namespace b\<rparr>"

definition backupUpload_mutate :: "component \<Rightarrow> Object \<Rightarrow> Object" where
  "backupUpload_mutate b upload =
     (SetMetaDataAnnotation
        (SetMetaDataAnnotation upload GardenerOperation GardenerOperationReconcile)
        GardenerTimestamp (Format_RFC3339Nano (b_clock b)))
       \<lparr>spec_Type := v_Type (b_values b), spec_Purpose := None,
        spec_EntryName := v_EntryName (b_values b), spec_FilePath := v_FilePath (b_values b),
        spec_Data := v_Data (b_values b)\<rparr>"

definition backupUpload_Deploy :: "'w API \<Rightarrow> component \<Rightarrow> 'w \<Rightarrow> error option \<times> Object \<times> 'w" where
  "backupUpload_Deploy c b st =
     GetAndCreateOrMergePatch c (emptyBackupUpload b) (backupUpload_mutate b) st"

text \<open>\<^verbatim>\<open>BackupDownloadSpec\<close> has no data field: the spec of the relay object carries none.\<close>

definition backupDownload_mutate :: "component \<Rightarrow> Object \<Rightarrow> Object" where
  "backupDownload_mutate b download =
     (SetMetaDataAnnotation
        (SetMetaDataAnnotation download GardenerOperation GardenerOperationReconcile)
        GardenerTimestamp (Format_RFC3339Nano (b_clock b)))
       \<lparr>spec_Type := v_Type (b_values b), spec_Purpose := None,
        spec_EntryName := v_EntryName (b_values b), spec_FilePath := v_FilePath (b_values b),
        spec_Data := []\<rparr>"

definition backupDownload_Deploy :: "'w API \<Rightarrow> component \<Rightarrow> 'w \<Rightarrow> error option \<times> Object \<times> 'w" where
  "backupDownload_Deploy c b st =
     GetAndCreateOrMergePatch c (emptyBackupDownload b) (backupDownload_mutate b) st"

section \<open>The ShootState and its lists\<close>

record ExtensionResourceState =
  ers_Kind :: string
  ers_Name :: "string option"
  ers_Purpose :: "string option"
  ers_State :: "bytes option"
  ers_Resources :: "NamedResourceReference list"

record ResourceData =
  rd_Ref :: CrossVersionObjectReference
  rd_Data :: bytes

record GardenerResourceData =
  grd_Name :: string
  grd_Type :: string
  grd_Data :: bytes
  grd_Labels :: "(string \<times> string) list"

text \<open>
  A \<^verbatim>\<open>nil\<close> list and an empty list are the same list here: the functions below treat a
  \<^verbatim>\<open>nil\<close> list like one in which nothing is found.
\<close>

record ShootStateSpec =
  Gardener :: "GardenerResourceData list"
  Extensions :: "ExtensionResourceState list"
  Resources :: "ResourceData list"

text \<open>
  Modelled from the spec: the helper lists \<^verbatim>\<open>GardenerResourceDataList\<close>,
  \<^verbatim>\<open>ExtensionResourceStateList\<close> and \<^verbatim>\<open>ResourceDataList\<close> with their \<^verbatim>\<open>Get\<close> and
  \<^verbatim>\<open>Upsert\<close> are not among the sources. The spec describes them as "an ordered mapping keyed
  by composite identity with last-write-wins replacement, not a raw append-only list": an
  upsert replaces the entry that has the identity of the new one where it stands, and appends
  the new entry when there is none; a lookup returns the entry with the identity asked for.
\<close>

fun upsertBy :: "('a \<Rightarrow> 'k) \<Rightarrow> 'a \<Rightarrow> 'a list \<Rightarrow> 'a list" where
  "upsertBy ident x [] = [x]"
| "upsertBy ident x (y # ys) = (if ident y = ident x then x # ys else y # upsertBy ident x ys)"

definition getBy :: "('a \<Rightarrow> 'k) \<Rightarrow> 'k \<Rightarrow> 'a list \<Rightarrow> 'a option" where
  "getBy ident k xs = find (\<lambda>y. ident y = k) xs"

definition ers_identity :: "ExtensionResourceState \<Rightarrow> string \<times> string option \<times> string option" where
  "ers_identity e = (ers_Kind e, ers_Name e, ers_Purpose e)"

definition ExtensionResourceStateList_Get ::
  "ExtensionResourceState list \<Rightarrow> string \<Rightarrow> string option \<Rightarrow> string option
    \<Rightarrow> ExtensionResourceState option" where
  "ExtensionResourceStateList_Get list kind name purpose =
     getBy ers_identity (kind, name, purpose) list"

definition ExtensionResourceStateList_Upsert ::
  "ExtensionResourceState \<Rightarrow> ExtensionResourceState list \<Rightarrow> ExtensionResourceState list" where
  "ExtensionResourceStateList_Upsert e list = upsertBy ers_identity e list"

definition ResourceDataList_Get ::
  "ResourceData list \<Rightarrow> CrossVersionObjectReference \<Rightarrow> ResourceData option" where
  "ResourceDataList_Get list ref = getBy rd_Ref ref list"

definition ResourceDataList_Upsert :: "ResourceData \<Rightarrow> ResourceData list \<Rightarrow> ResourceData list" where
  "ResourceDataList_Upsert r list = upsertBy rd_Ref r list"

definition GardenerResourceDataList_Upsert ::
  "GardenerResourceData \<Rightarrow> GardenerResourceData list \<Rightarrow> GardenerResourceData list" where
  "GardenerResourceDataList_Upsert g list = upsertBy grd_Name g list"

section \<open>Restoring the state of an extension object\<close>

text \<open>
  The second loop of \<^verbatim>\<open>RestoreExtensionObjectState\<close>, over the resource references of the
  restored state. \<open>toUnstructured\<close> is \<^verbatim>\<open>runtime.DefaultUnstructuredConverter.ToUnstructured\<close>.
\<close>

fun restoreResources ::
  "'w API \<Rightarrow> (bytes \<Rightarrow> error + bytes) \<Rightarrow> ResourceData list \<Rightarrow> string
    \<Rightarrow> CrossVersionObjectReference list \<Rightarrow> 'w \<Rightarrow> error option \<times> 'w" where
  "restoreResources c toUnstructured list namespace [] st = (None, st)"
| "restoreResources c toUnstructured list namespace (resourceRef # refs) st =
     (case ResourceDataList_Get list resourceRef of
        None \<Rightarrow> restoreResources c toUnstructured list namespace refs st
      | Some resourceData \<Rightarrow>
          (case toUnstructured (rd_Data resourceData) of
             Inl err \<Rightarrow> (Some err, st)
           | Inr content \<Rightarrow>
               (case api_CreateOrUpdateObjectByRef c resourceRef namespace content st of
                  (Some err, st') \<Rightarrow> (Some err, st')
                | (None, st') \<Rightarrow> restoreResources c toUnstructured list namespace refs st')))"

definition RestoreExtensionObjectState ::
  "'w API \<Rightarrow> (bytes \<Rightarrow> error + bytes) \<Rightarrow> ShootStateSpec \<Rightarrow> Object \<Rightarrow> string \<Rightarrow> 'w
    \<Rightarrow> error option \<times> Object \<times> 'w" where
  "RestoreExtensionObjectState c toUnstructured shootState extensionObj kind st =
     (case ExtensionResourceStateList_Get (Extensions shootState) kind (Some (Name extensionObj))
             (spec_Purpose extensionObj) of
        None \<Rightarrow>
          (case restoreResources c toUnstructured (Resources shootState)
                  (Namespace extensionObj) [] st of
             (err, st') \<Rightarrow> (err, extensionObj, st'))
      | Some extensionResourceState \<Rightarrow>
          (let modified = extensionObj\<lparr>status_State := ers_State extensionResourceState,
                                        status_Resources := ers_Resources extensionResourceState\<rparr>
           in case api_StatusPatch c modified extensionObj st of
                (Inl err, st') \<Rightarrow> (Some err, modified, st')
              | (Inr stored, st') \<Rightarrow>
                  (case restoreResources c toUnstructured (Resources shootState)
                          (Namespace stored)
                          (map nr_ResourceRef (ers_Resources extensionResourceState)) st' of
                     (err, st'') \<Rightarrow> (err, stored, st''))))"

definition RestoreExtensionWithDeployFunction ::
  "'w API \<Rightarrow> Time \<Rightarrow> (bytes \<Rightarrow> error + bytes) \<Rightarrow> ShootStateSpec \<Rightarrow> string
    \<Rightarrow> (string \<Rightarrow> 'w \<Rightarrow> (error + Object) \<times> 'w) \<Rightarrow> 'w \<Rightarrow> error option \<times> 'w" where
  "RestoreExtensionWithDeployFunction c now toUnstructured shootState kind deployFunc st =
     (case deployFunc GardenerOperationWaitForState st of
        (Inl err, st1) \<Rightarrow> (Some err, st1)
      | (Inr extensionObj, st1) \<Rightarrow>
          (case RestoreExtensionObjectState c toUnstructured shootState extensionObj kind st1 of
             (Some err, ob, st2) \<Rightarrow> (Some err, st2)
           | (None, ob, st2) \<Rightarrow>
               (case AnnotateObjectWithOperation c now ob GardenerOperationRestore st2 of
                  (err, ob', st3) \<Rightarrow> (err, st3))))"

section \<open>Computing the ShootState for the backup upload\<close>

text \<open>
  What the seed client returns is given: the listed secrets or the error of the list call,
  for each kind the listed extension objects or an error, and for each resource reference
  the referenced object or an error. \<open>marshal\<close> is \<^verbatim>\<open>json.Marshal\<close> on the data of a secret and
  \<open>fromUnstructured\<close> is \<^verbatim>\<open>runtime.DefaultUnstructuredConverter.FromUnstructured\<close>. An error
  wrapped with \<^verbatim>\<open>%w\<close> is the plain error with the combined message.
\<close>

record Secret =
  sec_Name :: string
  sec_Namespace :: string
  sec_Labels :: "(string \<times> string) list"
  sec_Data :: "(string \<times> bytes) list"

fun gardenerDataLoop ::
  "((string \<times> bytes) list \<Rightarrow> error + bytes) \<Rightarrow> Secret list \<Rightarrow> GardenerResourceData list
    \<Rightarrow> error + GardenerResourceData list" where
  "gardenerDataLoop marshal [] dataList = Inr dataList"
| "gardenerDataLoop marshal (secret # secrets) dataList =
     (case marshal (sec_Data secret) of
        Inl err \<Rightarrow>
          Inl (Plain (''failed marshalling secret data to JSON for secret ''
                      @ sec_Namespace secret @ ''/'' @ sec_Name secret @ '': '' @ Error err))
      | Inr dataJSON \<Rightarrow>
          gardenerDataLoop marshal secrets
            (GardenerResourceDataList_Upsert
               \<lparr>grd_Name = sec_Name secret, grd_Type = ''secret'', grd_Data = dataJSON,
                grd_Labels = sec_Labels secret\<rparr> dataList))"

definition computeShootStateGardenerData ::
  "(error + Secret list) \<Rightarrow> ((string \<times> bytes) list \<Rightarrow> error + bytes)
    \<Rightarrow> error + GardenerResourceData list" where
  "computeShootStateGardenerData listSecrets marshal =
     (case listSecrets of
        Inl err \<Rightarrow>
          Inl (Plain (''failed listing all secrets that must be persisted: '' @ Error err))
      | Inr items \<Rightarrow> gardenerDataLoop marshal items [])"

text \<open>The inner loop over the resources that an extension object's status names.\<close>

fun resourcesLoop ::
  "(CrossVersionObjectReference \<Rightarrow> error + bytes) \<Rightarrow> (bytes \<Rightarrow> error + bytes) \<Rightarrow> string
    \<Rightarrow> NamedResourceReference list \<Rightarrow> ResourceData list \<Rightarrow> error + ResourceData list" where
  "resourcesLoop getObjectByRef fromUnstructured seedNamespace [] resources = Inr resources"
| "resourcesLoop getObjectByRef fromUnstructured seedNamespace (newResource # rest) resources =
     (case getObjectByRef (nr_ResourceRef newResource) of
        Inl err \<Rightarrow>
          Inl (Plain (''failed reading referenced object '' @ seedNamespace @ ''/''
                      @ ref_Name (nr_ResourceRef newResource) @ '': '' @ Error err))
      | Inr referencedObj \<Rightarrow>
          (case fromUnstructured referencedObj of
             Inl err \<Rightarrow>
               Inl (Plain (''failed converting referenced object '' @ seedNamespace @ ''/''
                           @ ref_Name (nr_ResourceRef newResource) @ '' to raw extension: ''
                           @ Error err))
           | Inr raw \<Rightarrow>
               resourcesLoop getObjectByRef fromUnstructured seedNamespace rest
                 (ResourceDataList_Upsert
                    \<lparr>rd_Ref = nr_ResourceRef newResource, rd_Data = raw\<rparr> resources)))"

text \<open>\<^verbatim>\<open>meta.EachListItem\<close> with the function literal of the source as its body.\<close>

fun eachListItem ::
  "(CrossVersionObjectReference \<Rightarrow> error + bytes) \<Rightarrow> (bytes \<Rightarrow> error + bytes) \<Rightarrow> string
    \<Rightarrow> string \<Rightarrow> Object list \<Rightarrow> ExtensionResourceState list \<times> ResourceData list
    \<Rightarrow> error + ExtensionResourceState list \<times> ResourceData list" where
  "eachListItem getObjectByRef fromUnstructured seedNamespace objKind [] acc = Inr acc"
| "eachListItem getObjectByRef fromUnstructured seedNamespace objKind (extensionObj # items)
       (dataList, resources) =
     (if DeletionTimestamp extensionObj \<noteq> None
      then eachListItem getObjectByRef fromUnstructured seedNamespace objKind items
             (dataList, resources)
      else
        (let dataList' =
               ExtensionResourceStateList_Upsert
                 \<lparr>ers_Kind = objKind, ers_Name = Some (Name extensionObj),
                  ers_Purpose = spec_Purpose extensionObj,
                  ers_State = status_State extensionObj,
                  ers_Resources = status_Resources extensionObj\<rparr> dataList in
         case resourcesLoop getObjectByRef fromUnstructured seedNamespace
                (status_Resources extensionObj) resources of
           Inl err \<Rightarrow> Inl err
         | Inr resources' \<Rightarrow>
             eachListItem getObjectByRef fromUnstructured seedNamespace objKind items
               (dataList', resources')))"

text \<open>
  The outer loop ranges over a Go map from the nine extension kinds to their list types, so
  the order of the kinds is not fixed: it is the argument \<open>kinds\<close>.
\<close>

definition extensionKinds :: "string list" where
  "extensionKinds =
     [''BackupEntry'', ''ContainerRuntime'', ''ControlPlane'', ''DNSRecord'', ''Extension'',
      ''Infrastructure'', ''Network'', ''OperatingSystemConfig'', ''Worker'']"

fun kindsLoop ::
  "(string \<Rightarrow> error + Object list) \<Rightarrow> (CrossVersionObjectReference \<Rightarrow> error + bytes)
    \<Rightarrow> (bytes \<Rightarrow> error + bytes) \<Rightarrow> string \<Rightarrow> string list
    \<Rightarrow> ExtensionResourceState list \<times> ResourceData list
    \<Rightarrow> error + ExtensionResourceState list \<times> ResourceData list" where
  "kindsLoop listKind getObjectByRef fromUnstructured seedNamespace [] acc = Inr acc"
| "kindsLoop listKind getObjectByRef fromUnstructured seedNamespace (objKind # kinds) acc =
     (case listKind objKind of
        Inl err \<Rightarrow>
          Inl (Plain (''failed to list extension resources of kind '' @ objKind @ '': ''
                      @ Error err))
      | Inr objList \<Rightarrow>
          (case eachListItem getObjectByRef fromUnstructured seedNamespace objKind objList acc of
             Inl err \<Rightarrow>
               Inl (Plain (''failed computing extension data for kind '' @ objKind @ '': ''
                           @ Error err))
           | Inr acc' \<Rightarrow>
               kindsLoop listKind getObjectByRef fromUnstructured seedNamespace kinds acc'))"

definition computeShootStateExtensionsDataAndResources ::
  "(string \<Rightarrow> error + Object list) \<Rightarrow> (CrossVersionObjectReference \<Rightarrow> error + bytes)
    \<Rightarrow> (bytes \<Rightarrow> error + bytes) \<Rightarrow> string \<Rightarrow> string list
    \<Rightarrow> error + ExtensionResourceState list \<times> ResourceData list" where
  "computeShootStateExtensionsDataAndResources listKind getObjectByRef fromUnstructured
       seedNamespace kinds =
     kindsLoop listKind getObjectByRef fromUnstructured seedNamespace kinds ([], [])"

definition computeShootStateSpecForBackupUpload ::
  "(error + Secret list) \<Rightarrow> ((string \<times> bytes) list \<Rightarrow> error + bytes)
    \<Rightarrow> (string \<Rightarrow> error + Object list) \<Rightarrow> (CrossVersionObjectReference \<Rightarrow> error + bytes)
    \<Rightarrow> (bytes \<Rightarrow> error + bytes) \<Rightarrow> string \<Rightarrow> string list \<Rightarrow> error + ShootStateSpec" where
  "computeShootStateSpecForBackupUpload listSecrets marshal listKind getObjectByRef
       fromUnstructured seedNamespace kinds =
     (case computeShootStateGardenerData listSecrets marshal of
        Inl err \<Rightarrow> Inl (Plain (''failed computing Gardener data: '' @ Error err))
      | Inr gardener \<Rightarrow>
          (case computeShootStateExtensionsDataAndResources listKind getObjectByRef
                  fromUnstructured seedNamespace kinds of
             Inl err \<Rightarrow>
               Inl (Plain (''failed computing extensions data and resources: '' @ Error err))
           | Inr (extensions, resources) \<Rightarrow>
               Inr \<lparr>Gardener = gardener, Extensions = extensions, Resources = resources\<rparr>))"

text \<open>
  The identities under which the extension objects listed for \<open>kinds\<close> enter the list of
  extension states: those of the objects without deletion timestamp.
\<close>

definition liveIdentities ::
  "(string \<Rightarrow> error + Object list) \<Rightarrow> string list
    \<Rightarrow> (string \<times> string option \<times> string option) set" where
  "liveIdentities listKind kinds =
     {(k, Some (Name ob), spec_Purpose ob) | k ob items.
        k \<in> set kinds \<and> listKind k = Inr items \<and> ob \<in> set items
        \<and> DeletionTimestamp ob = None}"

text \<open>
  The extension state that an extension object of kind \<open>objKind\<close> is projected to, the
  projections of the listed objects without deletion timestamp in the order in which the
  loops visit them, and the last of a list of entries that has a given identity.
\<close>

definition ers_of :: "string \<Rightarrow> Object \<Rightarrow> ExtensionResourceState" where
  "ers_of objKind extensionObj =
     \<lparr>ers_Kind = objKind, ers_Name = Some (Name extensionObj),
      ers_Purpose = spec_Purpose extensionObj, ers_State = status_State extensionObj,
      ers_Resources = status_Resources extensionObj\<rparr>"

definition liveOf :: "string \<Rightarrow> Object list \<Rightarrow> ExtensionResourceState list" where
  "liveOf objKind items = map (ers_of objKind) (filter (\<lambda>ob. DeletionTimestamp ob = None) items)"

definition liveListed :: "(string \<Rightarrow> error + Object list) \<Rightarrow> string list \<Rightarrow> ExtensionResourceState list" where
  "liveListed listKind kinds =
     concat (map (\<lambda>k. case listKind k of Inl err \<Rightarrow> [] | Inr items \<Rightarrow> liveOf k items) kinds)"

definition lastWith :: "('a \<Rightarrow> 'k) \<Rightarrow> 'k \<Rightarrow> 'a list \<Rightarrow> 'a option" where
  "lastWith ident k entries = last_opt (filter (\<lambda>e. ident e = k) entries)"

text \<open>The object references that a list of extension states names.\<close>

definition liveRefs :: "ExtensionResourceState list \<Rightarrow> CrossVersionObjectReference set" where
  "liveRefs entries = (\<Union>e \<in> set entries. nr_ResourceRef ` set (ers_Resources e))"

section \<open>Encrypting and decrypting the ShootState\<close>

text \<open>
  The standard library is given: \<open>aes key block\<close> is what the AES block cipher for \<open>key\<close>
  writes for a 16-byte block, and \<open>rnd\<close> is what \<^verbatim>\<open>rand.Reader\<close> delivers (an error, or the
  bytes it can deliver). \<^verbatim>\<open>aes.NewCipher\<close> accepts keys of 16, 24 or 32 bytes;
  \<^verbatim>\<open>io.ReadFull\<close> returns exactly the bytes asked for or an error.
\<close>

definition BlockSize :: nat where
  "BlockSize = 16"

definition NewCipher :: "bytes \<Rightarrow> error option" where
  "NewCipher key =
     (if length key = 16 \<or> length key = 24 \<or> length key = 32 then None
      else Some (Plain ''crypto/aes: invalid key size''))"

definition ReadFull :: "(error + bytes) \<Rightarrow> nat \<Rightarrow> error + bytes" where
  "ReadFull rnd n =
     (case rnd of
        Inl err \<Rightarrow> Inl err
      | Inr bs \<Rightarrow> (if length bs < n then Inl (Plain ''unexpected EOF'') else Inr (take n bs)))"

text \<open>
  \<^verbatim>\<open>cipher.NewCFBEncrypter(block, iv)\<close> and \<^verbatim>\<open>cipher.NewCFBDecrypter(block, iv)\<close> followed by
  one call of \<^verbatim>\<open>XORKeyStream\<close>: every chunk of at most 16 bytes is combined with the
  encryption of the previous ciphertext chunk, the first with that of the IV.
\<close>

function cfbEncrypt :: "(bytes \<Rightarrow> bytes) \<Rightarrow> bytes \<Rightarrow> bytes \<Rightarrow> bytes" where
  "cfbEncrypt E prev src =
     (if src = [] then []
      else (let c = map2 (XOR) (take BlockSize src) (E prev)
            in c @ cfbEncrypt E c (drop BlockSize src)))"
  by pat_completeness auto
termination
  by (relation "measure (\<lambda>(E, prev, src). length src)") (auto simp: BlockSize_def)

function cfbDecrypt :: "(bytes \<Rightarrow> bytes) \<Rightarrow> bytes \<Rightarrow> bytes \<Rightarrow> bytes" where
  "cfbDecrypt E prev src =
     (if src = [] then []
      else map2 (XOR) (take BlockSize src) (E prev)
           @ cfbDecrypt E (take BlockSize src) (drop BlockSize src))"
  by pat_completeness auto
termination
  by (relation "measure (\<lambda>(E, prev, src). length src)") (auto simp: BlockSize_def)

declare cfbEncrypt.simps [simp del] cfbDecrypt.simps [simp del]

definition encrypt ::
  "(bytes \<Rightarrow> bytes \<Rightarrow> bytes) \<Rightarrow> (error + bytes) \<Rightarrow> bytes \<Rightarrow> bytes \<Rightarrow> error + bytes" where
  "encrypt aes rnd key data =
     (case NewCipher key of
        Some err \<Rightarrow> Inl err
      | None \<Rightarrow>
          (case ReadFull rnd BlockSize of
             Inl err \<Rightarrow> Inl err
           | Inr iv \<Rightarrow> Inr (iv @ cfbEncrypt (aes key) iv data)))"

definition decrypt :: "(bytes \<Rightarrow> bytes \<Rightarrow> bytes) \<Rightarrow> bytes \<Rightarrow> bytes \<Rightarrow> error + bytes" where
  "decrypt aes key data =
     (case NewCipher key of
        Some err \<Rightarrow> Inl err
      | None \<Rightarrow>
          (if length data < BlockSize then Inl (Plain ''Ciphertext block size is too short!'')
           else Inr (cfbDecrypt (aes key) (take BlockSize data) (drop BlockSize data))))"

definition byte_of_char :: "char \<Rightarrow> 8 word" where
  "byte_of_char c = of_nat (of_char c)"

definition cipherKey :: bytes where
  "cipherKey = map byte_of_char ''asuperstrong32bitpasswordgohere!''"

text \<open>A stand-in for the block cipher in examples: it rotates the block and flips bits.\<close>

definition ex_block :: "bytes \<Rightarrow> bytes \<Rightarrow> bytes" where
  "ex_block key block =
     map (\<lambda>b. b XOR 0x5A) (take BlockSize (rotate1 block @ replicate BlockSize 0))"

section \<open>Deploy-waiters and the download of the ShootState backup\<close>

text \<open>
  An operation of a component runs on a world \<open>'w\<close>: it returns an error or \<^verbatim>\<open>nil\<close> and the
  world it leaves, it panics, or it does not return (\<open>None\<close>). \<^verbatim>\<open>component.DeployWaiter\<close> is
  the interface of the four operations.
\<close>

type_synonym 'w operation = "'w \<Rightarrow> (error option outcome \<times> 'w) option"

record 'w DeployWaiter =
  dw_Deploy :: "'w operation"
  dw_Wait :: "'w operation"
  dw_Destroy :: "'w operation"
  dw_WaitCleanup :: "'w operation"

text \<open>\<^verbatim>\<open>if err := a; err != nil { return err }; b\<close>\<close>

definition andThen :: "'w operation \<Rightarrow> 'w operation \<Rightarrow> 'w operation" where
  "andThen a b w =
     (case a w of
        None \<Rightarrow> None
      | Some (Panics, w') \<Rightarrow> Some (Panics, w')
      | Some (Returns (Some err), w') \<Rightarrow> Some (Returns (Some err), w')
      | Some (Returns None, w') \<Rightarrow> b w')"

text \<open>
  Modelled from the spec: the package \<^verbatim>\<open>component\<close> with \<^verbatim>\<open>OpWait\<close> and
  \<^verbatim>\<open>OpDestroyAndWait\<close> is not among the sources. The spec's drivers call "Deploy ... with
  Wait-for-ready" and "Destroy \<rightarrow> WaitCleanup": \<^verbatim>\<open>OpWait(d).Deploy\<close> deploys and then waits,
  \<^verbatim>\<open>OpDestroyAndWait(d).Destroy\<close> destroys and then waits for the cleanup.
\<close>

definition OpWait_Deploy :: "'w DeployWaiter \<Rightarrow> 'w operation" where
  "OpWait_Deploy d = andThen (dw_Deploy d) (dw_Wait d)"

definition OpDestroyAndWait_Destroy :: "'w DeployWaiter \<Rightarrow> 'w operation" where
  "OpDestroyAndWait_Destroy d = andThen (dw_Destroy d) (dw_WaitCleanup d)"

text \<open>
  \<^verbatim>\<open>loadShootState\<close>: \<open>unmarshal\<close> is \<^verbatim>\<open>json.Unmarshal\<close> into a ShootState, and
  \<open>setShootState\<close> is \<^verbatim>\<open>b.Shoot.SetShootState\<close>.
\<close>

definition loadShootState ::
  "(bytes \<Rightarrow> bytes \<Rightarrow> bytes) \<Rightarrow> (bytes \<Rightarrow> error + ShootStateSpec)
    \<Rightarrow> (ShootStateSpec \<Rightarrow> 'w \<Rightarrow> 'w) \<Rightarrow> bytes \<Rightarrow> 'w operation" where
  "loadShootState aes unmarshal setShootState data w =
     (case decrypt aes cipherKey data of
        Inl err \<Rightarrow> Some (Returns (Some (Plain (''failed decrypting ShootState: '' @ Error err))), w)
      | Inr raw \<Rightarrow>
          (case unmarshal raw of
             Inl err \<Rightarrow>
               Some (Returns (Some (Plain (''failed unmarshaling raw ShootState: '' @ Error err))),
                     w)
           | Inr shootState \<Rightarrow> Some (Returns None, setShootState shootState w)))"

text \<open>
  \<^verbatim>\<open>DownloadShootStateBackup\<close>. \<open>backup\<close> is the provider of the seed's backup configuration,
  if the seed has one; \<open>New\<close> is \<^verbatim>\<open>backupdownload.New\<close> applied to the logger and the seed
  client; \<open>now\<close> is the time the real clock shows. The driver calls \<^verbatim>\<open>GetData\<close> on the
  deployer, but the deployer that \<^verbatim>\<open>New\<close> returns has the four operations above and no
  such method in the sources: what the call returns is the argument \<open>GetData\<close>, given the
  fields of the deployer and the world.
\<close>

definition shootStateValues :: "string \<Rightarrow> string \<Rightarrow> Values" where
  "shootStateValues provider backupEntryName =
     \<lparr>v_Name = ''shootstate'', v_Type = provider, v_EntryName = backupEntryName,
      v_FilePath = ''shootstate'', v_Data = []\<rparr>"

definition DownloadShootStateBackup ::
  "string option \<Rightarrow> string \<Rightarrow> string \<Rightarrow> Time \<Rightarrow> (component \<Rightarrow> 'w DeployWaiter)
    \<Rightarrow> (component \<Rightarrow> 'w \<Rightarrow> bytes \<times> 'w) \<Rightarrow> (bytes \<Rightarrow> 'w operation) \<Rightarrow> 'w operation" where
  "DownloadShootStateBackup backup backupEntryName seedNamespace now New GetData load w =
     (case backup of
        None \<Rightarrow>
          Some (Returns (Some (Plain (''cannot deploy BackupDownload for Shoot state since ''
                                      @ ''Seed is not configured with backup''))), w)
      | Some provider \<Rightarrow>
          (let fields = \<lparr>b_namespace = seedNamespace, b_clock = now,
                         b_values = shootStateValues provider backupEntryName,
                         waitInterval = DefaultInterval,
                         waitSevereThreshold = DefaultSevereThreshold,
                         waitTimeout = DefaultTimeout\<rparr>;
               deployer = New fields in
           andThen (OpDestroyAndWait_Destroy deployer)
             (andThen (OpWait_Deploy deployer)
                (andThen (\<lambda>w1. case GetData fields w1 of (data, w2) \<Rightarrow> load data w2)
                   (OpDestroyAndWait_Destroy deployer))) w))"

subsection \<open>Recording the calls\<close>

text \<open>
  To observe the order of the calls, every operation of a deployer and the loading of the
  ShootState are wrapped so that they append to a trace the call and the world it leaves.
\<close>

datatype event = EvDeploy | EvWait | EvDestroy | EvWaitCleanup | EvGetData bytes | EvLoad bytes

type_synonym 'w trace = "(event \<times> 'w) list"

definition recordOp :: "event \<Rightarrow> 'w operation \<Rightarrow> ('w \<times> 'w trace) operation" where
  "recordOp ev f wt =
     (case f (fst wt) of
        None \<Rightarrow> None
      | Some (out, w') \<Rightarrow> Some (out, (w', snd wt @ [(ev, w')])))"

definition recorded :: "'w DeployWaiter \<Rightarrow> ('w \<times> 'w trace) DeployWaiter" where
  "recorded d =
     \<lparr>dw_Deploy = recordOp EvDeploy (dw_Deploy d),
      dw_Wait = recordOp EvWait (dw_Wait d),
      dw_Destroy = recordOp EvDestroy (dw_Destroy d),
      dw_WaitCleanup = recordOp EvWaitCleanup (dw_WaitCleanup d)\<rparr>"

definition recordedGetData ::
  "('w \<Rightarrow> bytes \<times> 'w) \<Rightarrow> 'w \<times> 'w trace \<Rightarrow> bytes \<times> 'w \<times> 'w trace" where
  "recordedGetData get wt =
     (case get (fst wt) of
        (data, w') \<Rightarrow> (data, (w', snd wt @ [(EvGetData data, w')])))"

definition recordedLoad :: "(bytes \<Rightarrow> 'w operation) \<Rightarrow> bytes \<Rightarrow> ('w \<times> 'w trace) operation" where
  "recordedLoad load data = recordOp (EvLoad data) (load data)"

subsection \<open>The BackupDownload component on the API server in memory\<close>

text \<open>
  The world of the component: the API server and the loaded ShootState. Between two polls of
  a wait the other clients of the API server act: the extension controller reconciles,
  objects under deletion disappear. \<open>env\<close> is what they do to the store before each poll.
\<close>

record World =
  w_store :: Store
  w_shootState :: "ShootStateSpec option"

definition clientOf :: "string list \<Rightarrow> (Store \<Rightarrow> Store) \<Rightarrow> string \<Rightarrow> Store \<Rightarrow> Client" where
  "clientOf scheme env ty st =
     \<lparr>c_Scheme = scheme,
      c_Get = (\<lambda>k key. fst (mem_Get (ty, fst key, snd key) ((env ^^ Suc k) st)))\<rparr>"

definition backupDownload_Deploy_op :: "component \<Rightarrow> World operation" where
  "backupDownload_Deploy_op b w =
     (case backupDownload_Deploy memAPI b (w_store w) of
        (err, ob, st') \<Rightarrow> Some (Returns err, w\<lparr>w_store := st'\<rparr>))"

text \<open>\<^verbatim>\<open>Destroy\<close>; \<open>now\<close> is the time that \<^verbatim>\<open>ConfirmDeletion\<close> reads.\<close>

definition backupDownload_Destroy :: "Time \<Rightarrow> component \<Rightarrow> World operation" where
  "backupDownload_Destroy now b w =
     (case DeleteExtensionObject memAPI now (emptyBackupDownload b) (w_store w) of
        (err, st') \<Rightarrow> Some (Returns err, w\<lparr>w_store := st'\<rparr>))"

text \<open>
  \<^verbatim>\<open>Wait\<close> and \<^verbatim>\<open>WaitCleanup\<close> hand a new empty object to the wait, so what the polls read is
  not kept.
\<close>

definition backupDownload_Wait ::
  "string list \<Rightarrow> (Store \<Rightarrow> Store) \<Rightarrow> component \<Rightarrow> World operation" where
  "backupDownload_Wait scheme env b w =
     (case WaitUntilExtensionObjectReady
             (clientOf scheme env BackupDownloadResource (w_store w))
             (emptyBackupDownload b) BackupDownloadResource
             (waitInterval b) (waitSevereThreshold b) (waitTimeout b) None of
        None \<Rightarrow> None
      | Some (out, vars, n) \<Rightarrow> Some (out, w\<lparr>w_store := (env ^^ n) (w_store w)\<rparr>))"

definition backupDownload_WaitCleanup ::
  "string list \<Rightarrow> (Store \<Rightarrow> Store) \<Rightarrow> component \<Rightarrow> World operation" where
  "backupDownload_WaitCleanup scheme env b w =
     (case WaitUntilExtensionObjectDeleted
             (clientOf scheme env BackupDownloadResource (w_store w))
             (emptyBackupDownload b) BackupDownloadResource
             (waitInterval b) (waitTimeout b) of
        None \<Rightarrow> None
      | Some (out, vars, n) \<Rightarrow> Some (out, w\<lparr>w_store := (env ^^ n) (w_store w)\<rparr>))"

definition backupdownload_New ::
  "string list \<Rightarrow> (Store \<Rightarrow> Store) \<Rightarrow> Time \<Rightarrow> component \<Rightarrow> World DeployWaiter" where
  "backupdownload_New scheme env now b =
     \<lparr>dw_Deploy = backupDownload_Deploy_op b,
      dw_Wait = backupDownload_Wait scheme env b,
      dw_Destroy = backupDownload_Destroy now b,
      dw_WaitCleanup = backupDownload_WaitCleanup scheme env b\<rparr>"

text \<open>
  The component holds its namespace, the clock, the values and the three durations, and no
  method of it assigns one of them: the bytes that a deployer built by \<^verbatim>\<open>New\<close> holds are
  \<^verbatim>\<open>values.Data\<close>, declared as "the data that should be downloaded".
\<close>

definition heldData :: "component \<Rightarrow> 'w \<Rightarrow> bytes \<times> 'w" where
  "heldData b w = (v_Data (b_values b), w)"

text \<open>\<^verbatim>\<open>b.Shoot.SetShootState\<close> on this world.\<close>

definition setShootState :: "ShootStateSpec \<Rightarrow> World \<Rightarrow> World" where
  "setShootState shootState w = w\<lparr>w_shootState := Some shootState\<rparr>"

text \<open>The key under which the API server files the relay object of the ShootState.\<close>

definition relayKey :: "string \<Rightarrow> ObjectKey" where
  "relayKey seedNamespace = (BackupDownloadResource, seedNamespace, ''shootstate'')"

subsection \<open>The reconciler of the BackupDownload controller\<close>




section \<open>Example inputs\<close>

text \<open>
  A Worker in namespace \<^verbatim>\<open>shoot--foo--bar\<close> that the driver annotated with a timestamp, the
  same object as the API server returns it once the extension controller has reconciled it,
  and clients whose every read returns a fixed result.
\<close>

definition ex_worker :: Object where
  "ex_worker =
     (zeroObject ''Worker'')
       \<lparr>Kind := ''Worker'', Namespace := ''shoot--foo--bar'', Name := ''worker-1'',
        Annotations := [(GardenerTimestamp, ''2023-03-01T10:00:00Z'')],
        spec_Type := ''local''\<rparr>"

definition ex_succeeded :: LastOperation where
  "ex_succeeded =
     \<lparr>lo_Type = LastOperationTypeReconcile, lo_State = LastOperationStateSucceeded,
      lo_Description = ''done''\<rparr>"

definition ex_worker_ready :: Object where
  "ex_worker_ready = ex_worker\<lparr>status_LastOperation := Some ex_succeeded\<rparr>"

definition ex_client :: "(error + Object) \<Rightarrow> Client" where
  "ex_client result = \<lparr>c_Scheme = [''Worker''], c_Get = (\<lambda>k key. result)\<rparr>"

text \<open>
  The same Worker while its extension controller reports a coded error, and a client that no
  longer finds the object.
\<close>

definition ex_quota_error :: LastError where
  "ex_quota_error =
     \<lparr>le_Description = ''quota exceeded'', le_Codes = [''ERR_INFRA_QUOTA_EXCEEDED'']\<rparr>"

definition ex_worker_failing :: Object where
  "ex_worker_failing =
     ex_worker\<lparr>status_LastOperation :=
                 Some \<lparr>lo_Type = LastOperationTypeReconcile, lo_State = LastOperationStateError,
                       lo_Description = ''failed''\<rparr>,
               status_LastError := Some ex_quota_error\<rparr>"

definition ex_gone :: "error + Object" where
  "ex_gone = Inl (NotFound ''workers.extensions.gardener.cloud \"worker-1\" not found'')"

definition ex_worker_migrating :: Object where
  "ex_worker_migrating =
     ex_worker\<lparr>status_LastOperation :=
                 Some \<lparr>lo_Type = LastOperationTypeMigrate, lo_State = LastOperationStateProcessing,
                       lo_Description = ''migrating''\<rparr>\<rparr>"

definition ex_worker_migrated :: Object where
  "ex_worker_migrated =
     ex_worker\<lparr>status_LastOperation :=
                 Some \<lparr>lo_Type = LastOperationTypeMigrate, lo_State = LastOperationStateSucceeded,
                       lo_Description = ''migrated''\<rparr>\<rparr>"

text \<open>A client whose first read returns one result and whose later reads return another.\<close>

definition ex_client_then :: "(error + Object) \<Rightarrow> (error + Object) \<Rightarrow> Client" where
  "ex_client_then first later =
     \<lparr>c_Scheme = [''Worker''], c_Get = (\<lambda>k key. if k = 0 then first else later)\<rparr>"

text \<open>
  A point in time, and a writing client whose patches succeed while the object is already
  gone when it is deleted (another client was faster).
\<close>

definition ex_now :: Time where
  "ex_now = \<lparr>year = 2023, month = 3, day = 1, hour = 10, minute = 0, second = 0,
             nanosecond = 500000000\<rparr>"

definition ex_racingAPI :: "nat API" where
  "ex_racingAPI =
     \<lparr>api_Get = (\<lambda>key st. (Inl (NotFound ''not found''), st)),
      api_Create = (\<lambda>ob st. (None, st)),
      api_Patch = (\<lambda>modified original st. (Inr modified, Suc st)),
      api_StatusPatch = (\<lambda>modified original st. (Inr modified, Suc st)),
      api_StatusUpdate = (\<lambda>ob st. (Inr ob, Suc st)),
      api_Delete = (\<lambda>ob st. (Some (NotFound ''not found''), Suc st)),
      api_CreateOrUpdateObjectByRef = (\<lambda>ref ns content st. (None, Suc st))\<rparr>"

text \<open>An API server that holds the Worker.\<close>

definition ex_store :: Store where
  "ex_store = emptyStore\<lparr>objects := (objects emptyStore)(keyOf ex_worker \<mapsto> ex_worker)\<rparr>"

text \<open>The component that \<^verbatim>\<open>DownloadShootStateBackup\<close> builds for a seed with a local backup.\<close>

definition ex_component :: component where
  "ex_component =
     \<lparr>b_namespace = ''shoot--foo--bar'', b_clock = ex_now,
      b_values = shootStateValues ''local'' ''shoot--foo--bar--uid'',
      waitInterval = DefaultInterval, waitSevereThreshold = DefaultSevereThreshold,
      waitTimeout = DefaultTimeout\<rparr>"

text \<open>
  A ShootState that holds the state of the Worker, whose one resource reference has no entry
  in the table of resource data.
\<close>

definition ex_ref :: CrossVersionObjectReference where
  "ex_ref = \<lparr>ref_Kind = ''Secret'', ref_Name = ''worker-config'', ref_APIVersion = ''v1''\<rparr>"

definition ex_worker_state :: ExtensionResourceState where
  "ex_worker_state =
     \<lparr>ers_Kind = ''Worker'', ers_Name = Some ''worker-1'', ers_Purpose = None,
      ers_State = Some [1, 2, 3],
      ers_Resources = [\<lparr>nr_Name = ''config'', nr_ResourceRef = ex_ref\<rparr>]\<rparr>"

definition ex_dangling :: ShootStateSpec where
  "ex_dangling = \<lparr>Gardener = [], Extensions = [ex_worker_state], Resources = []\<rparr>"

text \<open>Random bytes for an IV, and a plaintext of one block and a half.\<close>

definition ex_random :: bytes where
  "ex_random = [1, 2, 3, 4, 5, 6, 7, 8, 9, 10, 11, 12, 13, 14, 15, 16, 17, 18, 19, 20]"

definition ex_plaintext :: bytes where
  "ex_plaintext = map byte_of_char ''{\"kind\":\"ShootState\"}''"

text \<open>
  What a seed client lists for a snapshot: the secret \<^verbatim>\<open>ca\<close> twice with different data and
  another secret between them; for the kind Worker the Worker with one state, a Worker that
  is being deleted, and the first Worker again with another state; nothing for the other
  kinds.
\<close>

definition ex_secrets :: "Secret list" where
  "ex_secrets =
     [\<lparr>sec_Name = ''ca'', sec_Namespace = ''shoot--foo--bar'',
       sec_Labels = [(''persist'', ''true'')], sec_Data = [(''ca.crt'', [1])]\<rparr>,
      \<lparr>sec_Name = ''kubelet-key'', sec_Namespace = ''shoot--foo--bar'',
       sec_Labels = [(''persist'', ''true'')], sec_Data = [(''id_rsa'', [2])]\<rparr>,
      \<lparr>sec_Name = ''ca'', sec_Namespace = ''shoot--foo--bar'',
       sec_Labels = [(''persist'', ''true'')], sec_Data = [(''ca.crt'', [3])]\<rparr>]"

definition ex_marshal :: "(string \<times> bytes) list \<Rightarrow> error + bytes" where
  "ex_marshal data = Inr (concat (map snd data))"

definition ex_listKind :: "string \<Rightarrow> error + Object list" where
  "ex_listKind objKind =
     (if objKind = ''Worker''
      then Inr [ex_worker\<lparr>status_State := Some [1],
                          status_Resources := [\<lparr>nr_Name = ''config'', nr_ResourceRef = ex_ref\<rparr>]\<rparr>,
                ex_worker\<lparr>Name := ''worker-2'',
                          DeletionTimestamp := Some ''2023-03-01T09:00:00Z''\<rparr>,
                ex_worker\<lparr>status_State := Some [2],
                          status_Resources := [\<lparr>nr_Name = ''config'', nr_ResourceRef = ex_ref\<rparr>]\<rparr>]
      else Inr [])"

definition ex_getObjectByRef :: "CrossVersionObjectReference \<Rightarrow> error + bytes" where
  "ex_getObjectByRef ref = Inr [7, 7]"

definition ex_snapshot :: ShootStateSpec where
  "ex_snapshot =
     \<lparr>Gardener =
        [\<lparr>grd_Name = ''ca'', grd_Type = ''secret'', grd_Data = [3],
          grd_Labels = [(''persist'', ''true'')]\<rparr>,
         \<lparr>grd_Name = ''kubelet-key'', grd_Type = ''secret'', grd_Data = [2],
          grd_Labels = [(''persist'', ''true'')]\<rparr>],
      Extensions =
        [\<lparr>ers_Kind = ''Worker'', ers_Name = Some ''worker-1'', ers_Purpose = None,
          ers_State = Some [2],
          ers_Resources = [\<lparr>nr_Name = ''config'', nr_ResourceRef = ex_ref\<rparr>]\<rparr>],
      Resources = [\<lparr>rd_Ref = ex_ref, rd_Data = [7, 7]\<rparr>]\<rparr>"











section \<open>Facts about the retry loop\<close>

lemma Until_done:
  "f k s = (r, s') \<Longrightarrow> finished r = Some out
    \<Longrightarrow> Until interval deadline t k m f s = Some (out, s', Suc k)"
  by (subst Until.simps) simp

lemma Until_deadline:
  "f k s = (r, s') \<Longrightarrow> finished r = None \<Longrightarrow> deadline \<le> t + max interval 0
    \<Longrightarrow> Until interval deadline t k m f s
        = Some (Returns (Some (RetryError (minor_of r m))), s', Suc k)"
  by (subst Until.simps) simp

lemma Until_step:
  "f k s = (r, s') \<Longrightarrow> finished r = None \<Longrightarrow> \<not> deadline \<le> t + max interval 0
    \<Longrightarrow> Until interval deadline t k m f s
        = Until interval deadline (t + max interval 0) (Suc k) (minor_of r m) f s'"
  by (subst Until.simps) simp

lemma Until_last_poll:
  assumes "Until interval deadline t k m f s = Some y"
  shows "last_poll k f y"
proof (rule Until.raw_induct[where P = "\<lambda>interval deadline t k m f s y. last_poll k f y", OF _ assms],
       goal_cases)
  case (1 U interval deadline t k minorErr f s y)
  obtain r s1 where fk: "f k s = (r, s1)" by (cases "f k s")
  obtain out s' n where y: "y = (out, s', n)" by (cases y)
  show ?case
  proof (cases "finished r")
    case (Some o1)
    with 1(2) fk y have "out = o1" "s' = s1" "n = Suc k" by auto
    with fk Some y show ?thesis unfolding last_poll_def by auto
  next
    case None
    show ?thesis
    proof (cases "deadline \<le> t + max interval 0")
      case True
      with 1(2) fk None y
      have "out = Returns (Some (RetryError (minor_of r minorErr)))" "s' = s1" "n = Suc k"
        by auto
      with fk None y show ?thesis unfolding last_poll_def by auto
    next
      case False
      with 1(2) fk None
      have "U interval deadline (t + max interval 0) (Suc k) (minor_of r minorErr) f s1 = Some y"
        by auto
      from 1(1)[OF this] have "last_poll (Suc k) f y" .
      then show ?thesis unfolding last_poll_def y by (auto intro: Suc_leD)
    qed
  qed
qed

text \<open>An invariant of the captured variables, indexed by the number of polls run so far.\<close>

lemma Until_invariant:
  assumes run: "Until interval deadline t k m f s = Some (out, s', n)"
    and init: "I k s"
    and step: "\<And>k s r s1. I k s \<Longrightarrow> f k s = (r, s1) \<Longrightarrow> I (Suc k) s1"
  shows "I n s'"
proof -
  have "I k s \<longrightarrow> (\<forall>k s r s1. I k s \<longrightarrow> f k s = (r, s1) \<longrightarrow> I (Suc k) s1)
          \<longrightarrow> I (snd (snd (out, s', n))) (fst (snd (out, s', n)))"
  proof (rule Until.raw_induct[where P = "\<lambda>interval deadline t k m f s y.
             I k s \<longrightarrow> (\<forall>k s r s1. I k s \<longrightarrow> f k s = (r, s1) \<longrightarrow> I (Suc k) s1)
               \<longrightarrow> I (snd (snd y)) (fst (snd y))", OF _ run], goal_cases)
    case (1 U interval deadline t k minorErr f s y)
    obtain r s1 where fk: "f k s = (r, s1)" by (cases "f k s")
    show ?case
    proof (intro impI)
      assume Ik: "I k s" and st: "\<forall>k s r s1. I k s \<longrightarrow> f k s = (r, s1) \<longrightarrow> I (Suc k) s1"
      from Ik st fk have I1: "I (Suc k) s1" by blast
      show "I (snd (snd y)) (fst (snd y))"
      proof (cases "finished r \<noteq> None \<or> deadline \<le> t + max interval 0")
        case True
        with 1(2) fk have "snd (snd y) = Suc k" "fst (snd y) = s1" by (auto split: if_splits)
        with I1 show ?thesis by simp
      next
        case False
        with 1(2) fk
        have "U interval deadline (t + max interval 0) (Suc k) (minor_of r minorErr) f s1 = Some y"
          by auto
        from 1(1)[OF this] I1 st show ?thesis by blast
      qed
    qed
  qed
  with init step show ?thesis by auto
qed

lemma readyPoll_Ok_iff:
  assumes "readyPoll c h e kind ns nm i sT hook k s = (r, s')" "finished r = Some (Returns None)"
  shows "c_Get c k (ns, nm) = Inr (obj s') \<and> h (obj s') = None"
  using assms
  by (auto simp: readyPoll_def Let_def MinorError_def SevereError_def Ok_def MinorOrSevereError_def
           split: sum.splits option.splits if_splits)

lemma And_None_iff: "And fs ob = None \<longleftrightarrow> (\<forall>f \<in> set fs. f ob = None)"
  by (induction fs) (auto split: option.splits)

lemma CheckExtensionObject_None_iff:
  "CheckExtensionObject ob = None
    \<longleftrightarrow> (\<exists>lastOp. status_LastOperation ob = Some lastOp \<and> lo_State lastOp = LastOperationStateSucceeded)"
  by (auto simp: CheckExtensionObject_def NewErrorWithCodes_def split: option.splits)

lemma ObjectHasAnnotationWithValue_None_iff:
  "ObjectHasAnnotationWithValue key v ob = None \<longleftrightarrow> map_of (Annotations ob) key = Some v"
  by (auto simp: ObjectHasAnnotationWithValue_def split: option.splits)

lemma ready_first_poll:
  assumes scheme: "GoType ob \<in> set (c_Scheme c)"
    and get: "c_Get c 0 (Namespace ob, Name ob) = Inr fetched"
    and healthy: "h fetched = None"
    and hook: "postReadyFunc = None \<or> postReadyFunc = Some None"
  shows "\<exists>s. WaitUntilObjectReadyWithHealthFunction c h ob kind interval sT timeout postReadyFunc
              = Some (Returns None, s, 1) \<and> obj s = fetched"
proof -
  let ?vars = "\<lparr>retryCountUntilSevere = 0, lastObservedError = None, obj = ob, postReadyCalls = 0\<rparr>"
  let ?f = "readyPoll c h (zeroObject (GoType ob)) kind (Namespace ob) (Name ob) interval sT postReadyFunc"
  obtain s' where p: "?f 0 ?vars = (Returns Ok, s')" and o: "obj s' = fetched"
    using get healthy hook by (auto simp: readyPoll_def Let_def)
  have "finished (Returns Ok) = Some (Returns None)" by (simp add: Ok_def)
  from Until_done[where f = ?f and k = 0 and s = ?vars, OF p this]
  have "UntilTimeout interval timeout ?f ?vars = Some (Returns None, s', 1)"
    by (simp add: UntilTimeout_def)
  with scheme o show ?thesis
    by (simp add: WaitUntilObjectReadyWithHealthFunction_def createResetObjectFunc_def Let_def)
qed

lemma ready_nil_last:
  assumes "WaitUntilObjectReadyWithHealthFunction c h ob kind interval sT timeout postReadyFunc
             = Some (Returns None, s, n)"
  shows "1 \<le> n \<and> c_Get c (n - 1) (Namespace ob, Name ob) = Inr (obj s) \<and> h (obj s) = None"
proof -
  let ?vars = "\<lparr>retryCountUntilSevere = 0, lastObservedError = None, obj = ob, postReadyCalls = 0\<rparr>"
  let ?f = "readyPoll c h (zeroObject (GoType ob)) kind (Namespace ob) (Name ob) interval sT postReadyFunc"
  from assms have sch: "GoType ob \<in> set (c_Scheme c)"
    by (auto simp: WaitUntilObjectReadyWithHealthFunction_def createResetObjectFunc_def Let_def
             split: if_splits)
  with assms have "UntilTimeout interval timeout ?f ?vars = Some (Returns None, s, n)"
    by (auto simp: WaitUntilObjectReadyWithHealthFunction_def createResetObjectFunc_def Let_def
             split: option.splits outcome.splits)
  then have "last_poll 0 ?f (Returns None, s, n)"
    unfolding UntilTimeout_def by (rule Until_last_poll)
  then obtain k' s0 r where n: "n = Suc k'" and p: "?f k' s0 = (r, s)"
      and fin: "finished r = Some (Returns None)"
    unfolding last_poll_def by auto
  from readyPoll_Ok_iff[OF p fin] n show ?thesis by simp
qed

text \<open>
  C1. An extension object whose observed status has \<^verbatim>\<open>LastOperation.State == Succeeded\<close> and
  whose timestamp annotation equals the expected one (when the object passed by the driver
  carries a timestamp annotation) makes \<^verbatim>\<open>WaitUntilExtensionObjectReady\<close> return \<^verbatim>\<open>nil\<close> on its
  first poll, which runs at once: the first read has to return that object, the client's
  scheme has to know the object's type, and the post-ready hook, if there is one, has to
  succeed. And whenever the wait returns \<^verbatim>\<open>nil\<close> for an object that carried an expected
  timestamp, the object it read in its last poll carries the same timestamp annotation.
\<close>

theorem C1_ready_object_returns_nil_on_first_poll:
  "(GoType ob \<in> set (c_Scheme c)
      \<and> c_Get c 0 (Namespace ob, Name ob) = Inr fetched
      \<and> status_LastOperation fetched = Some lastOp
      \<and> lo_State lastOp = LastOperationStateSucceeded
      \<and> (\<forall>ts. map_of (Annotations ob) GardenerTimestamp = Some ts
            \<longrightarrow> map_of (Annotations fetched) GardenerTimestamp = Some ts)
      \<and> (postReadyFunc = None \<or> postReadyFunc = Some None)
     \<longrightarrow> (\<exists>s. WaitUntilExtensionObjectReady c ob kind interval severeThreshold timeout
                  postReadyFunc = Some (Returns None, s, 1)
              \<and> obj s = fetched))
   \<and> (WaitUntilExtensionObjectReady c ob kind interval severeThreshold timeout postReadyFunc
         = Some (Returns None, s, n)
       \<and> map_of (Annotations ob) GardenerTimestamp = Some expected
     \<longrightarrow> 1 \<le> n \<and> c_Get c (n - 1) (Namespace ob, Name ob) = Inr (obj s)
         \<and> map_of (Annotations (obj s)) GardenerTimestamp = Some expected)"
proof (intro conjI impI)
  assume a: "GoType ob \<in> set (c_Scheme c)
      \<and> c_Get c 0 (Namespace ob, Name ob) = Inr fetched
      \<and> status_LastOperation fetched = Some lastOp
      \<and> lo_State lastOp = LastOperationStateSucceeded
      \<and> (\<forall>ts. map_of (Annotations ob) GardenerTimestamp = Some ts
            \<longrightarrow> map_of (Annotations fetched) GardenerTimestamp = Some ts)
      \<and> (postReadyFunc = None \<or> postReadyFunc = Some None)"
  let ?fs = "(case map_of (Annotations ob) GardenerTimestamp of
               Some expectedTimestamp \<Rightarrow>
                 [ObjectHasAnnotationWithValue GardenerTimestamp expectedTimestamp]
             | None \<Rightarrow> []) @ [CheckExtensionObject]"
  from a have chk: "CheckExtensionObject fetched = None"
    by (simp add: CheckExtensionObject_None_iff)
  have "And ?fs fetched = None"
  proof (cases "map_of (Annotations ob) GardenerTimestamp")
    case None
    with chk show ?thesis by simp
  next
    case (Some ts)
    with a have "map_of (Annotations fetched) GardenerTimestamp = Some ts" by blast
    then have "ObjectHasAnnotationWithValue GardenerTimestamp ts fetched = None"
      by (simp add: ObjectHasAnnotationWithValue_None_iff)
    with Some chk show ?thesis by simp
  qed
  with a ready_first_poll[of ob c fetched "And ?fs" postReadyFunc kind interval severeThreshold timeout]
  show "\<exists>s. WaitUntilExtensionObjectReady c ob kind interval severeThreshold timeout
                  postReadyFunc = Some (Returns None, s, 1) \<and> obj s = fetched"
    by (simp add: WaitUntilExtensionObjectReady_def Let_def)
next
  assume b: "WaitUntilExtensionObjectReady c ob kind interval severeThreshold timeout postReadyFunc
         = Some (Returns None, s, n)
       \<and> map_of (Annotations ob) GardenerTimestamp = Some expected"
  let ?h = "And [ObjectHasAnnotationWithValue GardenerTimestamp expected, CheckExtensionObject]"
  from b have b1: "WaitUntilExtensionObjectReady c ob kind interval severeThreshold timeout
                     postReadyFunc = Some (Returns None, s, n)"
    and b2: "map_of (Annotations ob) GardenerTimestamp = Some expected" by simp_all
  from b1 have "WaitUntilObjectReadyWithHealthFunction c ?h ob kind interval severeThreshold
                 timeout postReadyFunc = Some (Returns None, s, n)"
    unfolding WaitUntilExtensionObjectReady_def Let_def b2 by simp
  from ready_nil_last[OF this]
  have l: "1 \<le> n" "c_Get c (n - 1) (Namespace ob, Name ob) = Inr (obj s)" "?h (obj s) = None"
    by auto
  from l(3)[unfolded And_None_iff]
  have "map_of (Annotations (obj s)) GardenerTimestamp = Some expected"
    by (simp add: ObjectHasAnnotationWithValue_None_iff)
  with l show "1 \<le> n" "c_Get c (n - 1) (Namespace ob, Name ob) = Inr (obj s)"
    "map_of (Annotations (obj s)) GardenerTimestamp = Some expected" by auto
qed

theorem C1_witness:
  "(\<exists>s. WaitUntilExtensionObjectReady (ex_client (Inr ex_worker_ready)) ex_worker ''Worker''
           5000000000 30000000000 600000000000 None = Some (Returns None, s, 1)
        \<and> obj s = ex_worker_ready)
   \<and> c_Get (ex_client (Inr ex_worker_ready)) 0 (Namespace ex_worker, Name ex_worker)
       = Inr ex_worker_ready
   \<and> map_of (Annotations ex_worker_ready) GardenerTimestamp = Some ''2023-03-01T10:00:00Z''"
proof -
  have run: "WaitUntilExtensionObjectReady (ex_client (Inr ex_worker_ready)) ex_worker ''Worker''
           5000000000 30000000000 600000000000 None
         = Some (Returns None,
                 \<lparr>retryCountUntilSevere = 1, lastObservedError = None, obj = ex_worker_ready,
                  postReadyCalls = 0\<rparr>, 1)"
    by code_simp
  have h: "GoType ex_worker \<in> set (c_Scheme (ex_client (Inr ex_worker_ready)))"
    "c_Get (ex_client (Inr ex_worker_ready)) 0 (Namespace ex_worker, Name ex_worker) = Inr ex_worker_ready"
    "status_LastOperation ex_worker_ready = Some ex_succeeded"
    "lo_State ex_succeeded = LastOperationStateSucceeded"
    "map_of (Annotations ex_worker) GardenerTimestamp = Some ''2023-03-01T10:00:00Z''"
    "map_of (Annotations ex_worker_ready) GardenerTimestamp = Some ''2023-03-01T10:00:00Z''"
    by (simp_all add: ex_client_def ex_worker_def ex_worker_ready_def ex_succeeded_def
          zeroObject_def GardenerTimestamp_def)
  note inst = C1_ready_object_returns_nil_on_first_poll
         [of ex_worker "ex_client (Inr ex_worker_ready)" ex_worker_ready ex_succeeded None
             "''Worker''" 5000000000 30000000000 600000000000
             "\<lparr>retryCountUntilSevere = 1, lastObservedError = None, obj = ex_worker_ready,
               postReadyCalls = 0\<rparr>" 1 "''2023-03-01T10:00:00Z''"]
  have p1: "\<exists>s. WaitUntilExtensionObjectReady (ex_client (Inr ex_worker_ready)) ex_worker ''Worker''
           5000000000 30000000000 600000000000 None = Some (Returns None, s, 1)
        \<and> obj s = ex_worker_ready"
    by (rule mp[OF conjunct1[OF inst]]) (simp add: h)
  have p2: "1 \<le> (1::nat) \<and> c_Get (ex_client (Inr ex_worker_ready)) (1 - 1)
              (Namespace ex_worker, Name ex_worker)
            = Inr (obj \<lparr>retryCountUntilSevere = 1, lastObservedError = None,
                         obj = ex_worker_ready, postReadyCalls = 0\<rparr>)
        \<and> map_of (Annotations (obj \<lparr>retryCountUntilSevere = 1, lastObservedError = None,
                         obj = ex_worker_ready, postReadyCalls = 0\<rparr>)) GardenerTimestamp
            = Some ''2023-03-01T10:00:00Z''"
    by (rule mp[OF conjunct2[OF inst]]) (simp add: run h)
  from p1 p2 show ?thesis by simp
qed

lemma quo64_nonneg: "0 < b \<Longrightarrow> 0 \<le> a \<Longrightarrow> quo64 a b = a div b"
  by (simp add: quo64_def signed_divide_int_def sgn_if)

lemma readyPoll_coded:
  assumes "c_Get c k (ns, nm) = Inr fetched" "h fetched = Some e" "As_ErrorWithCodes e"
    "interval \<noteq> 0"
  shows "readyPoll c h em kind ns nm interval sT hook k s
           = (Returns (MinorOrSevereError (retryCountUntilSevere s + 1) (quo64 sT interval) e),
              s\<lparr>retryCountUntilSevere := retryCountUntilSevere s + 1, obj := fetched,
                lastObservedError := Some e\<rparr>)"
  using assms by (simp add: readyPoll_def Let_def)

lemma readyPoll_uncoded:
  assumes "c_Get c k (ns, nm) = Inr fetched" "h fetched = Some e" "\<not> As_ErrorWithCodes e"
  shows "readyPoll c h em kind ns nm interval sT hook k s
           = (Returns (MinorError e),
              s\<lparr>retryCountUntilSevere := retryCountUntilSevere s + 1, obj := fetched,
                lastObservedError := Some e\<rparr>)"
  using assms by (simp add: readyPoll_def Let_def)

lemma coded_run:
  fixes interval sT timeout :: int
  assumes pos: "0 < interval" and nn: "0 \<le> sT" and lt: "sT < timeout"
    and A: "\<forall>k. \<exists>fetched e. c_Get c k (ns, nm) = Inr fetched \<and> h fetched = Some e
                  \<and> As_ErrorWithCodes e"
  shows "retryCountUntilSevere s = int k \<Longrightarrow> int k \<le> sT div interval \<Longrightarrow> t = int k * interval
    \<Longrightarrow> \<exists>e s'. Until interval timeout t k m (readyPoll c h em kind ns nm interval sT hook) s
                = Some (Returns (Some e), s', nat (sT div interval) + 1)
             \<and> lastObservedError s' = Some e"
proof (induction "nat (sT div interval) - k" arbitrary: k s t m)
  case 0
  let ?f = "readyPoll c h em kind ns nm interval sT hook"
  from 0 have k: "int k = sT div interval" by linarith
  from A obtain fetched e where g: "c_Get c k (ns, nm) = Inr fetched" "h fetched = Some e"
    "As_ErrorWithCodes e" by blast
  from pos have "interval \<noteq> 0" by simp
  note p = readyPoll_coded[where h = h and em = em and kind = kind and sT = sT and hook = hook and s = s, OF g this]
  have sev: "MinorOrSevereError (retryCountUntilSevere s + 1) (quo64 sT interval) e = SevereError e"
    using 0 k pos nn by (simp add: MinorOrSevereError_def quo64_nonneg)
  have "finished (Returns (SevereError e)) = Some (Returns (Some e))"
    by (simp add: SevereError_def)
  from Until_done[where f = ?f and k = k and s = s, OF p[unfolded sev] this]
  show ?case using k by (auto simp: nat_eq_iff)
next
  case (Suc d)
  let ?f = "readyPoll c h em kind ns nm interval sT hook"
  from Suc have k: "int k < sT div interval" by linarith
  from A obtain fetched e where g: "c_Get c k (ns, nm) = Inr fetched" "h fetched = Some e"
    "As_ErrorWithCodes e" by blast
  from pos have "interval \<noteq> 0" by simp
  note p = readyPoll_coded[where h = h and em = em and kind = kind and sT = sT and hook = hook and s = s, OF g this]
  have mi: "MinorOrSevereError (retryCountUntilSevere s + 1) (quo64 sT interval) e = MinorError e"
    using Suc k pos nn by (simp add: MinorOrSevereError_def quo64_nonneg)
  have fin: "finished (Returns (MinorError e)) = None"
    by (simp add: MinorError_def)
  have "(int k + 1) * interval \<le> (sT div interval) * interval"
    using k pos by (intro mult_right_mono) auto
  also have "\<dots> \<le> sT" using pos
    by (metis Euclidean_Rings.pos_mod_sign add.commute add_increasing2 div_mult_mod_eq order_refl)
  finally have "(int k + 1) * interval \<le> sT" .
  with lt Suc(5) pos have nd: "\<not> timeout \<le> t + max interval 0"
    by (simp add: algebra_simps)
  note st = Until_step[where f = ?f and k = k and s = s, OF p[unfolded mi] fin nd, of m]
  let ?s1 = "s\<lparr>retryCountUntilSevere := retryCountUntilSevere s + 1, obj := fetched,
                lastObservedError := Some e\<rparr>"
  have "\<exists>e' s'. Until interval timeout (t + max interval 0) (Suc k)
                   (minor_of (Returns (MinorError e)) m) ?f ?s1
                = Some (Returns (Some e'), s', nat (sT div interval) + 1)
             \<and> lastObservedError s' = Some e'"
  proof (rule Suc(1))
    show "d = nat (sT div interval) - Suc k" using Suc(2) by simp
    show "retryCountUntilSevere ?s1 = int (Suc k)" using Suc(3) by simp
    show "int (Suc k) \<le> sT div interval" using k by simp
    show "t + max interval 0 = int (Suc k) * interval" using Suc(5) pos by (simp add: algebra_simps)
  qed
  with st show ?case by simp
qed

lemma uncoded_run:
  fixes interval timeout :: int
  assumes pos: "0 < interval"
    and B: "\<forall>k. \<exists>fetched e. c_Get c k (ns, nm) = Inr fetched \<and> h fetched = Some e
                  \<and> \<not> As_ErrorWithCodes e"
  shows "t = int k * interval \<Longrightarrow> t < timeout
    \<Longrightarrow> \<exists>e s' n. Until interval timeout t k m (readyPoll c h em kind ns nm interval sT hook) s
                = Some (Returns (Some (RetryError (Some e))), s', n)
             \<and> lastObservedError s' = Some e \<and> \<not> As_ErrorWithCodes e
             \<and> (int n - 1) * interval < timeout \<and> timeout \<le> int n * interval"
proof (induction "nat (timeout - t)" arbitrary: k s t m rule: less_induct)
  case less
  let ?f = "readyPoll c h em kind ns nm interval sT hook"
  from B obtain fetched e where g: "c_Get c k (ns, nm) = Inr fetched" "h fetched = Some e"
    "\<not> As_ErrorWithCodes e" by blast
  note p = readyPoll_uncoded[where h = h and em = em and kind = kind and sT = sT and hook = hook
             and s = s and interval = interval, OF g]
  have fin: "finished (Returns (MinorError e)) = None" by (simp add: MinorError_def)
  have mo: "minor_of (Returns (MinorError e)) m = Some e" by (simp add: MinorError_def)
  let ?s1 = "s\<lparr>retryCountUntilSevere := retryCountUntilSevere s + 1, obj := fetched,
                lastObservedError := Some e\<rparr>"
  show ?case
  proof (cases "timeout \<le> t + max interval 0")
    case True
    from Until_deadline[where f = ?f and k = k and s = s, OF p fin True, of m]
    have "Until interval timeout t k m ?f s
            = Some (Returns (Some (RetryError (Some e))), ?s1, Suc k)"
      by (simp add: mo)
    moreover have "(int (Suc k) - 1) * interval < timeout" using less(2,3) by simp
    moreover have "timeout \<le> int (Suc k) * interval"
      using True less(2) pos by (simp add: algebra_simps)
    ultimately show ?thesis using g(3) by auto
  next
    case False
    note st = Until_step[where f = ?f and k = k and s = s, OF p fin False, of m]
    have "\<exists>e' s' n. Until interval timeout (t + max interval 0) (Suc k) (Some e) ?f ?s1
                = Some (Returns (Some (RetryError (Some e'))), s', n)
             \<and> lastObservedError s' = Some e' \<and> \<not> As_ErrorWithCodes e'
             \<and> (int n - 1) * interval < timeout \<and> timeout \<le> int n * interval"
    proof (rule less(1))
      show "nat (timeout - (t + max interval 0)) < nat (timeout - t)"
        using pos False by simp
      show "t + max interval 0 = int (Suc k) * interval"
        using less(2) pos by (simp add: algebra_simps)
      show "t + max interval 0 < timeout" using False by simp
    qed
    with st show ?thesis by (simp add: mo)
  qed
qed

lemma ready_wrap_error:
  assumes "GoType ob \<in> set (c_Scheme c)"
    and "UntilTimeout interval timeout
           (readyPoll c h (zeroObject (GoType ob)) kind (Namespace ob) (Name ob) interval sT hook)
           \<lparr>retryCountUntilSevere = 0, lastObservedError = None, obj = ob, postReadyCalls = 0\<rparr>
         = Some (Returns (Some e), s, n)"
    and "lastObservedError s = Some l"
  shows "WaitUntilObjectReadyWithHealthFunction c h ob kind interval sT timeout hook
           = Some (Returns (Some (NewErrorWithCodes
                (formatErrorMessage
                   (''Error while waiting for '' @ extensionKey kind (Namespace ob) (Name ob)
                      @ '' to become ready'') (Error l))
                (ExtractErrorCodes l))), s, n)"
  using assms
  by (simp add: WaitUntilObjectReadyWithHealthFunction_def createResetObjectFunc_def Let_def)

text \<open>
  C2. With a positive poll interval, a severe threshold that is not negative and a timeout
  beyond it: if every poll reads the object and the health check fails on it with an error
  that carries error codes, \<^verbatim>\<open>WaitUntilObjectReadyWithHealthFunction\<close> fails in the poll
  with index \<open>severeThreshold div interval\<close>, which runs no later than \<open>severeThreshold\<close>
  after the start; if every poll fails with an error that carries no codes, the wait fails
  only once every tick before the timeout has been polled, that is when the timeout expires.
\<close>

theorem C2_coded_errors_fail_by_threshold_uncoded_at_timeout:
  fixes interval severeThreshold timeout :: int
  assumes "0 < interval" and "0 \<le> severeThreshold" and "severeThreshold < timeout"
    and "GoType ob \<in> set (c_Scheme c)"
  shows
    "((\<forall>k. \<exists>fetched e. c_Get c k (Namespace ob, Name ob) = Inr fetched
           \<and> healthFunc fetched = Some e \<and> As_ErrorWithCodes e)
       \<longrightarrow> (\<exists>err s n. WaitUntilObjectReadyWithHealthFunction c healthFunc ob kind interval
                         severeThreshold timeout postReadyFunc
                       = Some (Returns (Some err), s, n)
               \<and> n = nat (severeThreshold div interval) + 1
               \<and> (int n - 1) * interval \<le> severeThreshold))
     \<and> ((\<forall>k. \<exists>fetched e. c_Get c k (Namespace ob, Name ob) = Inr fetched
           \<and> healthFunc fetched = Some e \<and> \<not> As_ErrorWithCodes e)
       \<longrightarrow> (\<exists>err s n. WaitUntilObjectReadyWithHealthFunction c healthFunc ob kind interval
                         severeThreshold timeout postReadyFunc
                       = Some (Returns (Some err), s, n)
               \<and> (int n - 1) * interval < timeout \<and> timeout \<le> int n * interval))"
proof (intro conjI impI)
  let ?f = "readyPoll c healthFunc (zeroObject (GoType ob)) kind (Namespace ob) (Name ob)
              interval severeThreshold postReadyFunc"
  let ?vars = "\<lparr>retryCountUntilSevere = 0, lastObservedError = None, obj = ob,
                postReadyCalls = 0\<rparr>"
  assume A: "\<forall>k. \<exists>fetched e. c_Get c k (Namespace ob, Name ob) = Inr fetched
           \<and> healthFunc fetched = Some e \<and> As_ErrorWithCodes e"
  have "0 \<le> severeThreshold div interval" using assms(1,2) by (simp add: pos_imp_zdiv_nonneg_iff)
  then have "\<exists>e s'. Until interval timeout 0 0 None ?f ?vars
                = Some (Returns (Some e), s', nat (severeThreshold div interval) + 1)
             \<and> lastObservedError s' = Some e"
    by (intro coded_run[OF assms(1,2,3) A]) simp_all
  then obtain e s' where
    u: "UntilTimeout interval timeout ?f ?vars
          = Some (Returns (Some e), s', nat (severeThreshold div interval) + 1)"
    and l: "lastObservedError s' = Some e"
    unfolding UntilTimeout_def by blast
  have "(severeThreshold div interval) * interval \<le> severeThreshold" using assms(1)
    by (metis Euclidean_Rings.pos_mod_sign add.commute add_increasing2 div_mult_mod_eq order_refl)
  with \<open>0 \<le> severeThreshold div interval\<close>
  have "(int (nat (severeThreshold div interval) + 1) - 1) * interval \<le> severeThreshold"
    by simp
  with ready_wrap_error[OF assms(4) u l]
  show "\<exists>err s n. WaitUntilObjectReadyWithHealthFunction c healthFunc ob kind interval
                         severeThreshold timeout postReadyFunc
                       = Some (Returns (Some err), s, n)
               \<and> n = nat (severeThreshold div interval) + 1
               \<and> (int n - 1) * interval \<le> severeThreshold"
    by blast
next
  let ?f = "readyPoll c healthFunc (zeroObject (GoType ob)) kind (Namespace ob) (Name ob)
              interval severeThreshold postReadyFunc"
  let ?vars = "\<lparr>retryCountUntilSevere = 0, lastObservedError = None, obj = ob,
                postReadyCalls = 0\<rparr>"
  assume B: "\<forall>k. \<exists>fetched e. c_Get c k (Namespace ob, Name ob) = Inr fetched
           \<and> healthFunc fetched = Some e \<and> \<not> As_ErrorWithCodes e"
  have "0 < timeout" using assms(2,3) by simp
  then have "\<exists>e s' n. Until interval timeout 0 0 None ?f ?vars
                = Some (Returns (Some (RetryError (Some e))), s', n)
             \<and> lastObservedError s' = Some e \<and> \<not> As_ErrorWithCodes e
             \<and> (int n - 1) * interval < timeout \<and> timeout \<le> int n * interval"
    by (intro uncoded_run[OF assms(1) B]) simp_all
  then obtain e s' n where
    u: "UntilTimeout interval timeout ?f ?vars
          = Some (Returns (Some (RetryError (Some e))), s', n)"
    and l: "lastObservedError s' = Some e"
    and t: "(int n - 1) * interval < timeout" "timeout \<le> int n * interval"
    unfolding UntilTimeout_def by blast
  from ready_wrap_error[OF assms(4) u l] t
  show "\<exists>err s n. WaitUntilObjectReadyWithHealthFunction c healthFunc ob kind interval
                         severeThreshold timeout postReadyFunc
                       = Some (Returns (Some err), s, n)
               \<and> (int n - 1) * interval < timeout \<and> timeout \<le> int n * interval"
    by blast
qed

theorem C2_witness:
  "(\<exists>err s n. WaitUntilObjectReadyWithHealthFunction (ex_client (Inr ex_worker_failing))
                 CheckExtensionObject ex_worker ''Worker'' 5000000000 30000000000 600000000000 None
               = Some (Returns (Some err), s, n)
        \<and> n = 7 \<and> (int n - 1) * 5000000000 \<le> 30000000000)
   \<and> (\<exists>err s n. WaitUntilObjectReadyWithHealthFunction (ex_client (Inr ex_worker))
                 CheckExtensionObject ex_worker ''Worker'' 5000000000 30000000000 600000000000 None
               = Some (Returns (Some err), s, n)
        \<and> (int n - 1) * 5000000000 < 600000000000 \<and> 600000000000 \<le> int n * 5000000000)"
proof -
  have sch: "GoType ex_worker \<in> set (c_Scheme (ex_client r))" for r
    by (simp add: ex_client_def ex_worker_def zeroObject_def)
  note i1 = C2_coded_errors_fail_by_threshold_uncoded_at_timeout
              [of 5000000000 30000000000 600000000000 ex_worker
                  "ex_client (Inr ex_worker_failing)" CheckExtensionObject "''Worker''" None,
               OF _ _ _ sch]
  note i2 = C2_coded_errors_fail_by_threshold_uncoded_at_timeout
              [of 5000000000 30000000000 600000000000 ex_worker
                  "ex_client (Inr ex_worker)" CheckExtensionObject "''Worker''" None,
               OF _ _ _ sch]
  have p1: "\<exists>err s n. WaitUntilObjectReadyWithHealthFunction (ex_client (Inr ex_worker_failing))
                 CheckExtensionObject ex_worker ''Worker'' 5000000000 30000000000 600000000000 None
               = Some (Returns (Some err), s, n)
        \<and> n = nat (30000000000 div 5000000000) + 1
        \<and> (int n - 1) * 5000000000 \<le> 30000000000"
    by (rule mp[OF conjunct1[OF i1]])
       (simp_all add: ex_client_def ex_worker_failing_def ex_worker_def zeroObject_def
          CheckExtensionObject_def NewErrorWithCodes_def ex_quota_error_def)
  have p2: "\<exists>err s n. WaitUntilObjectReadyWithHealthFunction (ex_client (Inr ex_worker))
                 CheckExtensionObject ex_worker ''Worker'' 5000000000 30000000000 600000000000 None
               = Some (Returns (Some err), s, n)
        \<and> (int n - 1) * 5000000000 < 600000000000 \<and> 600000000000 \<le> int n * 5000000000"
    by (rule mp[OF conjunct2[OF i2]])
       (simp_all add: ex_client_def ex_worker_def zeroObject_def
          CheckExtensionObject_def NewErrorWithCodes_def)
  have "nat (30000000000 div 5000000000) + 1 = (7::nat)" by simp
  with p1 p2 show ?thesis by simp
qed

section \<open>The last observed error\<close>

lemma last_opt_snoc [simp]: "last_opt (xs @ [x]) = Some x"
  by (simp add: last_opt_def)

lemma readyPoll_tracks_health_errors:
  assumes "lastObservedError s = last_opt (healthErrors c h (ns, nm) k)"
    and "readyPoll c h em kind ns nm interval sT hook k s = (r, s1)"
  shows "lastObservedError s1 = last_opt (healthErrors c h (ns, nm) (Suc k))"
  using assms
  by (auto simp: readyPoll_def Let_def split: sum.splits option.splits if_splits)

lemma deletedPoll_tracks_last_errors:
  assumes "dv_lastObservedError s = last_opt (lastErrors c (ns, nm) k)"
    and "deletedPoll c em kind ns nm k s = (r, s1)"
  shows "dv_lastObservedError s1 = last_opt (lastErrors c (ns, nm) (Suc k))"
  using assms
  by (auto simp: deletedPoll_def Let_def split: sum.splits option.splits if_splits)

lemma ready_error_is_last_health_error:
  assumes run: "WaitUntilObjectReadyWithHealthFunction c h ob kind interval sT timeout hook
                  = Some (Returns (Some err), s, n)"
    and seen: "healthErrors c h (Namespace ob, Name ob) n \<noteq> []"
  shows "err = NewErrorWithCodes
                 (formatErrorMessage
                    (''Error while waiting for '' @ extensionKey kind (Namespace ob) (Name ob)
                       @ '' to become ready'')
                    (Error (last (healthErrors c h (Namespace ob, Name ob) n))))
                 (ExtractErrorCodes (last (healthErrors c h (Namespace ob, Name ob) n)))"
proof -
  let ?f = "readyPoll c h (zeroObject (GoType ob)) kind (Namespace ob) (Name ob) interval sT hook"
  let ?vars = "\<lparr>retryCountUntilSevere = 0, lastObservedError = None, obj = ob,
                postReadyCalls = 0\<rparr>"
  have sch: "GoType ob \<in> set (c_Scheme c)"
  proof (rule ccontr)
    assume "GoType ob \<notin> set (c_Scheme c)"
    with run have "n = 0"
      by (simp add: WaitUntilObjectReadyWithHealthFunction_def createResetObjectFunc_def Let_def)
    with seen show False by simp
  qed
  with run obtain e0 where u: "Until interval timeout 0 0 None ?f ?vars = Some (Returns (Some e0), s, n)"
    by (auto simp: WaitUntilObjectReadyWithHealthFunction_def createResetObjectFunc_def Let_def
                   UntilTimeout_def split: option.splits outcome.splits)
  have "lastObservedError s = last_opt (healthErrors c h (Namespace ob, Name ob) n)"
    by (rule Until_invariant[where I = "\<lambda>k s. lastObservedError s
                 = last_opt (healthErrors c h (Namespace ob, Name ob) k)", OF u])
       (simp add: last_opt_def, erule readyPoll_tracks_health_errors, assumption)
  with seen have l: "lastObservedError s = Some (last (healthErrors c h (Namespace ob, Name ob) n))"
    by (simp add: last_opt_def)
  from u have "UntilTimeout interval timeout ?f ?vars = Some (Returns (Some e0), s, n)"
    by (simp add: UntilTimeout_def)
  from ready_wrap_error[OF sch this l] run show ?thesis by simp
qed

lemma deleted_wrap_error:
  assumes "GoType ob \<in> set (c_Scheme c)"
    and "UntilTimeout interval timeout
           (deletedPoll c (zeroObject (GoType ob)) kind (Namespace ob) (Name ob))
           \<lparr>dv_lastObservedError = None, dv_obj = ob\<rparr>
         = Some (Returns (Some e), s, n)"
    and "dv_lastObservedError s = Some l"
  shows "WaitUntilExtensionObjectDeleted c ob kind interval timeout
           = Some (Returns (Some (NewErrorWithCodes
                (formatErrorMessage
                   (''Failed to delete '' @ extensionKey kind (Namespace ob) (Name ob)) (Error l))
                (ExtractErrorCodes l))), s, n)"
  using assms
  by (simp add: WaitUntilExtensionObjectDeleted_def createResetObjectFunc_def Let_def)

lemma deleted_error_is_last_error:
  assumes run: "WaitUntilExtensionObjectDeleted c ob kind interval timeout
                  = Some (Returns (Some err), s, n)"
    and seen: "lastErrors c (Namespace ob, Name ob) n \<noteq> []"
  shows "err = NewErrorWithCodes
                 (formatErrorMessage
                    (''Failed to delete '' @ extensionKey kind (Namespace ob) (Name ob))
                    (Error (last (lastErrors c (Namespace ob, Name ob) n))))
                 (ExtractErrorCodes (last (lastErrors c (Namespace ob, Name ob) n)))"
proof -
  let ?f = "deletedPoll c (zeroObject (GoType ob)) kind (Namespace ob) (Name ob)"
  let ?vars = "\<lparr>dv_lastObservedError = None, dv_obj = ob\<rparr>"
  have sch: "GoType ob \<in> set (c_Scheme c)"
  proof (rule ccontr)
    assume "GoType ob \<notin> set (c_Scheme c)"
    with run have "n = 0"
      by (simp add: WaitUntilExtensionObjectDeleted_def createResetObjectFunc_def Let_def)
    with seen show False by simp
  qed
  with run obtain e0 where u: "Until interval timeout 0 0 None ?f ?vars = Some (Returns (Some e0), s, n)"
    by (auto simp: WaitUntilExtensionObjectDeleted_def createResetObjectFunc_def Let_def
                   UntilTimeout_def split: option.splits outcome.splits)
  have "dv_lastObservedError s = last_opt (lastErrors c (Namespace ob, Name ob) n)"
    by (rule Until_invariant[where I = "\<lambda>k s. dv_lastObservedError s
                 = last_opt (lastErrors c (Namespace ob, Name ob) k)", OF u])
       (simp add: last_opt_def, erule deletedPoll_tracks_last_errors, assumption)
  with seen have l: "dv_lastObservedError s = Some (last (lastErrors c (Namespace ob, Name ob) n))"
    by (simp add: last_opt_def)
  from u have "UntilTimeout interval timeout ?f ?vars = Some (Returns (Some e0), s, n)"
    by (simp add: UntilTimeout_def)
  from deleted_wrap_error[OF sch this l] run show ?thesis by simp
qed

text \<open>
  C7. Whenever \<^verbatim>\<open>WaitUntilObjectReadyWithHealthFunction\<close> returns an error after its polls have
  seen at least one failure of the health check, the error is a coded error whose message
  ends with the \<^verbatim>\<open>Error()\<close> text of the last failure seen and whose codes are the codes of
  that failure; and whenever \<^verbatim>\<open>WaitUntilExtensionObjectDeleted\<close> returns an error after its
  polls have seen at least one populated \<^verbatim>\<open>Status.LastError\<close>, the error is a coded error
  whose message ends with the description of the last one seen and whose codes are its
  codes.
\<close>

theorem C7_failure_retains_last_observed_error:
  "(WaitUntilObjectReadyWithHealthFunction c healthFunc ob kind interval severeThreshold timeout
        postReadyFunc = Some (Returns (Some err), s, n)
      \<and> healthErrors c healthFunc (Namespace ob, Name ob) n \<noteq> []
     \<longrightarrow> err = NewErrorWithCodes
                 (formatErrorMessage
                    (''Error while waiting for '' @ extensionKey kind (Namespace ob) (Name ob)
                       @ '' to become ready'')
                    (Error (last (healthErrors c healthFunc (Namespace ob, Name ob) n))))
                 (ExtractErrorCodes (last (healthErrors c healthFunc (Namespace ob, Name ob) n))))
   \<and> (WaitUntilExtensionObjectDeleted c' ob' kind' interval' timeout'
        = Some (Returns (Some err'), s', n')
      \<and> lastErrors c' (Namespace ob', Name ob') n' \<noteq> []
     \<longrightarrow> err' = NewErrorWithCodes
                  (formatErrorMessage
                     (''Failed to delete '' @ extensionKey kind' (Namespace ob') (Name ob'))
                     (Error (last (lastErrors c' (Namespace ob', Name ob') n'))))
                  (ExtractErrorCodes (last (lastErrors c' (Namespace ob', Name ob') n'))))"
  using ready_error_is_last_health_error deleted_error_is_last_error by blast

theorem C7_witness:
  "ErrorWithCodes
     ''Error while waiting for Worker shoot--foo--bar/worker-1 to become ready: error during reconciliation: quota exceeded''
     [''ERR_INFRA_QUOTA_EXCEEDED'']
   = NewErrorWithCodes
       (formatErrorMessage
          (''Error while waiting for '' @ extensionKey ''Worker'' (Namespace ex_worker) (Name ex_worker)
             @ '' to become ready'')
          (Error (last (healthErrors (ex_client (Inr ex_worker_failing)) CheckExtensionObject
                          (Namespace ex_worker, Name ex_worker) 7))))
       (ExtractErrorCodes (last (healthErrors (ex_client (Inr ex_worker_failing))
                                   CheckExtensionObject (Namespace ex_worker, Name ex_worker) 7)))
   \<and> ErrorWithCodes ''Failed to delete Worker shoot--foo--bar/worker-1: quota exceeded''
       [''ERR_INFRA_QUOTA_EXCEEDED'']
   = NewErrorWithCodes
       (formatErrorMessage
          (''Failed to delete '' @ extensionKey ''Worker'' (Namespace ex_worker) (Name ex_worker))
          (Error (last (lastErrors (ex_client (Inr ex_worker_failing))
                          (Namespace ex_worker, Name ex_worker) 4))))
       (ExtractErrorCodes (last (lastErrors (ex_client (Inr ex_worker_failing))
                                   (Namespace ex_worker, Name ex_worker) 4)))"
proof -
  let ?s = "\<lparr>retryCountUntilSevere = 7,
             lastObservedError = Some (ErrorWithCodes ''error during reconciliation: quota exceeded''
                                         [''ERR_INFRA_QUOTA_EXCEEDED'']),
             obj = ex_worker_failing, postReadyCalls = 0\<rparr>"
  let ?s' = "\<lparr>dv_lastObservedError = Some (ErrorWithCodes ''quota exceeded''
                                             [''ERR_INFRA_QUOTA_EXCEEDED'']),
              dv_obj = ex_worker_failing\<rparr>"
  have run1: "WaitUntilObjectReadyWithHealthFunction (ex_client (Inr ex_worker_failing))
                CheckExtensionObject ex_worker ''Worker'' 5000000000 30000000000 600000000000 None
              = Some (Returns (Some (ErrorWithCodes
                   ''Error while waiting for Worker shoot--foo--bar/worker-1 to become ready: error during reconciliation: quota exceeded''
                   [''ERR_INFRA_QUOTA_EXCEEDED''])), ?s, 7)"
    by code_simp
  have seen1: "healthErrors (ex_client (Inr ex_worker_failing)) CheckExtensionObject
                 (Namespace ex_worker, Name ex_worker) 7 \<noteq> []"
    by code_simp
  have run2: "WaitUntilExtensionObjectDeleted (ex_client (Inr ex_worker_failing)) ex_worker
                ''Worker'' 5000000000 20000000000
              = Some (Returns (Some (ErrorWithCodes
                   ''Failed to delete Worker shoot--foo--bar/worker-1: quota exceeded''
                   [''ERR_INFRA_QUOTA_EXCEEDED''])), ?s', 4)"
    by code_simp
  have seen2: "lastErrors (ex_client (Inr ex_worker_failing))
                 (Namespace ex_worker, Name ex_worker) 4 \<noteq> []"
    by code_simp
  note inst = C7_failure_retains_last_observed_error
    [of "ex_client (Inr ex_worker_failing)" CheckExtensionObject ex_worker "''Worker''"
        5000000000 30000000000 600000000000 None
        "ErrorWithCodes
           ''Error while waiting for Worker shoot--foo--bar/worker-1 to become ready: error during reconciliation: quota exceeded''
           [''ERR_INFRA_QUOTA_EXCEEDED'']" ?s 7
        "ex_client (Inr ex_worker_failing)" ex_worker "''Worker''" 5000000000 20000000000
        "ErrorWithCodes ''Failed to delete Worker shoot--foo--bar/worker-1: quota exceeded''
           [''ERR_INFRA_QUOTA_EXCEEDED'']" ?s' 4]
  from mp[OF conjunct1[OF inst] conjI[OF run1 seen1]] mp[OF conjunct2[OF inst] conjI[OF run2 seen2]]
  show ?thesis by (rule conjI)
qed

section \<open>Migration\<close>

lemma migratedPoll_found:
  assumes "c_Get c k (ns, nm) = Inr fetched"
  shows "migratedPoll c em ns nm k ob
           = (if migrateSucceeded fetched then (Returns Ok, fetched)
              else (Returns (MinorError (notMigratedError nm fetched)), fetched))"
  using assms by (simp add: migratedPoll_def migrateSucceeded_def notMigratedError_def)

lemma migratedPoll_not_found:
  assumes "c_Get c k (ns, nm) = Inl e" "IsNotFound e"
  shows "migratedPoll c em ns nm k ob = (Returns Ok, em)"
  using assms by (simp add: migratedPoll_def)

lemma migratedPoll_Ok:
  assumes "migratedPoll c em ns nm k ob = (r, s')" "finished r = Some (Returns None)"
  shows "(\<exists>e. c_Get c k (ns, nm) = Inl e \<and> IsNotFound e)
         \<or> (\<exists>fetched. c_Get c k (ns, nm) = Inr fetched \<and> migrateSucceeded fetched)"
  using assms
  by (auto simp: migratedPoll_def migrateSucceeded_def Ok_def MinorError_def SevereError_def
           split: sum.splits option.splits if_splits)

text \<open>
  While the polls read objects whose migration has not succeeded, the loop goes on: poll
  \<open>k\<close> is run when the polls before it read such objects and its tick lies before the timeout.
\<close>

lemma migrated_reach:
  fixes interval timeout :: int
  assumes pre: "\<forall>j<k. \<exists>fetched. c_Get c j (ns, nm) = Inr fetched \<and> \<not> migrateSucceeded fetched"
    and reach: "k = 0 \<or> int k * max interval 0 < timeout"
  shows "j \<le> k \<Longrightarrow>
           \<exists>m' s'. Until interval timeout (int j * max interval 0) j m (migratedPoll c em ns nm) s
                    = Until interval timeout (int k * max interval 0) k m'
                        (migratedPoll c em ns nm) s'"
proof (induction "k - j" arbitrary: j m s)
  case 0
  then have "j = k" by simp
  then show ?case by blast
next
  case (Suc d)
  let ?f = "migratedPoll c em ns nm"
  from Suc(2,3) have jk: "j < k" by simp
  with pre obtain fetched where g: "c_Get c j (ns, nm) = Inr fetched"
      "\<not> migrateSucceeded fetched" by blast
  from migratedPoll_found[OF g(1), of em s] g(2)
  have p: "?f j s = (Returns (MinorError (notMigratedError nm fetched)), fetched)" by simp
  have fin: "finished (Returns (MinorError (notMigratedError nm fetched))) = None"
    by (simp add: MinorError_def)
  from jk reach have lt: "int k * max interval 0 < timeout" by simp
  have "int (Suc j) * max interval 0 \<le> int k * max interval 0"
    using jk by (intro mult_right_mono) simp_all
  with lt have nd: "\<not> timeout \<le> int j * max interval 0 + max interval 0"
    by (simp add: algebra_simps)
  have t: "int j * max interval 0 + max interval 0 = int (Suc j) * max interval 0"
    by (simp add: algebra_simps)
  note st = Until_step[where f = ?f and k = j and s = s, OF p fin nd, of m, unfolded t]
  have "d = k - Suc j" using Suc(2) by simp
  moreover have "Suc j \<le> k" using jk by simp
  ultimately obtain m' s' where
    "Until interval timeout (int (Suc j) * max interval 0) (Suc j)
       (minor_of (Returns (MinorError (notMigratedError nm fetched))) m) ?f fetched
     = Until interval timeout (int k * max interval 0) k m' ?f s'"
    using Suc(1)[of "Suc j"] by blast
  with st show ?case by metis
qed

lemma migrated_done_at:
  fixes interval timeout :: int
  assumes pre: "\<forall>j<k. \<exists>fetched. c_Get c j (ns, nm) = Inr fetched \<and> \<not> migrateSucceeded fetched"
    and reach: "k = 0 \<or> int k * max interval 0 < timeout"
    and p: "\<And>s. migratedPoll c em ns nm k s = (Returns Ok, s')"
  shows "Until interval timeout 0 0 None (migratedPoll c em ns nm) ob
           = Some (Returns None, s', Suc k)"
proof -
  let ?f = "migratedPoll c em ns nm"
  from migrated_reach[OF pre reach, where j = 0 and m = None and s = ob and em = em]
  obtain m' s0 where
    "Until interval timeout 0 0 None ?f ob
       = Until interval timeout (int k * max interval 0) k m' ?f s0" by auto
  moreover have "finished (Returns Ok) = Some (Returns None)" by (simp add: Ok_def)
  from Until_done[where f = ?f and k = k and s = s0, OF p this]
  have "Until interval timeout (int k * max interval 0) k m' ?f s0
          = Some (Returns None, s', Suc k)" .
  ultimately show ?thesis by simp
qed

lemma not_migrated_run:
  fixes interval timeout :: int
  assumes pos: "0 < interval"
    and B: "\<forall>k. int k * interval < timeout
              \<longrightarrow> (\<exists>fetched. c_Get c k (ns, nm) = Inr fetched \<and> \<not> migrateSucceeded fetched)"
  shows "t = int k * interval \<Longrightarrow> t < timeout
    \<Longrightarrow> \<exists>fetched n. Until interval timeout t k m (migratedPoll c em ns nm) s
                = Some (Returns (Some (RetryError (Some (notMigratedError nm fetched)))), fetched, n)
             \<and> 1 \<le> n \<and> c_Get c (n - 1) (ns, nm) = Inr fetched
             \<and> (int n - 1) * interval < timeout \<and> timeout \<le> int n * interval"
proof (induction "nat (timeout - t)" arbitrary: k s t m rule: less_induct)
  case less
  let ?f = "migratedPoll c em ns nm"
  from B less(2,3) obtain fetched where
    g: "c_Get c k (ns, nm) = Inr fetched" "\<not> migrateSucceeded fetched"
    by blast
  from migratedPoll_found[OF g(1), of em s] g(2)
  have p: "?f k s = (Returns (MinorError (notMigratedError nm fetched)), fetched)" by simp
  have fin: "finished (Returns (MinorError (notMigratedError nm fetched))) = None"
    by (simp add: MinorError_def)
  have mo: "minor_of (Returns (MinorError (notMigratedError nm fetched))) m
              = Some (notMigratedError nm fetched)"
    by (simp add: MinorError_def)
  show ?case
  proof (cases "timeout \<le> t + max interval 0")
    case True
    from Until_deadline[where f = ?f and k = k and s = s, OF p fin True, of m]
    have "Until interval timeout t k m ?f s
            = Some (Returns (Some (RetryError (Some (notMigratedError nm fetched)))), fetched, Suc k)"
      by (simp add: mo)
    moreover have "(int (Suc k) - 1) * interval < timeout" using less(2,3) by simp
    moreover have "timeout \<le> int (Suc k) * interval"
      using True less(2) pos by (simp add: algebra_simps)
    ultimately show ?thesis using g(1) by auto
  next
    case False
    note st = Until_step[where f = ?f and k = k and s = s, OF p fin False, of m]
    have "\<exists>fetched' n. Until interval timeout (t + max interval 0) (Suc k)
                          (Some (notMigratedError nm fetched)) ?f fetched
                = Some (Returns (Some (RetryError (Some (notMigratedError nm fetched')))), fetched', n)
             \<and> 1 \<le> n \<and> c_Get c (n - 1) (ns, nm) = Inr fetched'
             \<and> (int n - 1) * interval < timeout \<and> timeout \<le> int n * interval"
    proof (rule less(1))
      show "nat (timeout - (t + max interval 0)) < nat (timeout - t)"
        using pos False by simp
      show "t + max interval 0 = int (Suc k) * interval"
        using less(2) pos by (simp add: algebra_simps)
      show "t + max interval 0 < timeout" using False by simp
    qed
    with st show ?thesis by (simp add: mo)
  qed
qed

text \<open>
  C8 (amended). With a client whose scheme knows the object's type,
  \<^verbatim>\<open>WaitUntilExtensionObjectMigrated\<close> returns \<^verbatim>\<open>nil\<close> in the first poll that does not find the
  object, and in the first poll that reads the object with \<^verbatim>\<open>LastOperation\<close> of type Migrate
  and state Succeeded: in poll \<open>k\<close>, counted from 0, when the polls before it read the object
  in any other condition and the tick of poll \<open>k\<close> lies before the timeout. It returns \<^verbatim>\<open>nil\<close>
  only for one of these two reasons. If every poll before the timeout reads an object in
  any other condition (with a positive interval and timeout), every tick before the timeout
  is polled and the wait then returns the retry error with the last minor error, which names
  the kind, the name and the extension type of the object read last. The error does not
  report the type or the state of the last operation.
\<close>

theorem C8_migrated_wait:
  assumes "GoType ob \<in> set (c_Scheme c)"
  shows
    "((\<forall>j<k. \<exists>earlier. c_Get c j (Namespace ob, Name ob) = Inr earlier
                \<and> \<not> migrateSucceeded earlier)
        \<and> (k = 0 \<or> int k * max interval 0 < timeout)
        \<and> c_Get c k (Namespace ob, Name ob) = Inl e \<and> IsNotFound e
       \<longrightarrow> WaitUntilExtensionObjectMigrated c ob interval timeout
             = Some (Returns None, zeroObject (GoType ob), Suc k))
     \<and> ((\<forall>j<k. \<exists>earlier. c_Get c j (Namespace ob, Name ob) = Inr earlier
                \<and> \<not> migrateSucceeded earlier)
        \<and> (k = 0 \<or> int k * max interval 0 < timeout)
        \<and> c_Get c k (Namespace ob, Name ob) = Inr fetched \<and> migrateSucceeded fetched
       \<longrightarrow> WaitUntilExtensionObjectMigrated c ob interval timeout
             = Some (Returns None, fetched, Suc k))
     \<and> (WaitUntilExtensionObjectMigrated c ob interval timeout = Some (Returns None, s, n)
       \<longrightarrow> 1 \<le> n
           \<and> ((\<exists>e'. c_Get c (n - 1) (Namespace ob, Name ob) = Inl e' \<and> IsNotFound e')
               \<or> (\<exists>fetched'. c_Get c (n - 1) (Namespace ob, Name ob) = Inr fetched'
                     \<and> migrateSucceeded fetched')))
     \<and> (0 < interval \<and> 0 < timeout
         \<and> (\<forall>k. int k * interval < timeout
                \<longrightarrow> (\<exists>fetched'. c_Get c k (Namespace ob, Name ob) = Inr fetched'
                       \<and> \<not> migrateSucceeded fetched'))
       \<longrightarrow> (\<exists>last n'. WaitUntilExtensionObjectMigrated c ob interval timeout
                        = Some (Returns (Some (RetryError (Some (notMigratedError (Name ob) last)))),
                                last, n')
               \<and> 1 \<le> n' \<and> c_Get c (n' - 1) (Namespace ob, Name ob) = Inr last
               \<and> (int n' - 1) * interval < timeout \<and> timeout \<le> int n' * interval))"
proof -
  let ?f = "migratedPoll c (zeroObject (GoType ob)) (Namespace ob) (Name ob)"
  have W: "WaitUntilExtensionObjectMigrated c ob interval timeout
             = Until interval timeout 0 0 None ?f ob"
    using assms
    by (simp add: WaitUntilExtensionObjectMigrated_def createResetObjectFunc_def Let_def
          UntilTimeout_def)
  have a: "WaitUntilExtensionObjectMigrated c ob interval timeout
             = Some (Returns None, zeroObject (GoType ob), Suc k)"
    if "(\<forall>j<k. \<exists>earlier. c_Get c j (Namespace ob, Name ob) = Inr earlier
                \<and> \<not> migrateSucceeded earlier)
        \<and> (k = 0 \<or> int k * max interval 0 < timeout)
        \<and> c_Get c k (Namespace ob, Name ob) = Inl e \<and> IsNotFound e"
  proof -
    from that have pre: "\<forall>j<k. \<exists>earlier. c_Get c j (Namespace ob, Name ob) = Inr earlier
                \<and> \<not> migrateSucceeded earlier"
      and reach: "k = 0 \<or> int k * max interval 0 < timeout"
      and g: "c_Get c k (Namespace ob, Name ob) = Inl e" "IsNotFound e" by simp_all
    have "?f k s0 = (Returns Ok, zeroObject (GoType ob))" for s0
      by (rule migratedPoll_not_found[OF g])
    from migrated_done_at[OF pre reach this] W show ?thesis by simp
  qed
  have b: "WaitUntilExtensionObjectMigrated c ob interval timeout
             = Some (Returns None, fetched, Suc k)"
    if "(\<forall>j<k. \<exists>earlier. c_Get c j (Namespace ob, Name ob) = Inr earlier
                \<and> \<not> migrateSucceeded earlier)
        \<and> (k = 0 \<or> int k * max interval 0 < timeout)
        \<and> c_Get c k (Namespace ob, Name ob) = Inr fetched \<and> migrateSucceeded fetched"
  proof -
    from that have pre: "\<forall>j<k. \<exists>earlier. c_Get c j (Namespace ob, Name ob) = Inr earlier
                \<and> \<not> migrateSucceeded earlier"
      and reach: "k = 0 \<or> int k * max interval 0 < timeout"
      and g: "c_Get c k (Namespace ob, Name ob) = Inr fetched" "migrateSucceeded fetched"
      by simp_all
    have "?f k s0 = (Returns Ok, fetched)" for s0
      using migratedPoll_found[OF g(1), of "zeroObject (GoType ob)" s0] g(2) by simp
    from migrated_done_at[OF pre reach this] W show ?thesis by simp
  qed
  have c: "1 \<le> n
           \<and> ((\<exists>e'. c_Get c (n - 1) (Namespace ob, Name ob) = Inl e' \<and> IsNotFound e')
               \<or> (\<exists>fetched'. c_Get c (n - 1) (Namespace ob, Name ob) = Inr fetched'
                     \<and> migrateSucceeded fetched'))"
    if "WaitUntilExtensionObjectMigrated c ob interval timeout = Some (Returns None, s, n)"
  proof -
    from that W have "Until interval timeout 0 0 None ?f ob = Some (Returns None, s, n)" by simp
    then have "last_poll 0 ?f (Returns None, s, n)" by (rule Until_last_poll)
    then obtain k' s0 r where n: "n = Suc k'" and p: "?f k' s0 = (r, s)"
      and fin: "finished r = Some (Returns None)"
      unfolding last_poll_def by auto
    from migratedPoll_Ok[OF p fin] n show ?thesis by simp
  qed
  have d: "\<exists>last n'. WaitUntilExtensionObjectMigrated c ob interval timeout
                        = Some (Returns (Some (RetryError (Some (notMigratedError (Name ob) last)))),
                                last, n')
               \<and> 1 \<le> n' \<and> c_Get c (n' - 1) (Namespace ob, Name ob) = Inr last
               \<and> (int n' - 1) * interval < timeout \<and> timeout \<le> int n' * interval"
    if "0 < interval \<and> 0 < timeout
         \<and> (\<forall>k. int k * interval < timeout
                \<longrightarrow> (\<exists>fetched'. c_Get c k (Namespace ob, Name ob) = Inr fetched'
                       \<and> \<not> migrateSucceeded fetched'))"
  proof -
    from that have pos: "0 < interval" and to: "0 < timeout"
      and B: "\<forall>k. int k * interval < timeout
                \<longrightarrow> (\<exists>fetched'. c_Get c k (Namespace ob, Name ob) = Inr fetched'
                       \<and> \<not> migrateSucceeded fetched')" by simp_all
    from to have "\<exists>fetched n. Until interval timeout 0 0 None ?f ob
                = Some (Returns (Some (RetryError (Some (notMigratedError (Name ob) fetched)))), fetched, n)
             \<and> 1 \<le> n \<and> c_Get c (n - 1) (Namespace ob, Name ob) = Inr fetched
             \<and> (int n - 1) * interval < timeout \<and> timeout \<le> int n * interval"
      by (intro not_migrated_run[OF pos B]) simp_all
    with W show ?thesis by simp
  qed
  from a b c d show ?thesis by blast
qed

theorem C8_counterexample:
  "WaitUntilExtensionObjectMigrated (ex_client (Inr ex_worker_failing)) ex_worker
       5000000000 20000000000
     = Some (Returns (Some (RetryError (Some (Plain
          ''lastOperation for Worker with name worker-1 and type local is not Migrate=Succeeded'')))),
        ex_worker_failing, 4)
   \<and> WaitUntilExtensionObjectMigrated (ex_client (Inr ex_worker_migrating)) ex_worker
       5000000000 20000000000
     = Some (Returns (Some (RetryError (Some (Plain
          ''lastOperation for Worker with name worker-1 and type local is not Migrate=Succeeded'')))),
        ex_worker_migrating, 4)
   \<and> status_LastOperation ex_worker_failing \<noteq> status_LastOperation ex_worker_migrating"
  by code_simp

theorem C8_witness:
  "WaitUntilExtensionObjectMigrated (ex_client_then (Inr ex_worker_migrating) ex_gone) ex_worker
       5000000000 20000000000
     = Some (Returns None, zeroObject (GoType ex_worker), 2)
   \<and> WaitUntilExtensionObjectMigrated
       (ex_client_then (Inr ex_worker_migrating) (Inr ex_worker_migrated)) ex_worker
       5000000000 20000000000 = Some (Returns None, ex_worker_migrated, 2)
   \<and> ((\<exists>e'. c_Get (ex_client_then (Inr ex_worker_migrating) (Inr ex_worker_migrated)) (2 - 1)
               (Namespace ex_worker, Name ex_worker) = Inl e' \<and> IsNotFound e')
       \<or> (\<exists>fetched'. c_Get (ex_client_then (Inr ex_worker_migrating) (Inr ex_worker_migrated))
                        (2 - 1) (Namespace ex_worker, Name ex_worker) = Inr fetched'
             \<and> migrateSucceeded fetched'))
   \<and> (\<exists>last n'. WaitUntilExtensionObjectMigrated (ex_client (Inr ex_worker_migrating)) ex_worker
                   5000000000 20000000000
                 = Some (Returns (Some (RetryError (Some (notMigratedError (Name ex_worker) last)))),
                         last, n')
          \<and> 1 \<le> n'
          \<and> c_Get (ex_client (Inr ex_worker_migrating)) (n' - 1)
                (Namespace ex_worker, Name ex_worker) = Inr last
          \<and> (int n' - 1) * 5000000000 < 20000000000 \<and> 20000000000 \<le> int n' * 5000000000)"
proof -
  have sch: "GoType ex_worker \<in> set (c_Scheme (ex_client r))" for r
    by (simp add: ex_client_def ex_worker_def zeroObject_def)
  have sch2: "GoType ex_worker \<in> set (c_Scheme (ex_client_then r r'))" for r r'
    by (simp add: ex_client_then_def ex_worker_def zeroObject_def)
  note i1 = C8_migrated_wait[where c = "ex_client_then (Inr ex_worker_migrating) ex_gone"
              and ob = ex_worker and k = 1
              and e = "NotFound ''workers.extensions.gardener.cloud \"worker-1\" not found''"
              and interval = 5000000000 and timeout = 20000000000
              and fetched = ex_worker_migrated and s = ex_worker_migrated and n = 2, OF sch2]
  note i2 = C8_migrated_wait[where
              c = "ex_client_then (Inr ex_worker_migrating) (Inr ex_worker_migrated)"
              and ob = ex_worker and k = 1
              and e = "NotFound ''workers.extensions.gardener.cloud \"worker-1\" not found''"
              and interval = 5000000000 and timeout = 20000000000
              and fetched = ex_worker_migrated and s = ex_worker_migrated and n = 2, OF sch2]
  note i3 = C8_migrated_wait[where c = "ex_client (Inr ex_worker_migrating)"
              and ob = ex_worker and k = 1
              and e = "NotFound ''workers.extensions.gardener.cloud \"worker-1\" not found''"
              and interval = 5000000000 and timeout = 20000000000
              and fetched = ex_worker_migrated and s = ex_worker_migrated and n = 2, OF sch]
  have p1: "WaitUntilExtensionObjectMigrated (ex_client_then (Inr ex_worker_migrating) ex_gone)
              ex_worker 5000000000 20000000000
              = Some (Returns None, zeroObject (GoType ex_worker), 2)"
    using mp[OF conjunct1[OF i1]]
    by (simp add: ex_client_then_def ex_gone_def ex_worker_migrating_def migrateSucceeded_def
          numeral_2_eq_2)
  have p2: "WaitUntilExtensionObjectMigrated
              (ex_client_then (Inr ex_worker_migrating) (Inr ex_worker_migrated)) ex_worker
              5000000000 20000000000 = Some (Returns None, ex_worker_migrated, 2)"
    using mp[OF conjunct1[OF conjunct2[OF i2]]]
    by (simp add: ex_client_then_def ex_worker_migrating_def ex_worker_migrated_def
          migrateSucceeded_def numeral_2_eq_2)
  from mp[OF conjunct1[OF conjunct2[OF conjunct2[OF i2]]] p2]
  have p3: "(\<exists>e'. c_Get (ex_client_then (Inr ex_worker_migrating) (Inr ex_worker_migrated)) (2 - 1)
               (Namespace ex_worker, Name ex_worker) = Inl e' \<and> IsNotFound e')
       \<or> (\<exists>fetched'. c_Get (ex_client_then (Inr ex_worker_migrating) (Inr ex_worker_migrated))
                        (2 - 1) (Namespace ex_worker, Name ex_worker) = Inr fetched'
             \<and> migrateSucceeded fetched')"
    by (rule conjunct2)
  have p4: "\<exists>last n'. WaitUntilExtensionObjectMigrated (ex_client (Inr ex_worker_migrating)) ex_worker
                   5000000000 20000000000
                 = Some (Returns (Some (RetryError (Some (notMigratedError (Name ex_worker) last)))),
                         last, n')
          \<and> 1 \<le> n'
          \<and> c_Get (ex_client (Inr ex_worker_migrating)) (n' - 1)
                (Namespace ex_worker, Name ex_worker) = Inr last
          \<and> (int n' - 1) * 5000000000 < 20000000000 \<and> 20000000000 \<le> int n' * 5000000000"
    by (rule mp[OF conjunct2[OF conjunct2[OF conjunct2[OF i3]]]])
       (simp add: ex_client_def ex_worker_migrating_def migrateSucceeded_def)
  from p1 p2 p3 p4 show ?thesis by (intro conjI)
qed

section \<open>Deleting\<close>

lemma deletedPoll_Ok:
  assumes "deletedPoll c em kind ns nm k s = (r, s')" "finished r = Some (Returns None)"
  shows "\<exists>e. c_Get c k (ns, nm) = Inl e \<and> IsNotFound e"
  using assms
  by (auto simp: deletedPoll_def Let_def Ok_def MinorError_def SevereError_def
           split: sum.splits option.splits if_splits)

lemma mem_confirm_absent:
  "objects st (keyOf ob) = None \<Longrightarrow>
     \<exists>ob' e. ConfirmDeletion memAPI now ob st = (Some e, ob', st) \<and> IsNotFound e"
  by (simp add: ConfirmDeletion_def memAPI_def mem_Patch_def Let_def keyOf_def
        SetMetaDataAnnotation_def notFound_def)

text \<open>
  C6. NotFound is success on the destroy path and on the cleanup wait.
  \<^verbatim>\<open>DeleteExtensionObject\<close> returns \<^verbatim>\<open>nil\<close> when the patch that confirms the deletion answers
  NotFound, and when the patch succeeds and the delete call answers NotFound; on the API
  server in memory it returns \<^verbatim>\<open>nil\<close> for every object that the store does not hold and
  leaves the store as it is. \<^verbatim>\<open>WaitUntilExtensionObjectDeleted\<close> returns \<^verbatim>\<open>nil\<close> on its first
  poll when that poll does not find the object (the client's scheme knowing the object's
  type), and whenever it returns \<^verbatim>\<open>nil\<close> its last poll did not find the object.
\<close>

theorem C6_not_found_is_success:
  "(ConfirmDeletion w now ob st = (Some e, ob1, st1) \<and> IsNotFound e
      \<longrightarrow> DeleteExtensionObject w now ob st = (None, st1))
   \<and> (ConfirmDeletion w now ob st = (None, ob1, st1) \<and> api_Delete w ob1 st1 = (Some e, st2)
         \<and> IsNotFound e
      \<longrightarrow> DeleteExtensionObject w now ob st = (None, st2))
   \<and> (objects store (keyOf ob) = None
      \<longrightarrow> DeleteExtensionObject memAPI now ob store = (None, store))
   \<and> (GoType ob \<in> set (c_Scheme c) \<and> c_Get c 0 (Namespace ob, Name ob) = Inl e
         \<and> IsNotFound e
      \<longrightarrow> WaitUntilExtensionObjectDeleted c ob kind interval timeout
            = Some (Returns None,
                    \<lparr>dv_lastObservedError = None, dv_obj = zeroObject (GoType ob)\<rparr>, 1))
   \<and> (WaitUntilExtensionObjectDeleted c ob kind interval timeout = Some (Returns None, s, n)
      \<longrightarrow> 1 \<le> n \<and> (\<exists>e'. c_Get c (n - 1) (Namespace ob, Name ob) = Inl e' \<and> IsNotFound e'))"
proof (intro conjI impI)
  assume "ConfirmDeletion w now ob st = (Some e, ob1, st1) \<and> IsNotFound e"
  then show "DeleteExtensionObject w now ob st = (None, st1)"
    by (simp add: DeleteExtensionObject_def)
next
  assume "ConfirmDeletion w now ob st = (None, ob1, st1) \<and> api_Delete w ob1 st1 = (Some e, st2)
         \<and> IsNotFound e"
  then show "DeleteExtensionObject w now ob st = (None, st2)"
    by (simp add: DeleteExtensionObject_def)
next
  assume "objects store (keyOf ob) = None"
  from mem_confirm_absent[OF this, of now]
  show "DeleteExtensionObject memAPI now ob store = (None, store)"
    by (auto simp: DeleteExtensionObject_def)
next
  let ?f = "deletedPoll c (zeroObject (GoType ob)) kind (Namespace ob) (Name ob)"
  let ?vars = "\<lparr>dv_lastObservedError = None, dv_obj = ob\<rparr>"
  assume a: "GoType ob \<in> set (c_Scheme c) \<and> c_Get c 0 (Namespace ob, Name ob) = Inl e
         \<and> IsNotFound e"
  then have p: "?f 0 ?vars
                  = (Returns Ok, \<lparr>dv_lastObservedError = None, dv_obj = zeroObject (GoType ob)\<rparr>)"
    by (simp add: deletedPoll_def Let_def)
  have "finished (Returns Ok) = Some (Returns None)" by (simp add: Ok_def)
  from Until_done[where f = ?f and k = 0 and s = ?vars, OF p this] a
  show "WaitUntilExtensionObjectDeleted c ob kind interval timeout
            = Some (Returns None,
                    \<lparr>dv_lastObservedError = None, dv_obj = zeroObject (GoType ob)\<rparr>, 1)"
    by (simp add: WaitUntilExtensionObjectDeleted_def createResetObjectFunc_def Let_def
          UntilTimeout_def)
next
  let ?f = "deletedPoll c (zeroObject (GoType ob)) kind (Namespace ob) (Name ob)"
  let ?vars = "\<lparr>dv_lastObservedError = None, dv_obj = ob\<rparr>"
  assume run: "WaitUntilExtensionObjectDeleted c ob kind interval timeout = Some (Returns None, s, n)"
  then have sch: "GoType ob \<in> set (c_Scheme c)"
    by (auto simp: WaitUntilExtensionObjectDeleted_def createResetObjectFunc_def Let_def
             split: if_splits)
  with run have "Until interval timeout 0 0 None ?f ?vars = Some (Returns None, s, n)"
    by (auto simp: WaitUntilExtensionObjectDeleted_def createResetObjectFunc_def Let_def
          UntilTimeout_def split: option.splits outcome.splits)
  then have "last_poll 0 ?f (Returns None, s, n)" by (rule Until_last_poll)
  then obtain k' s0 r where n: "n = Suc k'" and p: "?f k' s0 = (r, s)"
    and fin: "finished r = Some (Returns None)"
    unfolding last_poll_def by auto
  from deletedPoll_Ok[OF p fin] n
  show "1 \<le> n" "\<exists>e'. c_Get c (n - 1) (Namespace ob, Name ob) = Inl e' \<and> IsNotFound e'"
    by simp_all
qed

theorem C6_witness:
  "DeleteExtensionObject memAPI ex_now ex_worker emptyStore = (None, emptyStore)
   \<and> DeleteExtensionObject ex_racingAPI ex_now ex_worker 0 = (None, 2)
   \<and> WaitUntilExtensionObjectDeleted (ex_client ex_gone) ex_worker ''Worker''
         5000000000 600000000000
       = Some (Returns None,
               \<lparr>dv_lastObservedError = None, dv_obj = zeroObject (GoType ex_worker)\<rparr>, 1)
   \<and> (\<exists>e'. c_Get (ex_client ex_gone) (1 - 1) (Namespace ex_worker, Name ex_worker) = Inl e'
          \<and> IsNotFound e')"
proof -
  let ?ob2 = "SetMetaDataAnnotation (SetMetaDataAnnotation ex_worker ConfirmationDeletion ''true'')
                GardenerTimestamp (Format_RFC3339Nano ex_now)"
  let ?nf = "NotFound ''workers.extensions.gardener.cloud \"worker-1\" not found''"
  let ?gone = "\<lparr>dv_lastObservedError = None, dv_obj = zeroObject (GoType ex_worker)\<rparr>"
  note i1 = C6_not_found_is_success
              [of memAPI ex_now ex_worker emptyStore "notFound ?ob2" ?ob2 emptyStore
                  emptyStore emptyStore "ex_client ex_gone" "''Worker''" 5000000000 600000000000
                  ?gone 1]
  note i2 = C6_not_found_is_success
              [of ex_racingAPI ex_now ex_worker 0 "NotFound ''not found''" ?ob2 1
                  2 emptyStore "ex_client ex_gone" "''Worker''" 5000000000 600000000000
                  ?gone 1]
  note i3 = C6_not_found_is_success
              [of memAPI ex_now ex_worker emptyStore ?nf ?ob2 emptyStore
                  emptyStore emptyStore "ex_client ex_gone" "''Worker''" 5000000000 600000000000
                  ?gone 1]
  have h1: "ConfirmDeletion memAPI ex_now ex_worker emptyStore
              = (Some (notFound ?ob2), ?ob2, emptyStore) \<and> IsNotFound (notFound ?ob2)"
    by (simp add: ConfirmDeletion_def memAPI_def mem_Patch_def emptyStore_def Let_def
          notFound_def)
  have p1: "DeleteExtensionObject memAPI ex_now ex_worker emptyStore = (None, emptyStore)"
    by (rule mp[OF conjunct1[OF i1] h1])
  have h2: "ConfirmDeletion ex_racingAPI ex_now ex_worker 0 = (None, ?ob2, 1)
            \<and> api_Delete ex_racingAPI ?ob2 1 = (Some (NotFound ''not found''), 2)
            \<and> IsNotFound (NotFound ''not found'')"
    by (simp add: ConfirmDeletion_def ex_racingAPI_def Let_def)
  have p2: "DeleteExtensionObject ex_racingAPI ex_now ex_worker 0 = (None, 2)"
    by (rule mp[OF conjunct1[OF conjunct2[OF i2]] h2])
  have p3: "DeleteExtensionObject memAPI ex_now ex_worker emptyStore = (None, emptyStore)"
    by (rule mp[OF conjunct1[OF conjunct2[OF conjunct2[OF i3]]]]) (simp add: emptyStore_def)
  have p4: "WaitUntilExtensionObjectDeleted (ex_client ex_gone) ex_worker ''Worker''
              5000000000 600000000000 = Some (Returns None, ?gone, 1)"
    by (rule mp[OF conjunct1[OF conjunct2[OF conjunct2[OF conjunct2[OF i3]]]]])
       (simp add: ex_client_def ex_gone_def ex_worker_def zeroObject_def)
  from mp[OF conjunct2[OF conjunct2[OF conjunct2[OF conjunct2[OF i3]]]] p4]
  have p5: "\<exists>e'. c_Get (ex_client ex_gone) (1 - 1) (Namespace ex_worker, Name ex_worker) = Inl e'
              \<and> IsNotFound e'"
    by (rule conjunct2)
  from p1 p2 p4 p5 p3 show ?thesis by (intro conjI)
qed

section \<open>Time stamps written\<close>

lemma map_of_merge_keys:
  "map_of (foldr (\<lambda>k acc. case map_of m k of
                       Some v \<Rightarrow> (if map_of orig k = Some v then acc else AList.update k v acc)
                     | None \<Rightarrow> acc) ks cur) k
   = (if k \<in> set ks then
        (case map_of m k of
           Some v \<Rightarrow> (if map_of orig k = Some v then map_of cur k else Some v)
         | None \<Rightarrow> map_of cur k)
      else map_of cur k)"
  by (induction ks) (auto simp: update_conv' split: option.splits)

lemma map_of_mergeAnnotations:
  "map_of (mergeAnnotations orig m cur) k
   = (case map_of m k of
        Some v \<Rightarrow> (if map_of orig k = Some v then map_of cur k else Some v)
      | None \<Rightarrow> map_of cur k)"
proof (cases "map_of m k")
  case None
  then show ?thesis unfolding mergeAnnotations_def map_of_merge_keys by simp
next
  case (Some v)
  then have "(k, v) \<in> set m" by (rule map_of_SomeD)
  then have "k \<in> fst ` set m" by force
  with Some show ?thesis unfolding mergeAnnotations_def map_of_merge_keys by simp
qed

lemma map_of_merge_same:
  "map_of m k = Some v \<Longrightarrow> map_of (mergeAnnotations orig m orig) k = Some v"
  by (simp add: map_of_mergeAnnotations)

lemma keyOf_SetMetaDataAnnotation [simp]: "keyOf (SetMetaDataAnnotation ob k v) = keyOf ob"
  by (simp add: keyOf_def SetMetaDataAnnotation_def)

lemma map_of_SetMetaDataAnnotation [simp]:
  "map_of (Annotations (SetMetaDataAnnotation ob k v)) = (map_of (Annotations ob))(k \<mapsto> v)"
  by (simp add: SetMetaDataAnnotation_def update_conv')

lemma mem_Patch_found:
  "objects st (keyOf m) = Some cur \<Longrightarrow>
     mem_Patch m orig st
       = (Inr (applyPatch orig m cur),
          st\<lparr>objects := (objects st)(keyOf m \<mapsto> applyPatch orig m cur)\<rparr>)"
  by (simp add: mem_Patch_def Let_def)

lemma Annotations_applyPatch [simp]:
  "Annotations (applyPatch orig m cur)
     = mergeAnnotations (Annotations orig) (Annotations m) (Annotations cur)"
  by (simp add: applyPatch_def)

lemma annotate_mem:
  assumes "objects st (keyOf ob) = Some ob"
  shows "\<exists>ob' st'. AnnotateObjectWithOperation memAPI now ob operation st = (None, ob', st')
           \<and> objects st' (keyOf ob) = Some ob'
           \<and> map_of (Annotations ob') GardenerTimestamp = Some (Time_String now)"
proof -
  let ?ob2 = "SetMetaDataAnnotation (SetMetaDataAnnotation ob GardenerOperation operation)
                GardenerTimestamp (Time_String now)"
  from assms have "objects st (keyOf ?ob2) = Some ob" by simp
  from mem_Patch_found[OF this, of ob]
  have "AnnotateObjectWithOperation memAPI now ob operation st
          = (None, applyPatch ob ?ob2 ob,
             st\<lparr>objects := (objects st)(keyOf ob \<mapsto> applyPatch ob ?ob2 ob)\<rparr>)"
    by (simp add: AnnotateObjectWithOperation_def memAPI_def Let_def)
  moreover have "map_of (Annotations (applyPatch ob ?ob2 ob)) GardenerTimestamp
                   = Some (Time_String now)"
    by (simp add: map_of_merge_same)
  ultimately show ?thesis by simp
qed

lemma deploy_mem:
  assumes kf: "\<And>x. keyOf (mutate x) = keyOf x"
    and ts: "\<And>x. map_of (Annotations (mutate x)) GardenerTimestamp = Some stamp"
    and wf: "\<And>cur. objects st (keyOf ob) = Some cur \<Longrightarrow> keyOf cur = keyOf ob"
  shows "\<exists>ob' st'. GetAndCreateOrMergePatch memAPI ob mutate st = (None, ob', st')
           \<and> objects st' (keyOf ob) = Some ob'
           \<and> map_of (Annotations ob') GardenerTimestamp = Some stamp"
proof (cases "objects st (keyOf ob)")
  case None
  then have "objects st (keyOf (mutate ob)) = None" by (simp add: kf)
  then have "mem_Create (mutate ob) st
               = (None, st\<lparr>objects := (objects st)(keyOf ob \<mapsto> mutate ob)\<rparr>)"
    by (simp add: mem_Create_def kf)
  with None show ?thesis
    by (simp add: GetAndCreateOrMergePatch_def memAPI_def mem_Get_def ts)
next
  case (Some cur)
  from wf[OF Some] have kc: "keyOf cur = keyOf ob" .
  with Some have "objects st (keyOf (mutate cur)) = Some cur" by (simp add: kf)
  from mem_Patch_found[OF this, of cur]
  have "GetAndCreateOrMergePatch memAPI ob mutate st
          = (None, applyPatch cur (mutate cur) cur,
             st\<lparr>objects := (objects st)(keyOf ob \<mapsto> applyPatch cur (mutate cur) cur)\<rparr>)"
    using Some by (simp add: GetAndCreateOrMergePatch_def memAPI_def mem_Get_def kf kc)
  moreover have "map_of (Annotations (applyPatch cur (mutate cur) cur)) GardenerTimestamp
                   = Some stamp"
    by (simp add: map_of_merge_same ts)
  ultimately show ?thesis by simp
qed

lemma backupUpload_mutate_key [simp]: "keyOf (backupUpload_mutate b x) = keyOf x"
  by (simp add: backupUpload_mutate_def keyOf_def SetMetaDataAnnotation_def)

lemma backupDownload_mutate_key [simp]: "keyOf (backupDownload_mutate b x) = keyOf x"
  by (simp add: backupDownload_mutate_def keyOf_def SetMetaDataAnnotation_def)

lemma backupUpload_mutate_timestamp [simp]:
  "map_of (Annotations (backupUpload_mutate b x)) GardenerTimestamp
     = Some (Format_RFC3339Nano (b_clock b))"
  by (simp add: backupUpload_mutate_def SetMetaDataAnnotation_def update_conv')

lemma backupDownload_mutate_timestamp [simp]:
  "map_of (Annotations (backupDownload_mutate b x)) GardenerTimestamp
     = Some (Format_RFC3339Nano (b_clock b))"
  by (simp add: backupDownload_mutate_def SetMetaDataAnnotation_def update_conv')

text \<open>
  C4 (amended). The \<^verbatim>\<open>timestamp\<close> annotation that the \<^verbatim>\<open>Deploy\<close> functions of BackupUpload and
  BackupDownload write is the clock's current UTC time in the layout RFC3339Nano; the one
  that \<^verbatim>\<open>AnnotateObjectWithOperation\<close> writes is the current UTC time in the layout of Go's
  \<^verbatim>\<open>Time.String()\<close>, \<^verbatim>\<open>2006-01-02 15:04:05.999999999 -0700 MST\<close>. On the API server in
  memory: annotating an object that the server holds as the caller passes it, and deploying
  to a well-formed store, succeed and leave the object stored with that annotation.
\<close>

theorem C4_timestamp_layouts:
  "(objects st (keyOf ob) = Some ob
      \<longrightarrow> (\<exists>ob' st'. AnnotateObjectWithOperation memAPI now ob operation st = (None, ob', st')
             \<and> objects st' (keyOf ob) = Some ob'
             \<and> map_of (Annotations ob') GardenerTimestamp = Some (Time_String now)))
   \<and> (wellFormed st
      \<longrightarrow> (\<exists>ob' st'. backupUpload_Deploy memAPI b st = (None, ob', st')
             \<and> objects st' (keyOf (emptyBackupUpload b)) = Some ob'
             \<and> map_of (Annotations ob') GardenerTimestamp
                 = Some (Format_RFC3339Nano (b_clock b))))
   \<and> (wellFormed st
      \<longrightarrow> (\<exists>ob' st'. backupDownload_Deploy memAPI b st = (None, ob', st')
             \<and> objects st' (keyOf (emptyBackupDownload b)) = Some ob'
             \<and> map_of (Annotations ob') GardenerTimestamp
                 = Some (Format_RFC3339Nano (b_clock b))))"
proof (intro conjI impI)
  assume "objects st (keyOf ob) = Some ob"
  then show "\<exists>ob' st'. AnnotateObjectWithOperation memAPI now ob operation st = (None, ob', st')
             \<and> objects st' (keyOf ob) = Some ob'
             \<and> map_of (Annotations ob') GardenerTimestamp = Some (Time_String now)"
    by (rule annotate_mem)
next
  assume "wellFormed st"
  then have wf: "\<And>key cur. objects st key = Some cur \<Longrightarrow> keyOf cur = key"
    unfolding wellFormed_def by blast
  show "\<exists>ob' st'. backupUpload_Deploy memAPI b st = (None, ob', st')
             \<and> objects st' (keyOf (emptyBackupUpload b)) = Some ob'
             \<and> map_of (Annotations ob') GardenerTimestamp
                 = Some (Format_RFC3339Nano (b_clock b))"
    unfolding backupUpload_Deploy_def
    by (rule deploy_mem) (simp_all add: wf)
  show "\<exists>ob' st'. backupDownload_Deploy memAPI b st = (None, ob', st')
             \<and> objects st' (keyOf (emptyBackupDownload b)) = Some ob'
             \<and> map_of (Annotations ob') GardenerTimestamp
                 = Some (Format_RFC3339Nano (b_clock b))"
    unfolding backupDownload_Deploy_def
    by (rule deploy_mem) (simp_all add: wf)
qed

lemma ex_layouts:
  "Time_String ex_now = ''2023-03-01 10:00:00.5 +0000 UTC''"
  "Format_RFC3339Nano ex_now = ''2023-03-01T10:00:00.5Z''"
  by code_simp+

theorem C4_witness:
  "(\<exists>ob' st'. AnnotateObjectWithOperation memAPI ex_now ex_worker GardenerOperationReconcile ex_store
                = (None, ob', st')
         \<and> objects st' (keyOf ex_worker) = Some ob'
         \<and> map_of (Annotations ob') GardenerTimestamp = Some ''2023-03-01 10:00:00.5 +0000 UTC'')
   \<and> (\<exists>ob' st'. backupUpload_Deploy memAPI ex_component ex_store = (None, ob', st')
         \<and> objects st' (keyOf (emptyBackupUpload ex_component)) = Some ob'
         \<and> map_of (Annotations ob') GardenerTimestamp = Some ''2023-03-01T10:00:00.5Z'')
   \<and> (\<exists>ob' st'. backupDownload_Deploy memAPI ex_component ex_store = (None, ob', st')
         \<and> objects st' (keyOf (emptyBackupDownload ex_component)) = Some ob'
         \<and> map_of (Annotations ob') GardenerTimestamp = Some ''2023-03-01T10:00:00.5Z'')"
proof -
  note inst = C4_timestamp_layouts[of ex_store ex_worker ex_now GardenerOperationReconcile ex_component]
  have h1: "objects ex_store (keyOf ex_worker) = Some ex_worker"
    by (simp add: ex_store_def)
  have h2: "wellFormed ex_store"
    by (simp add: wellFormed_def ex_store_def emptyStore_def)
  have c: "b_clock ex_component = ex_now" by (simp add: ex_component_def)
  from mp[OF conjunct1[OF inst] h1] mp[OF conjunct1[OF conjunct2[OF inst]] h2]
       mp[OF conjunct2[OF conjunct2[OF inst]] h2]
  show ?thesis unfolding c ex_layouts by (intro conjI)
qed

theorem C4_counterexample:
  "map_of (Annotations (fst (snd (AnnotateObjectWithOperation memAPI ex_now ex_worker
                                     GardenerOperationReconcile ex_store))))
       GardenerTimestamp
     = Some ''2023-03-01 10:00:00.5 +0000 UTC''
   \<and> map_of (Annotations (fst (snd (AnnotateObjectWithOperation memAPI ex_now ex_worker
                                     GardenerOperationReconcile ex_store))))
       GardenerTimestamp
     \<noteq> Some (Format_RFC3339Nano ex_now)"
  by code_simp

section \<open>Restoring\<close>

lemma restoreResources_all_dangling:
  "\<forall>r \<in> set refs. ResourceDataList_Get list r = None
    \<Longrightarrow> restoreResources c toU list ns refs st = (None, st)"
  by (induction refs) simp_all

text \<open>
  C5 (amended). In \<^verbatim>\<open>RestoreExtensionObjectState\<close>, a resource reference of the restored
  state that the table of resource data does not resolve is skipped: nothing is created for
  it and no error is returned because of it; when none resolves, the restore returns \<^verbatim>\<open>nil\<close>
  after the status patch. When the shoot state holds the state of the object and the patch of
  the status fails, the restore returns that error; on the API server in memory this is the
  NotFound error of an extension object that does not exist.
\<close>

theorem C5_restore_errors:
  "(ExtensionResourceStateList_Get (Extensions shootState) kind (Some (Name ob)) (spec_Purpose ob)
        = Some ers
      \<and> api_StatusPatch c (ob\<lparr>status_State := ers_State ers,
                               status_Resources := ers_Resources ers\<rparr>) ob st = (Inl err, st1)
     \<longrightarrow> RestoreExtensionObjectState c toUnstructured shootState ob kind st
           = (Some err, ob\<lparr>status_State := ers_State ers,
                              status_Resources := ers_Resources ers\<rparr>, st1))
   \<and> (ExtensionResourceStateList_Get (Extensions shootState) kind (Some (Name ob)) (spec_Purpose ob)
        = Some ers
      \<and> objects store (keyOf ob) = None
     \<longrightarrow> (\<exists>e ob'. RestoreExtensionObjectState memAPI toUnstructured shootState ob kind store
                     = (Some e, ob', store) \<and> IsNotFound e))
   \<and> (ResourceDataList_Get list resourceRef = None
     \<longrightarrow> restoreResources c toUnstructured list ns (resourceRef # refs) st
           = restoreResources c toUnstructured list ns refs st)
   \<and> (ExtensionResourceStateList_Get (Extensions shootState) kind (Some (Name ob)) (spec_Purpose ob)
        = Some ers
      \<and> api_StatusPatch c (ob\<lparr>status_State := ers_State ers,
                               status_Resources := ers_Resources ers\<rparr>) ob st = (Inr stored, st1)
      \<and> (\<forall>r \<in> set (ers_Resources ers).
             ResourceDataList_Get (Resources shootState) (nr_ResourceRef r) = None)
     \<longrightarrow> RestoreExtensionObjectState c toUnstructured shootState ob kind st = (None, stored, st1))"
proof (intro conjI impI)
  assume "ExtensionResourceStateList_Get (Extensions shootState) kind (Some (Name ob)) (spec_Purpose ob)
        = Some ers
      \<and> api_StatusPatch c (ob\<lparr>status_State := ers_State ers,
                               status_Resources := ers_Resources ers\<rparr>) ob st = (Inl err, st1)"
  then show "RestoreExtensionObjectState c toUnstructured shootState ob kind st
           = (Some err, ob\<lparr>status_State := ers_State ers,
                              status_Resources := ers_Resources ers\<rparr>, st1)"
    by (simp add: RestoreExtensionObjectState_def Let_def)
next
  assume "ExtensionResourceStateList_Get (Extensions shootState) kind (Some (Name ob)) (spec_Purpose ob)
        = Some ers
      \<and> objects store (keyOf ob) = None"
  then show "\<exists>e ob'. RestoreExtensionObjectState memAPI toUnstructured shootState ob kind store
                     = (Some e, ob', store) \<and> IsNotFound e"
    by (simp add: RestoreExtensionObjectState_def Let_def memAPI_def mem_StatusPatch_def
          keyOf_def notFound_def)
next
  assume "ResourceDataList_Get list resourceRef = None"
  then show "restoreResources c toUnstructured list ns (resourceRef # refs) st
           = restoreResources c toUnstructured list ns refs st"
    by simp
next
  assume a: "ExtensionResourceStateList_Get (Extensions shootState) kind (Some (Name ob)) (spec_Purpose ob)
        = Some ers
      \<and> api_StatusPatch c (ob\<lparr>status_State := ers_State ers,
                               status_Resources := ers_Resources ers\<rparr>) ob st = (Inr stored, st1)
      \<and> (\<forall>r \<in> set (ers_Resources ers).
             ResourceDataList_Get (Resources shootState) (nr_ResourceRef r) = None)"
  then have "\<forall>r \<in> set (map nr_ResourceRef (ers_Resources ers)).
               ResourceDataList_Get (Resources shootState) r = None" by simp
  from restoreResources_all_dangling[OF this]
  have "restoreResources c toUnstructured (Resources shootState) (Namespace stored)
          (map nr_ResourceRef (ers_Resources ers)) st1 = (None, st1)" .
  with a show "RestoreExtensionObjectState c toUnstructured shootState ob kind st
                 = (None, stored, st1)"
    by (simp add: RestoreExtensionObjectState_def Let_def)
qed

theorem C5_counterexample:
  "fst (RestoreExtensionObjectState memAPI Inr ex_dangling ex_worker ''Worker'' ex_store) = None
   \<and> map nr_ResourceRef (status_Resources
         (fst (snd (RestoreExtensionObjectState memAPI Inr ex_dangling ex_worker ''Worker''
                      ex_store)))) = [ex_ref]
   \<and> ResourceDataList_Get (Resources ex_dangling) ex_ref = None"
  by code_simp

theorem C5_witness:
  "RestoreExtensionObjectState memAPI Inr ex_dangling ex_worker ''Worker'' emptyStore
     = (Some (notFound ex_worker),
        ex_worker\<lparr>status_State := ers_State ex_worker_state,
                    status_Resources := ers_Resources ex_worker_state\<rparr>, emptyStore)
   \<and> (\<exists>e ob'. RestoreExtensionObjectState memAPI Inr ex_dangling ex_worker ''Worker'' emptyStore
                 = (Some e, ob', emptyStore) \<and> IsNotFound e)
   \<and> restoreResources memAPI Inr [] ''shoot--foo--bar'' [ex_ref] ex_store
       = restoreResources memAPI Inr [] ''shoot--foo--bar'' [] ex_store
   \<and> RestoreExtensionObjectState memAPI Inr ex_dangling ex_worker ''Worker'' ex_store
       = (None,
          applyStatusPatch ex_worker
            (ex_worker\<lparr>status_State := ers_State ex_worker_state,
                         status_Resources := ers_Resources ex_worker_state\<rparr>) ex_worker,
          ex_store\<lparr>objects := (objects ex_store)
             (keyOf ex_worker \<mapsto>
                applyStatusPatch ex_worker
                  (ex_worker\<lparr>status_State := ers_State ex_worker_state,
                               status_Resources := ers_Resources ex_worker_state\<rparr>)
                  ex_worker)\<rparr>)"
proof -
  let ?m = "ex_worker\<lparr>status_State := ers_State ex_worker_state,
                        status_Resources := ers_Resources ex_worker_state\<rparr>"
  let ?stored = "applyStatusPatch ex_worker ?m ex_worker"
  let ?st1 = "ex_store\<lparr>objects := (objects ex_store)(keyOf ex_worker \<mapsto> ?stored)\<rparr>"
  have g: "ExtensionResourceStateList_Get (Extensions ex_dangling) ''Worker''
             (Some (Name ex_worker)) (spec_Purpose ex_worker) = Some ex_worker_state"
    by (simp add: ExtensionResourceStateList_Get_def getBy_def ex_dangling_def ers_identity_def
          ex_worker_state_def ex_worker_def zeroObject_def)
  have k: "keyOf ?m = keyOf ex_worker" by (simp add: keyOf_def)
  have nf: "notFound ?m = notFound ex_worker" by (simp add: notFound_def)
  have h1: "api_StatusPatch memAPI ?m ex_worker emptyStore = (Inl (notFound ex_worker), emptyStore)"
    by (simp add: memAPI_def mem_StatusPatch_def k emptyStore_def notFound_def)
  have h2: "objects emptyStore (keyOf ex_worker) = None" by (simp add: emptyStore_def)
  have h3: "ResourceDataList_Get [] ex_ref = None"
    by (simp add: ResourceDataList_Get_def getBy_def)
  have h4: "api_StatusPatch memAPI ?m ex_worker ex_store = (Inr ?stored, ?st1)"
    by (simp add: memAPI_def mem_StatusPatch_def k ex_store_def Let_def)
  have h5: "\<forall>r \<in> set (ers_Resources ex_worker_state).
              ResourceDataList_Get (Resources ex_dangling) (nr_ResourceRef r) = None"
    by (simp add: ex_dangling_def ResourceDataList_Get_def getBy_def)
  note i1 = C5_restore_errors[of ex_dangling "''Worker''" ex_worker ex_worker_state memAPI
              emptyStore "notFound ex_worker" emptyStore Inr emptyStore "[]" ex_ref
              "''shoot--foo--bar''" "[]" ?stored]
  note i2 = C5_restore_errors[of ex_dangling "''Worker''" ex_worker ex_worker_state memAPI
              ex_store "notFound ex_worker" ?st1 Inr emptyStore "[]" ex_ref
              "''shoot--foo--bar''" "[]" ?stored]
  from mp[OF conjunct1[OF i1] conjI[OF g h1]]
       mp[OF conjunct1[OF conjunct2[OF i1]] conjI[OF g h2]]
       mp[OF conjunct1[OF conjunct2[OF conjunct2[OF i2]]] h3]
       mp[OF conjunct2[OF conjunct2[OF conjunct2[OF i2]]] conjI[OF g conjI[OF h4 h5]]]
  show ?thesis by (intro conjI)
qed

section \<open>The cipher feedback mode\<close>

lemma xor_twice: "length xs \<le> length ys \<Longrightarrow> map2 (XOR) (map2 (XOR) xs ys) ys = (xs :: bytes)"
proof (induction xs arbitrary: ys)
  case Nil
  then show ?case by simp
next
  case (Cons x xs)
  then obtain y ys' where "ys = y # ys'" by (cases ys) auto
  with Cons show ?case by (simp add: xor.assoc)
qed

lemma length_cfbEncrypt:
  "\<forall>b. length (E b) = BlockSize \<Longrightarrow> length (cfbEncrypt E prev src) = length src"
proof (induction E prev src rule: cfbEncrypt.induct)
  case (1 E prev src)
  show ?case
  proof (cases "src = []")
    case True
    then show ?thesis by (simp add: cfbEncrypt.simps)
  next
    case False
    let ?c = "map2 (XOR) (take BlockSize src) (E prev)"
    from 1(2) have lc: "length ?c = min (length src) BlockSize" by simp
    from 1(1)[OF False refl 1(2)]
    have "length (cfbEncrypt E ?c (drop BlockSize src)) = length (drop BlockSize src)" .
    with False lc show ?thesis
      by (subst cfbEncrypt.simps) (simp add: Let_def)
  qed
qed

lemma cfb_roundtrip:
  "\<forall>b. length (E b) = BlockSize \<Longrightarrow> cfbDecrypt E prev (cfbEncrypt E prev src) = src"
proof (induction E prev src rule: cfbEncrypt.induct)
  case (1 E prev src)
  show ?case
  proof (cases "src = []")
    case True
    then show ?thesis by (simp add: cfbEncrypt.simps cfbDecrypt.simps)
  next
    case False
    let ?c = "map2 (XOR) (take BlockSize src) (E prev)"
    let ?rest = "cfbEncrypt E ?c (drop BlockSize src)"
    from 1(2) have lc: "length ?c = min (length src) BlockSize" by simp
    have enc: "cfbEncrypt E prev src = ?c @ ?rest"
      using False by (subst cfbEncrypt.simps) (simp add: Let_def)
    have lrest: "length ?rest = length src - BlockSize"
      using length_cfbEncrypt[OF 1(2)] by simp
    have tk: "take BlockSize (?c @ ?rest) = ?c"
      using lc lrest by (cases "length src \<le> BlockSize") (simp_all add: min_def)
    have dr: "drop BlockSize (?c @ ?rest) = ?rest"
      using lc lrest by (cases "length src \<le> BlockSize") (simp_all add: min_def)
    have "length ?c \<noteq> 0" using False lc by (simp add: BlockSize_def)
    then have ne: "?c @ ?rest \<noteq> []" by (metis append_is_Nil_conv length_0_conv)
    have x: "map2 (XOR) ?c (E prev) = take BlockSize src"
      by (rule xor_twice) (simp add: 1(2))
    from 1(1)[OF False refl 1(2)] have ih: "cfbDecrypt E ?c ?rest = drop BlockSize src" .
    have "cfbDecrypt E prev (?c @ ?rest)
            = map2 (XOR) (take BlockSize (?c @ ?rest)) (E prev)
              @ cfbDecrypt E (take BlockSize (?c @ ?rest)) (drop BlockSize (?c @ ?rest))"
      by (subst cfbDecrypt.simps) (simp only: ne if_False)
    also have "\<dots> = map2 (XOR) ?c (E prev) @ cfbDecrypt E ?c ?rest"
      by (simp only: tk dr)
    also have "\<dots> = take BlockSize src @ drop BlockSize src"
      by (simp only: x ih)
    finally show ?thesis by (simp only: enc append_take_drop_id)
  qed
qed

lemma length_cipherKey: "length cipherKey = 32"
  by (simp add: cipherKey_def)

lemma NewCipher_cipherKey: "NewCipher cipherKey = None"
  by (simp add: NewCipher_def length_cipherKey)

lemma ReadFull_length: "ReadFull rnd n = Inr iv \<Longrightarrow> length iv = n"
  by (auto simp: ReadFull_def split: sum.splits if_splits)

text \<open>
  C10. For every byte slice \<open>d\<close> and the fixed 32-byte key, with a block cipher that writes
  16-byte blocks: when the random source delivers the 16 bytes of the IV, \<^verbatim>\<open>encrypt\<close> returns a
  ciphertext that starts with the IV; every ciphertext that \<^verbatim>\<open>encrypt\<close> returns is exactly 16
  bytes longer than \<open>d\<close> and \<^verbatim>\<open>decrypt\<close> returns \<open>d\<close> for it; and \<^verbatim>\<open>decrypt\<close> returns an error
  exactly when its input is shorter than 16 bytes.
\<close>

theorem C10_encrypt_decrypt_roundtrip:
  assumes "\<forall>k b. length (aes k b) = BlockSize"
  shows
    "(ReadFull rnd BlockSize = Inr iv
       \<longrightarrow> (\<exists>c. encrypt aes rnd cipherKey d = Inr c \<and> take 16 c = iv))
     \<and> (encrypt aes rnd cipherKey d = Inr c
       \<longrightarrow> length c = length d + 16 \<and> decrypt aes cipherKey c = Inr d)
     \<and> ((\<exists>e. decrypt aes cipherKey x = Inl e) \<longleftrightarrow> length x < 16)"
proof (intro conjI impI)
  assume r: "ReadFull rnd BlockSize = Inr iv"
  from ReadFull_length[OF r] have "length iv = 16" by (simp add: BlockSize_def)
  with r show "\<exists>c. encrypt aes rnd cipherKey d = Inr c \<and> take 16 c = iv"
    by (simp add: encrypt_def NewCipher_cipherKey)
next
  assume e: "encrypt aes rnd cipherKey d = Inr c"
  then obtain iv where r: "ReadFull rnd BlockSize = Inr iv"
    and c: "c = iv @ cfbEncrypt (aes cipherKey) iv d"
    by (auto simp: encrypt_def NewCipher_cipherKey split: sum.splits)
  from ReadFull_length[OF r] have liv: "length iv = BlockSize" .
  from assms have blk: "\<forall>b. length (aes cipherKey b) = BlockSize" by simp
  show "length c = length d + 16"
    using c liv length_cfbEncrypt[OF blk] by (simp add: BlockSize_def)
  show "decrypt aes cipherKey c = Inr d"
    using c liv cfb_roundtrip[OF blk] by (simp add: decrypt_def NewCipher_cipherKey)
next
  show "(\<exists>e. decrypt aes cipherKey x = Inl e) \<longleftrightarrow> length x < 16"
    by (simp add: decrypt_def NewCipher_cipherKey BlockSize_def)
qed

theorem C10_witness:
  "(\<exists>c. encrypt ex_block (Inr ex_random) cipherKey ex_plaintext = Inr c
        \<and> take 16 c = take 16 ex_random)
   \<and> (\<exists>c. encrypt ex_block (Inr ex_random) cipherKey ex_plaintext = Inr c
        \<and> length c = length ex_plaintext + 16 \<and> decrypt ex_block cipherKey c = Inr ex_plaintext)"
proof -
  have blk: "\<forall>k b. length (ex_block k b) = BlockSize"
    by (simp add: ex_block_def BlockSize_def min_def)
  note inst = C10_encrypt_decrypt_roundtrip[OF blk, of "Inr ex_random" "take 16 ex_random" ex_plaintext]
  have r: "ReadFull (Inr ex_random) BlockSize = Inr (take 16 ex_random)"
    by (simp add: ReadFull_def BlockSize_def ex_random_def)
  from mp[OF conjunct1[OF inst] r]
  have p1: "\<exists>c. encrypt ex_block (Inr ex_random) cipherKey ex_plaintext = Inr c
        \<and> take 16 c = take 16 ex_random" .
  then obtain c where c: "encrypt ex_block (Inr ex_random) cipherKey ex_plaintext = Inr c" by blast
  from mp[OF conjunct1[OF conjunct2[OF C10_encrypt_decrypt_roundtrip[OF blk]]] c] c
  have p2: "\<exists>c. encrypt ex_block (Inr ex_random) cipherKey ex_plaintext = Inr c
        \<and> length c = length ex_plaintext + 16 \<and> decrypt ex_block cipherKey c = Inr ex_plaintext"
    by blast
  from p1 p2 show ?thesis by (rule conjI)
qed

section \<open>Upserting\<close>

lemma getBy_upsertBy:
  "getBy ident k (upsertBy ident x xs) = (if ident x = k then Some x else getBy ident k xs)"
  by (induction xs) (auto simp: getBy_def)

lemma set_ident_upsertBy:
  "set (map ident (upsertBy ident x xs)) = insert (ident x) (set (map ident xs))"
  by (induction xs) auto

lemma image_ident_upsertBy:
  "ident ` set (upsertBy ident x xs) = insert (ident x) (ident ` set xs)"
  using set_ident_upsertBy [of ident x xs] by simp

lemma distinct_upsertBy:
  "distinct (map ident xs) \<Longrightarrow> distinct (map ident (upsertBy ident x xs))"
proof (induction xs)
  case Nil
  then show ?case by simp
next
  case (Cons y ys)
  show ?case
  proof (cases "ident y = ident x")
    case True
    with Cons.prems show ?thesis by simp
  next
    case False
    from Cons have d: "distinct (map ident (upsertBy ident x ys))" by simp
    from Cons.prems have "ident y \<notin> set (map ident ys)" by simp
    with False have "ident y \<notin> set (map ident (upsertBy ident x ys))"
      unfolding set_ident_upsertBy by simp
    with d False show ?thesis by simp
  qed
qed

lemma getBy_None_iff: "getBy ident k xs = None \<longleftrightarrow> k \<notin> set (map ident xs)"
  by (induction xs) (auto simp: getBy_def)

lemma lastWith_Nil [simp]: "lastWith ident k [] = None"
  by (simp add: lastWith_def last_opt_def)

lemma lastWith_snoc:
  "lastWith ident k (xs @ [x]) = (if ident x = k then Some x else lastWith ident k xs)"
  by (simp add: lastWith_def last_opt_def)

lemma lastWith_append:
  "lastWith ident k (xs @ ys)
     = (case lastWith ident k ys of Some e \<Rightarrow> Some e | None \<Rightarrow> lastWith ident k xs)"
  by (simp add: lastWith_def last_opt_def)

lemma lastWith_Cons:
  "lastWith ident k (x # xs)
     = (case lastWith ident k xs of Some e \<Rightarrow> Some e
        | None \<Rightarrow> (if ident x = k then Some x else None))"
  using lastWith_append[of ident k "[x]" xs] by (simp add: lastWith_def last_opt_def)

lemma lastWith_None_iff: "lastWith ident k xs = None \<longleftrightarrow> k \<notin> set (map ident xs)"
  by (auto simp: lastWith_def last_opt_def filter_empty_conv)

section \<open>The loops that compute the ShootState\<close>

lemma gardenerDataLoop_distinct:
  "gardenerDataLoop marshal secrets acc = Inr result \<Longrightarrow> distinct (map grd_Name acc)
    \<Longrightarrow> distinct (map grd_Name result)"
proof (induction secrets arbitrary: acc)
  case Nil
  then show ?case by simp
next
  case (Cons s secrets)
  from Cons.prems(1) obtain j where j: "marshal (sec_Data s) = Inr j"
    by (auto split: sum.splits)
  with Cons.prems(1)
  have "gardenerDataLoop marshal secrets
          (GardenerResourceDataList_Upsert
             \<lparr>grd_Name = sec_Name s, grd_Type = ''secret'', grd_Data = j,
              grd_Labels = sec_Labels s\<rparr> acc) = Inr result" by simp
  then show ?case
    by (rule Cons.IH)
       (simp add: GardenerResourceDataList_Upsert_def distinct_upsertBy Cons.prems(2))
qed

lemma gardenerDataLoop_get:
  "gardenerDataLoop marshal secrets acc = Inr result \<Longrightarrow>
     getBy grd_Name n result
       = (case lastWith sec_Name n secrets of
            None \<Rightarrow> getBy grd_Name n acc
          | Some s \<Rightarrow>
              (case marshal (sec_Data s) of
                 Inl err \<Rightarrow> None
               | Inr j \<Rightarrow> Some \<lparr>grd_Name = sec_Name s, grd_Type = ''secret'', grd_Data = j,
                                grd_Labels = sec_Labels s\<rparr>))"
proof (induction secrets arbitrary: acc)
  case Nil
  then show ?case by simp
next
  case (Cons s secrets)
  from Cons.prems(1) obtain j where j: "marshal (sec_Data s) = Inr j"
    by (auto split: sum.splits)
  let ?g = "\<lparr>grd_Name = sec_Name s, grd_Type = ''secret'', grd_Data = j,
             grd_Labels = sec_Labels s\<rparr>"
  from j Cons.prems(1)
  have "gardenerDataLoop marshal secrets (GardenerResourceDataList_Upsert ?g acc) = Inr result"
    by simp
  from Cons.IH[OF this] j show ?case
    by (auto simp: lastWith_Cons GardenerResourceDataList_Upsert_def getBy_upsertBy
             split: option.splits)
qed

lemma resourcesLoop_distinct:
  "resourcesLoop g f ns news rs = Inr rs' \<Longrightarrow> distinct (map rd_Ref rs)
    \<Longrightarrow> distinct (map rd_Ref rs')"
proof (induction news arbitrary: rs)
  case Nil
  then show ?case by simp
next
  case (Cons r news)
  from Cons.prems(1) obtain u raw where u: "g (nr_ResourceRef r) = Inr u" "f u = Inr raw"
    by (auto split: sum.splits)
  with Cons.prems(1)
  have "resourcesLoop g f ns news
          (ResourceDataList_Upsert \<lparr>rd_Ref = nr_ResourceRef r, rd_Data = raw\<rparr> rs) = Inr rs'"
    by simp
  then show ?case
    by (rule Cons.IH) (simp add: ResourceDataList_Upsert_def distinct_upsertBy Cons.prems(2))
qed

lemma resourcesLoop_refs:
  "resourcesLoop g f ns news rs = Inr rs' \<Longrightarrow>
     set (map rd_Ref rs') = set (map rd_Ref rs) \<union> nr_ResourceRef ` set news"
proof (induction news arbitrary: rs)
  case Nil
  then show ?case by simp
next
  case (Cons r news)
  from Cons.prems(1) obtain u raw where u: "g (nr_ResourceRef r) = Inr u" "f u = Inr raw"
    by (auto split: sum.splits)
  with Cons.prems(1)
  have "resourcesLoop g f ns news
          (ResourceDataList_Upsert \<lparr>rd_Ref = nr_ResourceRef r, rd_Data = raw\<rparr> rs) = Inr rs'"
    by simp
  from Cons.IH[OF this] show ?case
    by (simp add: ResourceDataList_Upsert_def image_ident_upsertBy)
qed

lemma liveRefs_simps [simp]:
  "liveRefs [] = {}"
  "liveRefs (e # es) = nr_ResourceRef ` set (ers_Resources e) \<union> liveRefs es"
  "liveRefs (xs @ ys) = liveRefs xs \<union> liveRefs ys"
  by (auto simp: liveRefs_def)

lemma eachListItem_inv:
  "eachListItem g f ns kind items (dl, rs) = Inr (dl', rs') \<Longrightarrow>
     (distinct (map ers_identity dl) \<longrightarrow> distinct (map ers_identity dl'))
     \<and> (distinct (map rd_Ref rs) \<longrightarrow> distinct (map rd_Ref rs'))
     \<and> (\<forall>i. getBy ers_identity i dl'
              = (case lastWith ers_identity i (liveOf kind items) of
                   Some e \<Rightarrow> Some e | None \<Rightarrow> getBy ers_identity i dl))
     \<and> set (map rd_Ref rs') = set (map rd_Ref rs) \<union> liveRefs (liveOf kind items)"
proof (induction items arbitrary: dl rs)
  case Nil
  then show ?case by (simp add: liveOf_def)
next
  case (Cons ob items)
  show ?case
  proof (cases "DeletionTimestamp ob = None")
    case False
    with Cons.prems have "eachListItem g f ns kind items (dl, rs) = Inr (dl', rs')" by simp
    from Cons.IH[OF this] False show ?thesis by (auto simp: liveOf_def)
  next
    case True
    let ?dl1 = "ExtensionResourceStateList_Upsert (ers_of kind ob) dl"
    from True Cons.prems obtain rs1 where
      r: "resourcesLoop g f ns (status_Resources ob) rs = Inr rs1"
      and rest: "eachListItem g f ns kind items (?dl1, rs1) = Inr (dl', rs')"
      by (auto simp: Let_def ers_of_def split: sum.splits)
    note ih = Cons.IH[OF rest]
    have lo: "liveOf kind (ob # items) = ers_of kind ob # liveOf kind items"
      using True by (simp add: liveOf_def)
    have d1: "distinct (map ers_identity dl) \<longrightarrow> distinct (map ers_identity dl')"
      using ih by (simp add: ExtensionResourceStateList_Upsert_def distinct_upsertBy)
    have d2: "distinct (map rd_Ref rs) \<longrightarrow> distinct (map rd_Ref rs')"
      using ih resourcesLoop_distinct[OF r] by blast
    have g1: "\<forall>i. getBy ers_identity i dl'
              = (case lastWith ers_identity i (liveOf kind (ob # items)) of
                   Some e \<Rightarrow> Some e | None \<Rightarrow> getBy ers_identity i dl)"
      using ih
      by (auto simp: lo lastWith_Cons ExtensionResourceStateList_Upsert_def getBy_upsertBy
               split: option.splits)
    have s1: "set (map rd_Ref rs') = set (map rd_Ref rs) \<union> liveRefs (liveOf kind (ob # items))"
      using ih resourcesLoop_refs[OF r] by (auto simp: lo ers_of_def)
    from d1 d2 g1 s1 show ?thesis by blast
  qed
qed

lemma liveListed_Cons:
  "liveListed listKind (k # kinds)
     = (case listKind k of Inl err \<Rightarrow> [] | Inr items \<Rightarrow> liveOf k items) @ liveListed listKind kinds"
  by (simp add: liveListed_def)

lemma kindsLoop_inv:
  "kindsLoop listKind g f ns kinds (dl, rs) = Inr (dl', rs') \<Longrightarrow>
     (distinct (map ers_identity dl) \<longrightarrow> distinct (map ers_identity dl'))
     \<and> (distinct (map rd_Ref rs) \<longrightarrow> distinct (map rd_Ref rs'))
     \<and> (\<forall>i. getBy ers_identity i dl'
              = (case lastWith ers_identity i (liveListed listKind kinds) of
                   Some e \<Rightarrow> Some e | None \<Rightarrow> getBy ers_identity i dl))
     \<and> set (map rd_Ref rs') = set (map rd_Ref rs) \<union> liveRefs (liveListed listKind kinds)"
proof (induction kinds arbitrary: dl rs)
  case Nil
  then show ?case by (simp add: liveListed_def)
next
  case (Cons k kinds)
  from Cons.prems obtain items dl1 rs1 where
    l: "listKind k = Inr items"
    and e: "eachListItem g f ns k items (dl, rs) = Inr (dl1, rs1)"
    and rest: "kindsLoop listKind g f ns kinds (dl1, rs1) = Inr (dl', rs')"
    by (auto split: sum.splits)
  note ih = Cons.IH[OF rest]
  note ei = eachListItem_inv[OF e]
  have ll: "liveListed listKind (k # kinds) = liveOf k items @ liveListed listKind kinds"
    using l by (simp add: liveListed_Cons)
  have d1: "distinct (map ers_identity dl) \<longrightarrow> distinct (map ers_identity dl')"
    using ih ei by blast
  have d2: "distinct (map rd_Ref rs) \<longrightarrow> distinct (map rd_Ref rs')"
    using ih ei by blast
  have g1: "\<forall>i. getBy ers_identity i dl'
              = (case lastWith ers_identity i (liveListed listKind (k # kinds)) of
                   Some e \<Rightarrow> Some e | None \<Rightarrow> getBy ers_identity i dl)"
    using ih ei by (auto simp: ll lastWith_append split: option.splits)
  have s1: "set (map rd_Ref rs') = set (map rd_Ref rs) \<union> liveRefs (liveListed listKind (k # kinds))"
    using ih ei by (auto simp: ll)
  from d1 d2 g1 s1 show ?case by blast
qed

lemma liveListed_identities:
  "(\<forall>k \<in> set kinds. \<exists>items. listKind k = Inr items) \<Longrightarrow>
     set (map ers_identity (liveListed listKind kinds)) = liveIdentities listKind kinds"
  by (auto simp: liveListed_def liveIdentities_def liveOf_def ers_identity_def ers_of_def
           split: sum.splits) force+

lemma gardenerDataLoop_marshal:
  "gardenerDataLoop marshal secrets acc = Inr result \<Longrightarrow> s \<in> set secrets
    \<Longrightarrow> \<exists>j. marshal (sec_Data s) = Inr j"
  by (induction secrets arbitrary: acc) (auto split: sum.splits)

lemma lastWith_SomeD: "lastWith ident k xs = Some x \<Longrightarrow> x \<in> set xs \<and> ident x = k"
proof (induction xs rule: rev_induct)
  case Nil
  then show ?case by simp
next
  case (snoc y ys)
  then show ?case by (auto simp: lastWith_snoc split: if_splits)
qed

lemma kindsLoop_lists:
  "kindsLoop listKind g f ns kinds acc = Inr result \<Longrightarrow> k \<in> set kinds
    \<Longrightarrow> \<exists>items. listKind k = Inr items"
  by (induction kinds arbitrary: acc) (auto split: sum.splits)

lemma gardener_inv:
  assumes "gardenerDataLoop marshal items [] = Inr gardener"
  shows "distinct (map grd_Name gardener)"
    and "map_option (\<lambda>g. (grd_Name g, grd_Type g, grd_Labels g, Inr (grd_Data g)))
           (getBy grd_Name n gardener)
         = map_option (\<lambda>s. (sec_Name s, ''secret'', sec_Labels s, marshal (sec_Data s)))
             (lastWith sec_Name n items)"
proof -
  show "distinct (map grd_Name gardener)"
    using gardenerDataLoop_distinct[OF assms] by simp
  show "map_option (\<lambda>g. (grd_Name g, grd_Type g, grd_Labels g, Inr (grd_Data g)))
           (getBy grd_Name n gardener)
         = map_option (\<lambda>s. (sec_Name s, ''secret'', sec_Labels s, marshal (sec_Data s)))
             (lastWith sec_Name n items)"
  proof (cases "lastWith sec_Name n items")
    case None
    with gardenerDataLoop_get[OF assms, of n] show ?thesis by (simp add: getBy_def)
  next
    case (Some s)
    from lastWith_SomeD[OF Some] gardenerDataLoop_marshal[OF assms]
    obtain j where "marshal (sec_Data s) = Inr j" by blast
    with gardenerDataLoop_get[OF assms, of n] Some show ?thesis by simp
  qed
qed

text \<open>
  C9. When the ShootState for the backup upload is computed without error, its list of
  extension states has exactly the identities (kind, name, purpose) of the listed extension
  objects without deletion timestamp. Each of the three lists has at most one entry per
  identity: the persisted secrets per name, the extension states per kind, name and purpose,
  the resource data per object reference. The later entry wins: the extension state found
  under an identity is the projection of the last listed live object with this identity, and
  the secret data found under a name is that of the last listed secret with this name. The
  resource data are those of the references that the listed live objects name.
\<close>

theorem C9_snapshot_lists_are_keyed_upserts:
  assumes "computeShootStateSpecForBackupUpload listSecrets marshal listKind getObjectByRef
             fromUnstructured seedNamespace kinds = Inr spec"
  shows "set (map ers_identity (Extensions spec)) = liveIdentities listKind kinds
       \<and> distinct (map grd_Name (Gardener spec))
       \<and> distinct (map ers_identity (Extensions spec))
       \<and> distinct (map rd_Ref (Resources spec))
       \<and> (\<forall>i. getBy ers_identity i (Extensions spec)
                = lastWith ers_identity i (liveListed listKind kinds))
       \<and> (\<exists>items. listSecrets = Inr items
            \<and> (\<forall>n. map_option (\<lambda>g. (grd_Name g, grd_Type g, grd_Labels g, Inr (grd_Data g)))
                      (getBy grd_Name n (Gardener spec))
                    = map_option (\<lambda>s. (sec_Name s, ''secret'', sec_Labels s, marshal (sec_Data s)))
                        (lastWith sec_Name n items)))
       \<and> set (map rd_Ref (Resources spec)) = liveRefs (liveListed listKind kinds)"
proof -
  from assms obtain items gardener extensions resources where
    ls: "listSecrets = Inr items"
    and g: "gardenerDataLoop marshal items [] = Inr gardener"
    and k: "kindsLoop listKind getObjectByRef fromUnstructured seedNamespace kinds ([], [])
              = Inr (extensions, resources)"
    and spec: "spec = \<lparr>Gardener = gardener, Extensions = extensions, Resources = resources\<rparr>"
    by (auto simp: computeShootStateSpecForBackupUpload_def computeShootStateGardenerData_def
                   computeShootStateExtensionsDataAndResources_def
             split: sum.splits)
  note ki = kindsLoop_inv[OF k]
  have get: "\<forall>i. getBy ers_identity i extensions
                = lastWith ers_identity i (liveListed listKind kinds)"
    using ki by (auto simp: getBy_def split: option.splits)
  have "\<forall>k \<in> set kinds. \<exists>items. listKind k = Inr items"
    using kindsLoop_lists[OF k] by blast
  from liveListed_identities[OF this]
  have li: "liveIdentities listKind kinds = set (map ers_identity (liveListed listKind kinds))"
    by simp
  have ids: "set (map ers_identity extensions) = liveIdentities listKind kinds"
  proof -
    have "i \<in> set (map ers_identity extensions)
            \<longleftrightarrow> i \<in> set (map ers_identity (liveListed listKind kinds))" for i
      using get getBy_None_iff[of ers_identity i extensions]
            lastWith_None_iff[of ers_identity i "liveListed listKind kinds"]
      by metis
    then show ?thesis unfolding li by blast
  qed
  have d1: "distinct (map grd_Name gardener)" by (rule gardener_inv(1)[OF g])
  have d2: "distinct (map ers_identity extensions)" using ki by simp
  have d3: "distinct (map rd_Ref resources)" using ki by simp
  have gd: "\<forall>n. map_option (\<lambda>g. (grd_Name g, grd_Type g, grd_Labels g, Inr (grd_Data g)))
                      (getBy grd_Name n gardener)
                    = map_option (\<lambda>s. (sec_Name s, ''secret'', sec_Labels s, marshal (sec_Data s)))
                        (lastWith sec_Name n items)"
    using gardener_inv(2)[OF g] by blast
  have rs: "set (map rd_Ref resources) = liveRefs (liveListed listKind kinds)"
    using ki by simp
  from ids d1 d2 d3 get ls gd rs show ?thesis unfolding spec by simp
qed

theorem C9_witness:
  "computeShootStateSpecForBackupUpload (Inr ex_secrets) ex_marshal ex_listKind
       ex_getObjectByRef Inr ''shoot--foo--bar'' extensionKinds = Inr ex_snapshot
   \<and> set (map ers_identity (Extensions ex_snapshot)) = liveIdentities ex_listKind extensionKinds
   \<and> distinct (map grd_Name (Gardener ex_snapshot))
   \<and> distinct (map ers_identity (Extensions ex_snapshot))
   \<and> distinct (map rd_Ref (Resources ex_snapshot))
   \<and> (\<forall>i. getBy ers_identity i (Extensions ex_snapshot)
            = lastWith ers_identity i (liveListed ex_listKind extensionKinds))
   \<and> set (map rd_Ref (Resources ex_snapshot)) = liveRefs (liveListed ex_listKind extensionKinds)"
proof -
  have run: "computeShootStateSpecForBackupUpload (Inr ex_secrets) ex_marshal ex_listKind
       ex_getObjectByRef Inr ''shoot--foo--bar'' extensionKinds = Inr ex_snapshot"
    by (simp add: computeShootStateSpecForBackupUpload_def computeShootStateGardenerData_def
          computeShootStateExtensionsDataAndResources_def extensionKinds_def ex_secrets_def
          ex_marshal_def ex_listKind_def ex_getObjectByRef_def ex_snapshot_def ex_worker_def
          zeroObject_def GardenerResourceDataList_Upsert_def ResourceDataList_Upsert_def
          ExtensionResourceStateList_Upsert_def ers_identity_def ex_ref_def)
  note inst = C9_snapshot_lists_are_keyed_upserts [OF run]
  from run inst show ?thesis by blast
qed

section \<open>The download of the ShootState backup\<close>

lemma andThen_nil_iff:
  "andThen a b w = Some (Returns None, w')
    \<longleftrightarrow> (\<exists>w1. a w = Some (Returns None, w1) \<and> b w1 = Some (Returns None, w'))"
  by (auto simp: andThen_def split: option.splits outcome.splits prod.splits)

lemma recordOp_iff:
  "recordOp ev f wt = Some (out, wt')
    \<longleftrightarrow> (\<exists>w'. f (fst wt) = Some (out, w') \<and> wt' = (w', snd wt @ [(ev, w')]))"
  by (auto simp: recordOp_def split: option.splits prod.splits)

text \<open>The order of the calls of a download that returns \<^verbatim>\<open>nil\<close>, for every deployer.\<close>

lemma driver_trace:
  assumes "DownloadShootStateBackup (Some provider) backupEntryName seedNamespace now
             (\<lambda>b. recorded (New b)) (\<lambda>b. recordedGetData (GetData b)) (recordedLoad load)
             (w, []) = Some (Returns None, wt)"
    and b: "b = \<lparr>b_namespace = seedNamespace, b_clock = now,
                  b_values = shootStateValues provider backupEntryName,
                  waitInterval = DefaultInterval,
                  waitSevereThreshold = DefaultSevereThreshold,
                  waitTimeout = DefaultTimeout\<rparr>"
  shows "\<exists>w1 w2 w3 w4 w5 w6 w7 data.
           dw_Destroy (New b) w = Some (Returns None, w1)
         \<and> dw_WaitCleanup (New b) w1 = Some (Returns None, w2)
         \<and> dw_Deploy (New b) w2 = Some (Returns None, w3)
         \<and> dw_Wait (New b) w3 = Some (Returns None, w4)
         \<and> GetData b w4 = (data, w5)
         \<and> load data w5 = Some (Returns None, w6)
         \<and> dw_Destroy (New b) w6 = Some (Returns None, w7)
         \<and> dw_WaitCleanup (New b) w7 = Some (Returns None, fst wt)
         \<and> snd wt = [(EvDestroy, w1), (EvWaitCleanup, w2), (EvDeploy, w3), (EvWait, w4),
                      (EvGetData data, w5), (EvLoad data, w6), (EvDestroy, w7),
                      (EvWaitCleanup, fst wt)]"
  using assms(1) unfolding b
  by (cases wt)
     (auto simp: DownloadShootStateBackup_def Let_def OpDestroyAndWait_Destroy_def
                 OpWait_Deploy_def andThen_nil_iff recordOp_iff recorded_def recordedLoad_def
                 recordedGetData_def
           split: prod.splits)

lemma keyOf_emptyBackupDownload:
  "keyOf (emptyBackupDownload b) = (BackupDownloadResource, b_namespace b, v_Name (b_values b))"
  by (simp add: keyOf_def emptyBackupDownload_def zeroObject_def)

lemma deleted_nil_last:
  assumes "WaitUntilExtensionObjectDeleted c ob kind interval timeout = Some (Returns None, s, n)"
  shows "1 \<le> n \<and> (\<exists>e. c_Get c (n - 1) (Namespace ob, Name ob) = Inl e \<and> IsNotFound e)"
proof -
  let ?vars = "\<lparr>dv_lastObservedError = None, dv_obj = ob\<rparr>"
  let ?f = "deletedPoll c (zeroObject (GoType ob)) kind (Namespace ob) (Name ob)"
  from assms have sch: "GoType ob \<in> set (c_Scheme c)"
    by (auto simp: WaitUntilExtensionObjectDeleted_def createResetObjectFunc_def Let_def
             split: if_splits)
  with assms have "UntilTimeout interval timeout ?f ?vars = Some (Returns None, s, n)"
    by (auto simp: WaitUntilExtensionObjectDeleted_def createResetObjectFunc_def Let_def
             split: option.splits outcome.splits)
  then have "last_poll 0 ?f (Returns None, s, n)"
    unfolding UntilTimeout_def by (rule Until_last_poll)
  then obtain k' s0 r where n: "n = Suc k'" and p: "?f k' s0 = (r, s)"
      and fin: "finished r = Some (Returns None)"
    unfolding last_poll_def by auto
  from deletedPoll_Ok[OF p fin] n show ?thesis by simp
qed

lemma WaitCleanup_nil:
  assumes "backupDownload_WaitCleanup scheme env b w = Some (Returns None, w')"
  shows "objects (w_store w') (keyOf (emptyBackupDownload b)) = None"
proof -
  let ?c = "clientOf scheme env BackupDownloadResource (w_store w)"
  from assms obtain vars n where
    run: "WaitUntilExtensionObjectDeleted ?c (emptyBackupDownload b) BackupDownloadResource
            (waitInterval b) (waitTimeout b) = Some (Returns None, vars, n)"
    and w': "w' = w\<lparr>w_store := (env ^^ n) (w_store w)\<rparr>"
    by (auto simp: backupDownload_WaitCleanup_def split: option.splits)
  from deleted_nil_last[OF run] obtain e where n: "1 \<le> n"
    and g: "c_Get ?c (n - 1) (Namespace (emptyBackupDownload b), Name (emptyBackupDownload b)) = Inl e"
    by blast
  from n obtain k where nk: "n = Suc k" by (cases n) auto
  from g have "fst (mem_Get (keyOf (emptyBackupDownload b)) ((env ^^ n) (w_store w))) = Inl e"
    unfolding nk keyOf_emptyBackupDownload
    by (simp add: clientOf_def emptyBackupDownload_def)
  then show ?thesis
    unfolding w' by (simp add: mem_Get_def split: option.splits)
qed

lemma Deploy_absent:
  assumes "objects (w_store w) (keyOf (emptyBackupDownload b)) = None"
    and "backupDownload_Deploy_op b w = Some (out, w')"
  shows "out = Returns None
       \<and> objects (w_store w') (keyOf (emptyBackupDownload b))
           = Some (backupDownload_mutate b (emptyBackupDownload b))"
  using assms
  by (auto simp: backupDownload_Deploy_op_def backupDownload_Deploy_def
                 GetAndCreateOrMergePatch_def memAPI_def mem_Get_def mem_Create_def
           split: prod.splits option.splits)

lemma Wait_nil:
  assumes "backupDownload_Wait scheme env b w = Some (Returns None, w')"
  shows "\<exists>download. objects (w_store w') (keyOf (emptyBackupDownload b)) = Some download
           \<and> CheckExtensionObject download = None"
proof -
  let ?c = "clientOf scheme env BackupDownloadResource (w_store w)"
  have an: "Annotations (emptyBackupDownload b) = []"
    by (simp add: emptyBackupDownload_def zeroObject_def)
  from assms obtain vars n where
    run: "WaitUntilExtensionObjectReady ?c (emptyBackupDownload b) BackupDownloadResource
            (waitInterval b) (waitSevereThreshold b) (waitTimeout b) None
          = Some (Returns None, vars, n)"
    and w': "w' = w\<lparr>w_store := (env ^^ n) (w_store w)\<rparr>"
    by (auto simp: backupDownload_Wait_def split: option.splits)
  from run have "WaitUntilObjectReadyWithHealthFunction ?c (And [CheckExtensionObject])
                   (emptyBackupDownload b) BackupDownloadResource (waitInterval b)
                   (waitSevereThreshold b) (waitTimeout b) None
                 = Some (Returns None, vars, n)"
    by (simp add: WaitUntilExtensionObjectReady_def an)
  from ready_nil_last[OF this] have n: "1 \<le> n"
    and g: "c_Get ?c (n - 1) (Namespace (emptyBackupDownload b), Name (emptyBackupDownload b))
              = Inr (obj vars)"
    and h: "CheckExtensionObject (obj vars) = None"
    by (auto split: option.splits)
  from n obtain k where nk: "n = Suc k" by (cases n) auto
  from g have "fst (mem_Get (keyOf (emptyBackupDownload b)) ((env ^^ n) (w_store w)))
                 = Inr (obj vars)"
    unfolding nk keyOf_emptyBackupDownload
    by (simp add: clientOf_def emptyBackupDownload_def)
  then have "objects (w_store w') (keyOf (emptyBackupDownload b)) = Some (obj vars)"
    unfolding w' by (simp add: mem_Get_def split: option.splits)
  with h show ?thesis by blast
qed

lemma relay_fields:
  assumes "b = \<lparr>b_namespace = seedNamespace, b_clock = now,
                 b_values = shootStateValues provider backupEntryName,
                 waitInterval = i, waitSevereThreshold = sT, waitTimeout = t\<rparr>"
    and "relay = backupDownload_mutate b (emptyBackupDownload b)"
  shows "keyOf (emptyBackupDownload b) = relayKey seedNamespace"
    and "spec_Data relay = []" and "spec_Type relay = provider"
    and "spec_EntryName relay = backupEntryName" and "spec_FilePath relay = ''shootstate''"
    and "map_of (Annotations relay) GardenerOperation = Some GardenerOperationReconcile"
  unfolding assms
  by (simp_all add: keyOf_emptyBackupDownload relayKey_def shootStateValues_def
        backupDownload_mutate_def SetMetaDataAnnotation_def GardenerOperation_def
        GardenerTimestamp_def update_conv')

text \<open>
  What the component does in a download that returns \<^verbatim>\<open>nil\<close>, whatever \<^verbatim>\<open>GetData\<close> returns:
  after the first WaitCleanup the API server holds no relay object, Deploy stores the relay
  object with an empty \<^verbatim>\<open>Spec.Data\<close>, and after Wait the server holds it in a ready state.
\<close>

lemma download_nil_relay:
  assumes "DownloadShootStateBackup (Some provider) backupEntryName seedNamespace now
             (\<lambda>b. recorded (backupdownload_New scheme env now b))
             (\<lambda>b. recordedGetData (GetData b)) (recordedLoad load) (w, [])
           = Some (Returns None, wt)"
  shows "\<exists>w1 w2 w3 w4 w5 w6 w7 data relay download.
           snd wt = [(EvDestroy, w1), (EvWaitCleanup, w2), (EvDeploy, w3), (EvWait, w4),
                     (EvGetData data, w5), (EvLoad data, w6), (EvDestroy, w7),
                     (EvWaitCleanup, fst wt)]
         \<and> objects (w_store w2) (relayKey seedNamespace) = None
         \<and> objects (w_store w3) (relayKey seedNamespace) = Some relay
         \<and> spec_Data relay = [] \<and> spec_Type relay = provider
         \<and> spec_EntryName relay = backupEntryName \<and> spec_FilePath relay = ''shootstate''
         \<and> map_of (Annotations relay) GardenerOperation = Some GardenerOperationReconcile
         \<and> objects (w_store w4) (relayKey seedNamespace) = Some download
         \<and> CheckExtensionObject download = None
         \<and> objects (w_store (fst wt)) (relayKey seedNamespace) = None"
proof -
  define b where "b = \<lparr>b_namespace = seedNamespace, b_clock = now,
                       b_values = shootStateValues provider backupEntryName,
                       waitInterval = DefaultInterval,
                       waitSevereThreshold = DefaultSevereThreshold,
                       waitTimeout = DefaultTimeout\<rparr>"
  define relay where "relay = backupDownload_mutate b (emptyBackupDownload b)"
  note rf = relay_fields[OF b_def relay_def]
  from driver_trace[where New = "\<lambda>b. backupdownload_New scheme env now b", OF assms b_def]
  obtain w1 w2 w3 w4 w5 w6 w7 data where
    c1: "dw_WaitCleanup (backupdownload_New scheme env now b) w1 = Some (Returns None, w2)"
    and dp: "dw_Deploy (backupdownload_New scheme env now b) w2 = Some (Returns None, w3)"
    and wa: "dw_Wait (backupdownload_New scheme env now b) w3 = Some (Returns None, w4)"
    and c2: "dw_WaitCleanup (backupdownload_New scheme env now b) w7
               = Some (Returns None, fst wt)"
    and tr: "snd wt = [(EvDestroy, w1), (EvWaitCleanup, w2), (EvDeploy, w3), (EvWait, w4),
                       (EvGetData data, w5), (EvLoad data, w6), (EvDestroy, w7),
                       (EvWaitCleanup, fst wt)]"
    by blast
  from c1 have a2: "objects (w_store w2) (relayKey seedNamespace) = None"
    using WaitCleanup_nil[of scheme env b w1 w2] by (simp add: backupdownload_New_def rf(1))
  from dp have "backupDownload_Deploy_op b w2 = Some (Returns None, w3)"
    by (simp add: backupdownload_New_def)
  from Deploy_absent[OF _ this] a2
  have a3: "objects (w_store w3) (relayKey seedNamespace) = Some relay"
    by (simp add: rf(1) relay_def)
  from wa have "backupDownload_Wait scheme env b w3 = Some (Returns None, w4)"
    by (simp add: backupdownload_New_def)
  from Wait_nil[OF this] obtain download where
    a4: "objects (w_store w4) (relayKey seedNamespace) = Some download"
    and rd: "CheckExtensionObject download = None"
    by (auto simp: rf(1))
  from c2 have a8: "objects (w_store (fst wt)) (relayKey seedNamespace) = None"
    using WaitCleanup_nil[of scheme env b w7 "fst wt"]
    by (simp add: backupdownload_New_def rf(1))
  from tr a2 a3 rf(2-6) a4 rd a8 show ?thesis by blast
qed

text \<open>
  With the bytes that the component holds, the download never returns \<^verbatim>\<open>nil\<close>: the values
  that the driver builds carry no data, and \<^verbatim>\<open>decrypt\<close> refuses fewer than sixteen bytes.
\<close>

lemma loadShootState_short:
  "length data < BlockSize \<Longrightarrow>
     loadShootState aes unmarshal setter data w
       = Some (Returns (Some (Plain (''failed decrypting ShootState: ''
                                      @ ''Ciphertext block size is too short!''))), w)"
  by (simp add: loadShootState_def decrypt_def NewCipher_cipherKey)

lemma download_of_held_data_never_nil:
  "DownloadShootStateBackup backup backupEntryName seedNamespace now New heldData
     (loadShootState aes unmarshal setter) w \<noteq> Some (Returns None, w')"
  by (cases backup)
     (auto simp: DownloadShootStateBackup_def Let_def andThen_nil_iff heldData_def
                 shootStateValues_def loadShootState_short BlockSize_def)


end
